(* ===== verification/Prelude.thy ===== *)
theory Prelude
  imports Main "HOL-Library.Sublist" "HOL-Library.List_Lexorder" "HOL-Library.Char_ord"
begin

text \<open>
  Shared vocabulary of the development: the rule collections the component theories
  fill, the container operations the source borrows from the JavaScript runtime
  (sparse arrays, insertion-ordered sets) and the generic list lemmas the component
  proofs share.
\<close>

named_theorems js_eval "evaluation equations of the modelled JavaScript built-ins"
named_theorems pipeline_eval "evaluation equations of the modelled pipeline stages"

subsection \<open>Sparse arrays\<close>

text \<open>
  A JavaScript array written by index (\<open>a[i] = v\<close> past the end) has holes; it is
  a list of options, \<open>None\<close> for a hole. \<open>forEach\<close> and \<open>filter\<close> skip holes,
  so iterating such an array visits \<open>present a\<close>.
\<close>

fun present :: "'a option list \<Rightarrow> 'a list" where
  "present [] = []"
| "present (None # xs) = present xs"
| "present (Some x # xs) = x # present xs"

definition arr_get :: "'a option list \<Rightarrow> nat \<Rightarrow> 'a option" where
  "arr_get xs i = (if i < length xs then xs ! i else None)"

definition arr_set :: "'a option list \<Rightarrow> nat \<Rightarrow> 'a \<Rightarrow> 'a option list" where
  "arr_set xs i v =
     (if i < length xs then xs[i := Some v]
      else xs @ replicate (i - length xs) None @ [Some v])"

subsection \<open>Insertion-ordered sets\<close>

text \<open>\<open>Set.prototype.add\<close>: an element already present keeps its place.\<close>

definition set_add :: "'a \<Rightarrow> 'a list \<Rightarrow> 'a list" where
  "set_add x xs = (if x \<in> set xs then xs else xs @ [x])"

lemma set_set_add [simp]: "set (set_add x xs) = insert x (set xs)"
  by (auto simp: set_add_def)

lemma distinct_set_add [simp]: "distinct xs \<Longrightarrow> distinct (set_add x xs)"
  by (simp add: set_add_def)

lemma prefix_set_add: "prefix xs (set_add x xs)"
  by (simp add: set_add_def)

subsection \<open>Mapping with a thrown exception\<close>

text \<open>
  \<open>xs.map(f)\<close> where \<open>f\<close> may throw: the first exception aborts the whole map.
  Rendering a list of child components behaves the same way.
\<close>

fun map_result :: "('a \<Rightarrow> 'e + 'b) \<Rightarrow> 'a list \<Rightarrow> 'e + 'b list" where
  "map_result f [] = Inr []"
| "map_result f (x # xs) =
     (case f x of
        Inl e \<Rightarrow> Inl e
      | Inr y \<Rightarrow> (case map_result f xs of Inl e \<Rightarrow> Inl e | Inr ys \<Rightarrow> Inr (y # ys)))"

lemma map_result_Inr:
  "(\<And>x. x \<in> set xs \<Longrightarrow> \<exists>y. f x = Inr y) \<Longrightarrow> \<exists>ys. map_result f xs = Inr ys \<and> length ys = length xs"
proof (induction xs)
  case (Cons a xs)
  obtain y where "f a = Inr y" using Cons.prems by auto
  moreover obtain ys where "map_result f xs = Inr ys" "length ys = length xs" using Cons by auto
  ultimately show ?case by simp
qed simp

lemma map_result_Inl:
  "x \<in> set xs \<Longrightarrow> f x = Inl e \<Longrightarrow> \<exists>e'. map_result f xs = Inl e'"
  by (induction xs) (auto split: sum.splits)

subsection \<open>Generic list lemmas\<close>

lemma present_append [simp]: "present (xs @ ys) = present xs @ present ys"
  by (induction xs rule: present.induct) auto

lemma present_replicate_None [simp]: "present (replicate n None) = []"
  by (induction n) auto

lemma length_present_le: "length (present xs) \<le> length xs"
  by (induction xs rule: present.induct) auto

lemma present_all_Some: "None \<notin> set xs \<Longrightarrow> length (present xs) = length xs"
  by (induction xs rule: present.induct) auto

lemma set_present: "set (present xs) = {x. Some x \<in> set xs}"
  by (induction xs rule: present.induct) auto

lemma present_no_holes: "None \<notin> set xs \<Longrightarrow> present xs = map the xs"
  by (induction xs rule: present.induct) auto

lemma present_map_Some [simp]: "present (map Some xs) = xs"
  by (induction xs) auto

lemma length_arr_set: "length (arr_set xs i v) = max (length xs) (Suc i)"
  by (simp add: arr_set_def)

lemma arr_get_arr_set:
  "arr_get (arr_set xs i v) j = (if j = i then Some v else arr_get xs j)"
  by (auto simp: arr_get_def arr_set_def nth_append nth_list_update)

lemma None_notin_arr_set:
  "None \<notin> set xs \<Longrightarrow> i \<le> length xs \<Longrightarrow> None \<notin> set (arr_set xs i v)"
  by (auto simp: arr_set_def dest: set_update_subset_insert [THEN subsetD])

lemma filter_subseq: "subseq (filter P xs) xs"
  by (induction xs) auto

lemma sorted_distinct_same_set:
  "sorted xs \<Longrightarrow> distinct xs \<Longrightarrow> sorted ys \<Longrightarrow> distinct ys \<Longrightarrow> set xs = set ys \<Longrightarrow> xs = ys"
  by (metis sorted_distinct_set_unique)

lemma append_separator_eq:
  "c \<notin> set xs \<Longrightarrow> c \<notin> set xs' \<Longrightarrow> xs @ c # ys = xs' @ c # ys' \<Longrightarrow> xs = xs'"
proof (induction xs arbitrary: xs')
  case Nil
  then show ?case by (cases xs') auto
next
  case (Cons x xs)
  then show ?case by (cases xs') auto
qed

end
