(* ===== verification/JS_Values.thy ===== *)
theory JS_Values
  imports Prelude
begin

text \<open>
  The JavaScript runtime semantics the pipeline depends on: the values a data-frame
  cell can hold, truthiness and \<open>||\<close>, \<open>String(x)\<close> (template literals),
  \<open>parseInt(s, 10)\<close>, \<open>toLowerCase\<close>, \<open>String.prototype.includes\<close>, plain
  objects as insertion-ordered property lists, and the default \<open>Array.prototype.sort\<close>.
  Numbers are integers (the cells the panel reads are row indices, epoch milliseconds
  and status codes); strings are byte strings and case mapping is ASCII.
\<close>

subsection \<open>Values, truthiness and the \<open>||\<close> operator\<close>

datatype jsval = JUndefined | JNull | JBool bool | JNum int | JStr string

text \<open>The exception a property access or call on the wrong kind of value throws.\<close>

datatype js_error = TypeError

fun js_truthy :: "jsval \<Rightarrow> bool" where
  "js_truthy JUndefined = False"
| "js_truthy JNull = False"
| "js_truthy (JBool b) = b"
| "js_truthy (JNum n) = (n \<noteq> 0)"
| "js_truthy (JStr s) = (s \<noteq> [])"

definition js_or :: "jsval \<Rightarrow> jsval \<Rightarrow> jsval" where
  "js_or a b = (if js_truthy a then a else b)"

lemma js_or_eval [simp, js_eval]:
  "js_truthy a \<Longrightarrow> js_or a b = a"
  "\<not> js_truthy a \<Longrightarrow> js_or a b = b"
  by (simp_all add: js_or_def)

subsection \<open>Number to string\<close>

definition digit_char :: "nat \<Rightarrow> char" where
  "digit_char d = ''0123456789'' ! d"

fun nat_to_string :: "nat \<Rightarrow> string" where
  "nat_to_string n =
     (if n < 10 then [digit_char n] else nat_to_string (n div 10) @ [digit_char (n mod 10)])"

declare nat_to_string.simps [simp del]

definition int_to_string :: "int \<Rightarrow> string" where
  "int_to_string i = (if i < 0 then CHR ''-'' # nat_to_string (nat (- i)) else nat_to_string (nat i))"

fun js_to_string :: "jsval \<Rightarrow> string" where
  "js_to_string JUndefined = ''undefined''"
| "js_to_string JNull = ''null''"
| "js_to_string (JBool b) = (if b then ''true'' else ''false'')"
| "js_to_string (JNum n) = int_to_string n"
| "js_to_string (JStr s) = s"

subsection \<open>\<open>parseInt(s, 10)\<close>\<close>

text \<open>
  Leading white space is skipped, one sign is read, then the longest run of decimal
  digits; no digit at all is \<open>NaN\<close>, here \<open>None\<close>.
\<close>

definition is_js_space :: "char \<Rightarrow> bool" where
  "is_js_space c \<longleftrightarrow> c \<in> {CHR '' '', CHR 0x09, CHR 0x0A, CHR 0x0B, CHR 0x0C, CHR 0x0D}"

definition is_digit :: "char \<Rightarrow> bool" where
  "is_digit c \<longleftrightarrow> CHR ''0'' \<le> c \<and> c \<le> CHR ''9''"

definition digit_value :: "char \<Rightarrow> nat" where
  "digit_value c = of_char c - 48"

definition digits_value :: "string \<Rightarrow> nat" where
  "digits_value ds = foldl (\<lambda>acc c. 10 * acc + digit_value c) 0 ds"

definition parse_unsigned :: "string \<Rightarrow> nat option" where
  "parse_unsigned s = (let ds = takeWhile is_digit s in if ds = [] then None else Some (digits_value ds))"

definition js_parseInt :: "string \<Rightarrow> int option" where
  "js_parseInt s =
     (case dropWhile is_js_space s of
        c # r \<Rightarrow>
          (if c = CHR ''-'' then map_option (\<lambda>n. - int n) (parse_unsigned r)
           else if c = CHR ''+'' then map_option int (parse_unsigned r)
           else map_option int (parse_unsigned (c # r)))
      | [] \<Rightarrow> None)"

subsection \<open>Case mapping and substring search\<close>

definition lower_char :: "char \<Rightarrow> char" where
  "lower_char c = (if CHR ''A'' \<le> c \<and> c \<le> CHR ''Z'' then char_of (of_char c + (32::nat)) else c)"

definition js_lower :: "string \<Rightarrow> string" where
  "js_lower s = map lower_char s"

text \<open>\<open>s.includes(t)\<close>: \<open>t\<close> occurs in \<open>s\<close> as a contiguous block.\<close>

definition str_includes :: "string \<Rightarrow> string \<Rightarrow> bool" where
  "str_includes s t = sublist t s"

subsection \<open>Plain objects\<close>

text \<open>
  An object is its list of own properties in insertion order; assigning an existing
  property keeps its place. Reading a missing property gives \<open>undefined\<close>;
  \<open>Object.keys(o).length\<close> is the length of the list.
\<close>

type_synonym jsobj = "(string \<times> jsval) list"

fun obj_set :: "string \<Rightarrow> jsval \<Rightarrow> jsobj \<Rightarrow> jsobj" where
  "obj_set k v [] = [(k, v)]"
| "obj_set k v ((k', v') # ps) = (if k = k' then (k, v) # ps else (k', v') # obj_set k v ps)"

definition obj_get :: "jsobj \<Rightarrow> string \<Rightarrow> jsval" where
  "obj_get obj k = (case map_of obj k of None \<Rightarrow> JUndefined | Some v \<Rightarrow> v)"

definition obj_keys :: "jsobj \<Rightarrow> string list" where
  "obj_keys obj = map fst obj"

subsection \<open>The default sort\<close>

text \<open>
  \<open>Array.prototype.sort()\<close> without a comparator compares \<open>String(x)\<close> by code
  units and is stable: \<open>sort_key\<close> with the lexicographic order on strings.
\<close>

definition js_sort :: "jsval list \<Rightarrow> jsval list" where
  "js_sort xs = sort_key js_to_string xs"

subsection \<open>The \<open>Date\<close> and \<open>JSON\<close> library\<close>

text \<open>
  The library calls whose results depend on the host (time zone, locale, the date
  grammar) are inputs of the model: \<open>Date.parse\<close> of a string (\<open>None\<close> for NaN),
  \<open>toISOString\<close> and \<open>toLocaleTimeString\<close> of a valid time, and whether \<open>JSON.parse\<close>
  of a string yields an object (\<open>False\<close> when it throws). What \<open>new Date(v)\<close> does with
  the other kinds of value is written out: \<open>null\<close> is time 0, a boolean is 0 or 1, a
  number is itself within the range of dates and NaN beyond, \<open>undefined\<close> is NaN.
\<close>

record js_library =
  date_parse :: "string \<Rightarrow> int option"
  iso_string :: "int \<Rightarrow> string"
  json_object :: "string \<Rightarrow> bool"
  locale_time_string :: "int \<Rightarrow> string"

definition max_time :: int where
  "max_time = 8640000000000000"

fun date_time :: "js_library \<Rightarrow> jsval \<Rightarrow> int option" where
  "date_time lib JUndefined = None"
| "date_time lib JNull = Some 0"
| "date_time lib (JBool b) = Some (if b then 1 else 0)"
| "date_time lib (JNum n) = (if \<bar>n\<bar> \<le> max_time then Some n else None)"
| "date_time lib (JStr s) = date_parse lib s"

text \<open>A library in which no string parses as a date and no string as a JSON object.\<close>

definition no_dates :: js_library where
  "no_dates = \<lparr>date_parse = (\<lambda>_. None), iso_string = (\<lambda>_. []), json_object = (\<lambda>_. False),
                  locale_time_string = (\<lambda>_. [])\<rparr>"

subsection \<open>Number formatting and parsing\<close>

lemma less_ten_cases: "(d::nat) < 10 \<Longrightarrow> d \<in> {0, 1, 2, 3, 4, 5, 6, 7, 8, 9}"
  by auto

lemma digit_char_is_digit: "d < 10 \<Longrightarrow> is_digit (digit_char d)"
  by (drule less_ten_cases) (auto simp: digit_char_def is_digit_def less_eq_char_def)

lemma digit_value_digit_char: "d < 10 \<Longrightarrow> digit_value (digit_char d) = d"
  by (drule less_ten_cases) (auto simp: digit_char_def digit_value_def)

lemma nat_to_string_nonempty: "nat_to_string n \<noteq> []"
  by (subst nat_to_string.simps) simp

lemma nat_to_string_digits: "c \<in> set (nat_to_string n) \<Longrightarrow> is_digit c"
proof (induction n rule: nat_to_string.induct)
  case (1 n)
  then show ?case
    by (cases "n < 10") (auto simp: nat_to_string.simps [of n] digit_char_is_digit)
qed

lemma digits_value_snoc: "digits_value (ds @ [c]) = 10 * digits_value ds + digit_value c"
  by (simp add: digits_value_def)

lemma digits_value_nat_to_string: "digits_value (nat_to_string n) = n"
proof (induction n rule: nat_to_string.induct)
  case (1 n)
  show ?case
  proof (cases "n < 10")
    case True
    then show ?thesis
      by (simp add: nat_to_string.simps [of n] digits_value_def digit_value_digit_char)
  next
    case False
    then have "digits_value (nat_to_string n) = 10 * (n div 10) + n mod 10"
      using "1.IH" by (simp add: nat_to_string.simps [of n] digits_value_snoc digit_value_digit_char)
    then show ?thesis by simp
  qed
qed

lemma parse_unsigned_nat_to_string: "parse_unsigned (nat_to_string n) = Some n"
proof -
  have "takeWhile is_digit (nat_to_string n) = nat_to_string n"
    by (simp add: nat_to_string_digits)
  then show ?thesis
    by (simp add: parse_unsigned_def Let_def nat_to_string_nonempty digits_value_nat_to_string
        del: takeWhile_eq_all_conv)
qed

lemma not_space_digit: "is_digit c \<Longrightarrow> \<not> is_js_space c"
  by (auto simp: is_digit_def is_js_space_def less_eq_char_def)

lemma nat_to_string_Cons: "\<exists>c r. nat_to_string n = c # r \<and> is_digit c"
  by (metis list.exhaust list.set_intros(1) nat_to_string_digits nat_to_string_nonempty)

lemma js_parseInt_nat_to_string: "js_parseInt (nat_to_string n) = Some (int n)"
proof -
  obtain c r where cr: "nat_to_string n = c # r" and d: "is_digit c"
    using nat_to_string_Cons by blast
  have "c \<noteq> CHR ''-''" "c \<noteq> CHR ''+''" "\<not> is_js_space c"
    using d by (auto simp: is_digit_def less_eq_char_def not_space_digit)
  then show ?thesis
    using parse_unsigned_nat_to_string [of n] by (simp add: js_parseInt_def cr)
qed

text \<open>\<open>parseInt(String(n), 10) = n\<close> for every integer: the formatting round trip.\<close>

lemma js_parseInt_int_to_string: "js_parseInt (int_to_string i) = Some i"
proof (cases "i < 0")
  case True
  have "\<not> is_js_space (CHR ''-'')" by (simp add: is_js_space_def)
  with True show ?thesis
    by (simp add: int_to_string_def js_parseInt_def parse_unsigned_nat_to_string)
next
  case False
  then show ?thesis by (simp add: int_to_string_def js_parseInt_nat_to_string)
qed

lemma int_to_string_inj: "int_to_string i = int_to_string j \<longleftrightarrow> i = j"
  by (metis js_parseInt_int_to_string option.inject)

lemma underscore_notin_int_to_string: "CHR ''_'' \<notin> set (int_to_string i)"
  by (auto simp: int_to_string_def is_digit_def less_eq_char_def dest: nat_to_string_digits)

subsection \<open>Objects\<close>

lemma map_of_obj_set [simp]: "map_of (obj_set k v obj) = (map_of obj)(k \<mapsto> v)"
  by (induction obj rule: obj_set.induct) (auto simp: fun_eq_iff)

lemma obj_get_obj_set [simp]:
  "obj_get (obj_set k v obj) k' = (if k' = k then v else obj_get obj k')"
  by (simp add: obj_get_def)

lemma obj_keys_obj_set:
  "obj_keys (obj_set k v obj) = (if k \<in> set (obj_keys obj) then obj_keys obj else obj_keys obj @ [k])"
  by (induction obj rule: obj_set.induct) (auto simp: obj_keys_def)

lemma set_obj_keys_obj_set [simp]: "set (obj_keys (obj_set k v obj)) = insert k (set (obj_keys obj))"
  by (auto simp: obj_keys_obj_set)

lemma distinct_obj_keys_obj_set [simp]:
  "distinct (obj_keys obj) \<Longrightarrow> distinct (obj_keys (obj_set k v obj))"
  by (simp add: obj_keys_obj_set)

lemma length_obj_set_ge: "length obj \<le> length (obj_set k v obj)"
  by (induction obj rule: obj_set.induct) auto

lemma obj_get_notin: "k \<notin> set (obj_keys obj) \<Longrightarrow> obj_get obj k = JUndefined"
proof -
  assume "k \<notin> set (obj_keys obj)"
  then have "map_of obj k = None" by (simp add: obj_keys_def map_of_eq_None_iff)
  then show ?thesis by (simp add: obj_get_def)
qed

subsection \<open>Sorting, strings\<close>

lemma set_js_sort [simp]: "set (js_sort xs) = set xs"
  by (simp add: js_sort_def)

lemma distinct_js_sort [simp]: "distinct (js_sort xs) = distinct xs"
  by (simp add: js_sort_def)

lemma length_js_sort [simp]: "length (js_sort xs) = length xs"
  by (simp add: js_sort_def)

lemma sorted_js_sort: "sorted (map js_to_string (js_sort xs))"
  by (simp add: js_sort_def)

lemma str_includes_Nil [simp]: "str_includes s []"
  by (simp add: str_includes_def)

lemma length_js_lower [simp]: "length (js_lower s) = length s"
  by (simp add: js_lower_def)

lemma sublist_js_lower: "sublist t t' \<Longrightarrow> sublist (js_lower t) (js_lower t')"
  unfolding sublist_def js_lower_def by (metis map_append)

lemma str_includes_mono: "sublist t t' \<Longrightarrow> str_includes s t' \<Longrightarrow> str_includes s t"
  unfolding str_includes_def by (rule sublist_order.order.trans)

text \<open>The equations that evaluate the built-ins on literals, for witnesses.\<close>

lemmas [js_eval] = js_lower_def lower_char_def char_of_def bit_simps str_includes_def sublist_code
  js_parseInt_def parse_unsigned_def is_js_space_def is_digit_def digits_value_def digit_value_def
  int_to_string_def nat_to_string.simps digit_char_def obj_get_def js_sort_def less_eq_char_def

end
