(* ===== verification/Flow_Filter.thy ===== *)
theory Flow_Filter
  imports JS_Values
begin

text \<open>
  Filter Evaluator: the \<open>filteredData\<close> memo of \<open>FlowVisualization.tsx\<close>
  (lines 184--222) over the \<open>FilterOptions\<close> record (lines 13--20). The callback
  of \<open>processedData.filter\<close> is \<open>passes_filters\<close>; a \<open>TypeError\<close> thrown by
  \<open>item.callid?.includes\<close> on a non-string Call-ID aborts the whole memo, so the
  result is \<open>js_error + jsobj list\<close>.
\<close>

subsection \<open>Filter options\<close>

text \<open>
  The source, destination and method controls store the values of the options they
  offer, which are cell values taken from \<open>extractedHosts\<close> and
  \<open>availableMethods\<close>; the TypeScript annotations \<open>string\<close> and \<open>string[]\<close> are
  not enforced at run time, so those three fields hold JavaScript values.
\<close>

record filter_options =
  searchTerm :: string
  methodFilter :: "jsval list"
  sourceFilter :: jsval
  destinationFilter :: jsval
  callidFilter :: string
  showOnlyErrors :: bool

definition no_filters :: filter_options where
  "no_filters = \<lparr>searchTerm = [], methodFilter = [], sourceFilter = JStr [], destinationFilter = JStr [],
                  callidFilter = [], showOnlyErrors = False\<rparr>"

subsection \<open>The per-message predicate\<close>

definition search_text :: "jsobj \<Rightarrow> string" where
  "search_text item =
     js_lower (js_to_string (js_or (obj_get item ''method'') (JStr [])) @ '' '' @
               js_to_string (js_or (obj_get item ''source'') (JStr [])) @ '' '' @
               js_to_string (js_or (obj_get item ''destination'') (JStr [])) @ '' '' @
               js_to_string (js_or (obj_get item ''callid'') (JStr [])))"

definition callid_includes :: "jsval \<Rightarrow> string \<Rightarrow> js_error + jsval" where
  "callid_includes v term =
     (case v of
        JUndefined \<Rightarrow> Inr JUndefined
      | JNull \<Rightarrow> Inr JUndefined
      | JStr s \<Rightarrow> Inr (JBool (str_includes s term))
      | _ \<Rightarrow> Inl TypeError)"

definition response_code :: "jsobj \<Rightarrow> int option" where
  "response_code item = js_parseInt (js_to_string (js_or (obj_get item ''response_code'') (JStr ''0'')))"

definition below_400 :: "int option \<Rightarrow> bool" where
  "below_400 code = (case code of None \<Rightarrow> False | Some n \<Rightarrow> n < 400)"

definition passes_error_filter :: "filter_options \<Rightarrow> jsobj \<Rightarrow> bool" where
  "passes_error_filter filters item = (\<not> (showOnlyErrors filters \<and> below_400 (response_code item)))"

definition passes_filters :: "filter_options \<Rightarrow> jsobj \<Rightarrow> js_error + bool" where
  "passes_filters filters item =
     (if searchTerm filters \<noteq> [] \<and> \<not> str_includes (search_text item) (js_lower (searchTerm filters))
      then Inr False
      else if methodFilter filters \<noteq> [] \<and> obj_get item ''method'' \<notin> set (methodFilter filters)
      then Inr False
      else if js_truthy (sourceFilter filters) \<and> obj_get item ''source'' \<noteq> sourceFilter filters
      then Inr False
      else if js_truthy (destinationFilter filters) \<and> obj_get item ''destination'' \<noteq> destinationFilter filters
      then Inr False
      else if callidFilter filters \<noteq> []
      then (case callid_includes (obj_get item ''callid'') (callidFilter filters) of
              Inl e \<Rightarrow> Inl e
            | Inr found \<Rightarrow> if \<not> js_truthy found then Inr False else Inr (passes_error_filter filters item))
      else Inr (passes_error_filter filters item))"

fun filter_messages :: "filter_options \<Rightarrow> jsobj list \<Rightarrow> js_error + jsobj list" where
  "filter_messages filters [] = Inr []"
| "filter_messages filters (item # items) =
     (case passes_filters filters item of
        Inl e \<Rightarrow> Inl e
      | Inr keep \<Rightarrow>
          (case filter_messages filters items of
             Inl e \<Rightarrow> Inl e
           | Inr rest \<Rightarrow> Inr (if keep then item # rest else rest)))"

subsection \<open>The contract of the spec\<close>

text \<open>
  The filter the spec describes: all six dimensions AND-combined (an empty search
  term, method list, source, destination or Call-ID imposes nothing), a Call-ID filter
  excluding a message without a string Call-ID, and a response code that does not
  parse counted as 0.
\<close>

definition spec_included :: "filter_options \<Rightarrow> jsobj \<Rightarrow> bool" where
  "spec_included filters item \<longleftrightarrow>
     (searchTerm filters = [] \<or> str_includes (search_text item) (js_lower (searchTerm filters))) \<and>
     (methodFilter filters = [] \<or> obj_get item ''method'' \<in> set (methodFilter filters)) \<and>
     (if js_truthy (sourceFilter filters) then obj_get item ''source'' = sourceFilter filters else True) \<and>
     (if js_truthy (destinationFilter filters)
      then obj_get item ''destination'' = destinationFilter filters else True) \<and>
     (callidFilter filters = [] \<or>
        (case obj_get item ''callid'' of JStr s \<Rightarrow> str_includes s (callidFilter filters) | _ \<Rightarrow> False)) \<and>
     (if showOnlyErrors filters
      then 400 \<le> (case response_code item of Some n \<Rightarrow> n | None \<Rightarrow> 0) else True)"

definition callid_typed :: "jsobj \<Rightarrow> bool" where
  "callid_typed item =
     (case obj_get item ''callid'' of JUndefined \<Rightarrow> True | JNull \<Rightarrow> True | JStr _ \<Rightarrow> True | _ \<Rightarrow> False)"

definition code_numeric :: "jsobj \<Rightarrow> bool" where
  "code_numeric item = (response_code item \<noteq> None)"

subsection \<open>Lemmas\<close>

lemma filter_messages_Inr:
  "filter_messages filters items = Inr r \<Longrightarrow> r = filter (\<lambda>m. passes_filters filters m = Inr True) items"
proof (induction items arbitrary: r)
  case Nil
  then show ?case by simp
next
  case (Cons item items)
  then show ?case
    by (auto split: sum.splits if_splits)
qed

lemma filter_messages_total:
  "(\<And>m. m \<in> set items \<Longrightarrow> \<exists>b. passes_filters filters m = Inr b) \<Longrightarrow>
   filter_messages filters items = Inr (filter (\<lambda>m. passes_filters filters m = Inr True) items)"
proof (induction items)
  case Nil
  then show ?case by simp
next
  case (Cons item items)
  then obtain b where "passes_filters filters item = Inr b" by auto
  with Cons show ?case by (cases b) auto
qed

lemma passes_filters_defined:
  "callidFilter filters = [] \<or> callid_typed item \<Longrightarrow> \<exists>b. passes_filters filters item = Inr b"
  by (auto simp: passes_filters_def callid_includes_def callid_typed_def split: jsval.splits)

lemma passes_filters_spec:
  "callid_typed item \<Longrightarrow> code_numeric item \<Longrightarrow>
   passes_filters filters item = Inr (spec_included filters item)"
  by (auto simp: passes_filters_def spec_included_def callid_includes_def callid_typed_def
      code_numeric_def passes_error_filter_def below_400_def split: jsval.splits option.splits)

lemma passes_no_filters: "passes_filters no_filters item = Inr True"
  by (simp add: passes_filters_def no_filters_def passes_error_filter_def)

lemma filter_messages_Inl:
  "m \<in> set items \<Longrightarrow> passes_filters filters m = Inl e \<Longrightarrow> \<exists>e'. filter_messages filters items = Inl e'"
proof (induction items)
  case Nil
  then show ?case by simp
next
  case (Cons item items)
  then show ?case by (auto split: sum.splits)
qed

lemma passes_filters_all_true:
  "filter_messages filters items = Inr r \<Longrightarrow> m \<in> set r \<Longrightarrow> passes_filters filters m = Inr True"
  by (auto dest: filter_messages_Inr)

lemma passes_error_filter_search:
  "passes_error_filter (fo\<lparr>searchTerm := t\<rparr>) item = passes_error_filter fo item"
  by (simp add: passes_error_filter_def)

lemma passes_filters_search:
  "passes_filters fo item =
     (if searchTerm fo \<noteq> [] \<and> \<not> str_includes (search_text item) (js_lower (searchTerm fo)) then Inr False
      else passes_filters (fo\<lparr>searchTerm := []\<rparr>) item)"
  unfolding passes_filters_def passes_error_filter_search by simp

lemma passes_filters_narrow_search:
  assumes "sublist t t'" and "passes_filters (fo\<lparr>searchTerm := t\<rparr>) item = Inr b"
  shows "\<exists>b'. passes_filters (fo\<lparr>searchTerm := t'\<rparr>) item = Inr b' \<and> (b' \<longrightarrow> b)"
proof -
  have ne: "t \<noteq> [] \<Longrightarrow> t' \<noteq> []" using assms(1) by auto
  have inc: "str_includes (search_text item) (js_lower t') \<Longrightarrow> str_includes (search_text item) (js_lower t)"
    using str_includes_mono [OF sublist_js_lower [OF assms(1)]] .
  show ?thesis
    using assms(2) ne inc passes_filters_search [of "fo\<lparr>searchTerm := t\<rparr>" item]
      passes_filters_search [of "fo\<lparr>searchTerm := t'\<rparr>" item]
    by (auto split: if_splits)
qed

lemmas filter_eval = passes_filters_def search_text_def callid_includes_def response_code_def
  below_400_def passes_error_filter_def spec_included_def callid_typed_def code_numeric_def no_filters_def

subsection \<open>Properties\<close>

text \<open>
  C1. Refinement: on messages whose Call-ID is a string or absent and whose response
  code parses, the filter keeps exactly the messages the spec's contract includes, in
  their original order.
\<close>

theorem filter_refines_spec:
  assumes "\<forall>m \<in> set items. callid_typed m \<and> code_numeric m"
  shows "filter_messages filters items = Inr (filter (spec_included filters) items)"
proof -
  have "filter_messages filters items = Inr (filter (\<lambda>m. passes_filters filters m = Inr True) items)"
    using assms by (intro filter_messages_total passes_filters_defined) auto
  also have "filter (\<lambda>m. passes_filters filters m = Inr True) items = filter (spec_included filters) items"
    using assms by (intro filter_cong) (auto simp: passes_filters_spec)
  finally show ?thesis .
qed

theorem filter_refines_spec_witness:
  "filter_messages (no_filters\<lparr>methodFilter := [JStr ''INVITE'']\<rparr>)
     [[(''method'', JStr ''INVITE'')], [(''method'', JStr ''BYE'')]] = Inr [[(''method'', JStr ''INVITE'')]]"
proof -
  have h: "\<forall>m \<in> set [[(''method'', JStr ''INVITE'')], [(''method'', JStr ''BYE'')]].
             callid_typed m \<and> code_numeric m"
    by (simp add: filter_eval js_eval)
  show ?thesis
    using filter_refines_spec [OF h, of "no_filters\<lparr>methodFilter := [JStr ''INVITE'']\<rparr>"]
    by (simp add: filter_eval js_eval)
qed

text \<open>
  C2. Identity: with every filter at its empty value (the state after "Clear All
  Filters") the evaluator returns its input unchanged.
\<close>

theorem filter_identity: "filter_messages no_filters items = Inr items"
  by (induction items) (simp_all add: passes_no_filters)

text \<open>
  C3. Typing on in the search box can reuse the list on screen: when the new search term
  contains the old one (for instance it extends it), filtering the messages shown under
  the old term gives exactly what filtering all messages under the new term gives,
  error included.
\<close>

theorem filter_search_incremental:
  assumes "sublist t t'" and "filter_messages (fo\<lparr>searchTerm := t\<rparr>) items = Inr shown"
  shows "filter_messages (fo\<lparr>searchTerm := t'\<rparr>) items = filter_messages (fo\<lparr>searchTerm := t'\<rparr>) shown"
  using assms(2)
proof (induction items arbitrary: shown)
  case (Cons item items)
  from Cons.prems obtain b rest where b: "passes_filters (fo\<lparr>searchTerm := t\<rparr>) item = Inr b"
    and r: "filter_messages (fo\<lparr>searchTerm := t\<rparr>) items = Inr rest"
    and sh: "shown = (if b then item # rest else rest)"
    by (auto split: sum.splits)
  obtain b' where b': "passes_filters (fo\<lparr>searchTerm := t'\<rparr>) item = Inr b'" "b' \<longrightarrow> b"
    using passes_filters_narrow_search [OF assms(1) b] by blast
  show ?case
  proof (cases b)
    case True
    with sh Cons.IH [OF r] b'(1) show ?thesis by simp
  next
    case False
    with b' have "passes_filters (fo\<lparr>searchTerm := t'\<rparr>) item = Inr False" by simp
    with sh False Cons.IH [OF r] show ?thesis by (simp split: sum.split)
  qed
qed simp

theorem filter_search_incremental_witness:
  "filter_messages (no_filters\<lparr>searchTerm := ''inv''\<rparr>)
     [[(''method'', JStr ''INVITE'')], [(''method'', JStr ''BYE'')], [(''method'', JStr ''INFO'')]] =
   filter_messages (no_filters\<lparr>searchTerm := ''inv''\<rparr>)
     [[(''method'', JStr ''INVITE'')], [(''method'', JStr ''INFO'')]] \<and>
   filter_messages (no_filters\<lparr>searchTerm := ''inv''\<rparr>)
     [[(''method'', JStr ''INVITE'')], [(''method'', JStr ''INFO'')]] = Inr [[(''method'', JStr ''INVITE'')]]"
proof -
  have s: "sublist ''in'' ''inv''" by (simp add: sublist_code)
  have f: "filter_messages (no_filters\<lparr>searchTerm := ''in''\<rparr>)
     [[(''method'', JStr ''INVITE'')], [(''method'', JStr ''BYE'')], [(''method'', JStr ''INFO'')]] =
     Inr [[(''method'', JStr ''INVITE'')], [(''method'', JStr ''INFO'')]]"
    by (simp add: filter_eval js_eval)
  have "filter_messages (no_filters\<lparr>searchTerm := ''inv''\<rparr>)
     [[(''method'', JStr ''INVITE'')], [(''method'', JStr ''INFO'')]] = Inr [[(''method'', JStr ''INVITE'')]]"
    by (simp add: filter_eval js_eval)
  with filter_search_incremental [OF s f] show ?thesis by simp
qed

text \<open>
  Error path: with a Call-ID filter set and the other text filters empty, a message
  whose \<open>callid\<close> is a number makes \<open>item.callid?.includes\<close> throw, and the whole
  evaluation fails with a \<open>TypeError\<close> instead of excluding the message.
\<close>

lemma filter_callid_type_error:
  assumes "callidFilter filters \<noteq> []" and "searchTerm filters = []" and "methodFilter filters = []"
    and "\<not> js_truthy (sourceFilter filters)" and "\<not> js_truthy (destinationFilter filters)"
    and "m \<in> set items" and "obj_get m ''callid'' = JNum n"
  shows "filter_messages filters items = Inl TypeError"
proof -
  have "passes_filters filters m = Inl TypeError"
    using assms by (simp add: passes_filters_def callid_includes_def)
  then obtain e where "filter_messages filters items = Inl e"
    using filter_messages_Inl [OF assms(6)] by blast
  then show ?thesis by (cases e) simp
qed

theorem filter_callid_type_error_witness:
  "filter_messages (no_filters\<lparr>callidFilter := ''xyz''\<rparr>)
     [[(''callid'', JStr ''xyz-1'')], [(''callid'', JNum 42)]] = Inl TypeError"
  by (rule filter_callid_type_error [where m = "[(''callid'', JNum 42)]" and n = 42])
     (simp_all add: no_filters_def obj_get_def)

text \<open>
  A response code given as a number, or as the decimal string of a number, is read back
  exactly by \<open>parseInt(item.response_code || '0', 10)\<close>; the number 0 too, although
  it is falsy and replaced by \<open>'0'\<close>.
\<close>

lemma response_code_reads_numbers:
  assumes "obj_get item ''response_code'' = JNum n \<or> obj_get item ''response_code'' = JStr (int_to_string n)"
  shows "response_code item = Some n"
proof -
  have ne: "int_to_string n \<noteq> []" by (simp add: int_to_string_def nat_to_string_nonempty)
  have zero: "js_parseInt ''0'' = Some 0" by (simp add: js_eval)
  from assms show ?thesis
  proof
    assume "obj_get item ''response_code'' = JNum n"
    then show ?thesis
      by (cases "n = 0") (simp_all add: response_code_def js_parseInt_int_to_string zero)
  next
    assume "obj_get item ''response_code'' = JStr (int_to_string n)"
    then show ?thesis
      using ne by (simp add: response_code_def js_parseInt_int_to_string)
  qed
qed

lemma response_code_falsy:
  "\<not> js_truthy (obj_get item ''response_code'') \<Longrightarrow> response_code item = Some 0"
  by (simp add: response_code_def js_or_def js_eval)

lemma response_code_unparsable:
  assumes "obj_get item ''response_code'' = JStr (c # cs)" and "\<not> is_js_space c" and "\<not> is_digit c"
    and "c \<noteq> CHR ''-''" and "c \<noteq> CHR ''+''"
  shows "response_code item = None"
  using assms by (simp add: response_code_def js_or_def js_parseInt_def parse_unsigned_def)

lemma filter_errors_only:
  "filter_messages (no_filters\<lparr>showOnlyErrors := True\<rparr>) items =
     Inr (filter (\<lambda>x. case response_code x of None \<Rightarrow> True | Some n \<Rightarrow> 400 \<le> n) items)"
  by (induction items)
     (auto simp: passes_filters_def no_filters_def passes_error_filter_def below_400_def split: option.splits)

text \<open>
  C28. "Show only error responses" on its own keeps exactly the messages whose code
  \<open>parseInt(item.response_code || '0', 10)\<close> is at least 400 or does not parse. An
  absent or falsy code is read as 0 and dropped, a number or its decimal string is read
  exactly; a code starting with a letter does not parse (\<open>NaN < 400\<close> is false), so
  the message is kept, where the spec counts it as 0 and excludes it.
\<close>

theorem errors_only_filter:
  "filter_messages (no_filters\<lparr>showOnlyErrors := True\<rparr>) items =
     Inr (filter (\<lambda>x. case response_code x of None \<Rightarrow> True | Some n \<Rightarrow> 400 \<le> n) items) \<and>
   (\<forall>x. \<not> js_truthy (obj_get x ''response_code'') \<longrightarrow> response_code x = Some 0) \<and>
   (\<forall>x n. obj_get x ''response_code'' = JNum n \<or> obj_get x ''response_code'' = JStr (int_to_string n) \<longrightarrow>
      response_code x = Some n) \<and>
   (\<forall>x c cs. obj_get x ''response_code'' = JStr (c # cs) \<and> \<not> is_js_space c \<and> \<not> is_digit c \<and>
      c \<noteq> CHR ''-'' \<and> c \<noteq> CHR ''+'' \<longrightarrow>
      response_code x = None \<and> \<not> spec_included (no_filters\<lparr>showOnlyErrors := True\<rparr>) x)"
proof -
  have "\<forall>x c cs. obj_get x ''response_code'' = JStr (c # cs) \<and> \<not> is_js_space c \<and> \<not> is_digit c \<and>
      c \<noteq> CHR ''-'' \<and> c \<noteq> CHR ''+'' \<longrightarrow>
      response_code x = None \<and> \<not> spec_included (no_filters\<lparr>showOnlyErrors := True\<rparr>) x"
    using response_code_unparsable by (auto simp: spec_included_def no_filters_def)
  moreover have "\<forall>x n. obj_get x ''response_code'' = JNum n \<or> obj_get x ''response_code'' = JStr (int_to_string n) \<longrightarrow>
      response_code x = Some n"
    using response_code_reads_numbers by blast
  ultimately show ?thesis by (simp add: filter_errors_only response_code_falsy)
qed

theorem errors_only_filter_witness:
  "filter_messages (no_filters\<lparr>showOnlyErrors := True\<rparr>)
     [[(''response_code'', JStr ''Ringing'')], [(''method'', JStr ''INVITE'')],
      [(''response_code'', JNum 486)], [(''response_code'', JNum 200)]] =
     Inr [[(''response_code'', JStr ''Ringing'')], [(''response_code'', JNum 486)]] \<and>
   \<not> spec_included (no_filters\<lparr>showOnlyErrors := True\<rparr>) [(''response_code'', JStr ''Ringing'')]"
proof -
  note e = errors_only_filter [of "[[(''response_code'', JStr ''Ringing'')], [(''method'', JStr ''INVITE'')],
      [(''response_code'', JNum 486)], [(''response_code'', JNum 200)]]"]
  have r: "response_code [(''response_code'', JStr ''Ringing'')] = None \<and>
           \<not> spec_included (no_filters\<lparr>showOnlyErrors := True\<rparr>) [(''response_code'', JStr ''Ringing'')]"
    using e by (simp add: obj_get_def is_js_space_def is_digit_def)
  have a: "response_code [(''method'', JStr ''INVITE'')] = Some 0"
    using e by (simp add: obj_get_def)
  have b: "response_code [(''response_code'', JNum 486)] = Some 486"
    using e by (simp add: obj_get_def)
  have o: "response_code [(''response_code'', JNum 200)] = Some 200"
    using e by (simp add: obj_get_def)
  show ?thesis using e r a b o by simp
qed

end
