(* ===== verification/Filter_Panel.thy ===== *)
theory Filter_Panel
  imports Flow_Filter
begin

text \<open>
  Filter Panel (\<open>FilterPanel.tsx\<close>): the controls that edit the panel's
  \<open>FilterOptions\<close>. Every handler (lines 116--171) builds a new options object from the
  current one and passes it to \<open>onFiltersChange\<close>; here each user action is a
  constructor of \<open>filter_action\<close> and the handlers are one update function.
  \<open>hasActiveFilters\<close> (lines 173--180) and what the panel shows (lines 106--114,
  182--273) are modelled as values.
\<close>

subsection \<open>Actions and handlers\<close>

datatype filter_action =
    SearchChange string
  | SourceChange "jsval option"
  | DestinationChange "jsval option"
  | CallidChange string
  | MethodToggle jsval bool
  | ErrorsOnlyToggle bool
  | ClearFilters

definition select_value :: "jsval option \<Rightarrow> jsval" where
  "select_value v = js_or (case v of None \<Rightarrow> JUndefined | Some x \<Rightarrow> x) (JStr [])"

definition cleared_filters :: filter_options where
  "cleared_filters = \<lparr>searchTerm = [], methodFilter = [], sourceFilter = JStr [], destinationFilter = JStr [],
                       callidFilter = [], showOnlyErrors = False\<rparr>"

fun filter_panel_update :: "filter_options \<Rightarrow> filter_action \<Rightarrow> filter_options" where
  "filter_panel_update filters (SearchChange v) = filters\<lparr>searchTerm := v\<rparr>"
| "filter_panel_update filters (SourceChange v) = filters\<lparr>sourceFilter := select_value v\<rparr>"
| "filter_panel_update filters (DestinationChange v) = filters\<lparr>destinationFilter := select_value v\<rparr>"
| "filter_panel_update filters (CallidChange v) = filters\<lparr>callidFilter := v\<rparr>"
| "filter_panel_update filters (MethodToggle method checked) =
     filters\<lparr>methodFilter :=
       (if checked then methodFilter filters @ [method] else filter (\<lambda>m. m \<noteq> method) (methodFilter filters))\<rparr>"
| "filter_panel_update filters (ErrorsOnlyToggle b) = filters\<lparr>showOnlyErrors := b\<rparr>"
| "filter_panel_update filters ClearFilters = cleared_filters"

text \<open>A click on a method checkbox toggles it: \<open>checked\<close> is the negation of its current value.\<close>

definition method_checkbox_click :: "filter_options \<Rightarrow> jsval \<Rightarrow> filter_action" where
  "method_checkbox_click filters method = MethodToggle method (method \<notin> set (methodFilter filters))"

fun filter_panel_run :: "filter_options \<Rightarrow> filter_action list \<Rightarrow> filter_options" where
  "filter_panel_run filters [] = filters"
| "filter_panel_run filters (a # as) = filter_panel_run (filter_panel_update filters a) as"

text \<open>
  The option states the panel can reach from its initial options by user input: typed
  text, selections, the errors checkbox and "Clear All Filters" in any order, and method
  checkboxes only by clicking them.
\<close>

definition typed_action :: "filter_action \<Rightarrow> bool" where
  "typed_action a = (case a of MethodToggle _ _ \<Rightarrow> False | _ \<Rightarrow> True)"

inductive filter_reachable :: "filter_options \<Rightarrow> bool" where
  initial: "filter_reachable no_filters"
| typed: "filter_reachable filters \<Longrightarrow> typed_action a \<Longrightarrow> filter_reachable (filter_panel_update filters a)"
| click: "filter_reachable filters \<Longrightarrow>
            filter_reachable (filter_panel_update filters (method_checkbox_click filters method))"

subsection \<open>Active filters\<close>

definition has_active_filters :: "filter_options \<Rightarrow> jsval" where
  "has_active_filters filters =
     js_or (JStr (searchTerm filters))
      (js_or (JBool (methodFilter filters \<noteq> []))
        (js_or (sourceFilter filters)
          (js_or (destinationFilter filters)
            (js_or (JStr (callidFilter filters)) (JBool (showOnlyErrors filters))))))"

subsection \<open>What the panel shows\<close>

record expanded_view =
  search_value :: string
  source_options :: "(jsval \<times> jsval) list"
  destination_options :: "(jsval \<times> jsval) list"
  callid_value :: string
  method_checkboxes :: "(jsval \<times> bool) list"
  errors_checked :: bool
  clear_disabled :: bool
  status_text :: string

datatype filter_panel_view = Collapsed string | Expanded expanded_view

definition select_options :: "string \<Rightarrow> jsval list \<Rightarrow> (jsval \<times> jsval) list" where
  "select_options all_label available = (JStr all_label, JStr []) # map (\<lambda>v. (v, v)) available"

text \<open>
  The props of \<open>FilterPanel\<close> (lines 29--37). The two callbacks are not values of the
  model: \<open>onFiltersChange\<close> receives \<open>filter_panel_update\<close> of the current options,
  \<open>onToggleVisibility\<close> is the toggle event of the parent.
\<close>

record filter_panel_props =
  filters_prop :: filter_options
  availableMethods :: "jsval list"
  availableSources :: "jsval list"
  availableDestinations :: "jsval list"
  isVisible :: bool

definition filter_panel_view :: "filter_panel_props \<Rightarrow> filter_panel_view" where
  "filter_panel_view props =
     (let filters = filters_prop props; active = js_truthy (has_active_filters filters) in
      if \<not> isVisible props then Collapsed (''Filters '' @ (if active then ''(Active)'' else []))
      else Expanded
        \<lparr>search_value = searchTerm filters,
         source_options = select_options ''All sources'' (availableSources props),
         destination_options = select_options ''All destinations'' (availableDestinations props),
         callid_value = callidFilter filters,
         method_checkboxes = map (\<lambda>m. (m, m \<in> set (methodFilter filters))) (availableMethods props),
         errors_checked = showOnlyErrors filters,
         clear_disabled = (\<not> active),
         status_text = (if active then ''Filters Active'' else ''No Filters Applied'')\<rparr>)"

subsection \<open>Lemmas\<close>

lemma cleared_filters_no_filters: "cleared_filters = no_filters"
  by (simp add: cleared_filters_def no_filters_def)

lemma js_truthy_js_or [simp]: "js_truthy (js_or a b) \<longleftrightarrow> js_truthy a \<or> js_truthy b"
  by (simp add: js_or_def)

lemma has_active_filters_iff:
  "js_truthy (has_active_filters filters) \<longleftrightarrow>
     searchTerm filters \<noteq> [] \<or> methodFilter filters \<noteq> [] \<or> js_truthy (sourceFilter filters) \<or>
     js_truthy (destinationFilter filters) \<or> callidFilter filters \<noteq> [] \<or> showOnlyErrors filters"
  by (simp add: has_active_filters_def)

lemma passes_inactive:
  "\<not> js_truthy (has_active_filters filters) \<Longrightarrow> passes_filters filters item = Inr True"
  by (simp add: has_active_filters_iff passes_filters_def passes_error_filter_def)

lemma filter_inactive:
  "\<not> js_truthy (has_active_filters filters) \<Longrightarrow> filter_messages filters items = Inr items"
  by (induction items) (simp_all add: passes_inactive)

definition filters_wf :: "filter_options \<Rightarrow> bool" where
  "filters_wf filters \<longleftrightarrow>
     (sourceFilter filters = JStr [] \<or> js_truthy (sourceFilter filters)) \<and>
     (destinationFilter filters = JStr [] \<or> js_truthy (destinationFilter filters)) \<and>
     distinct (methodFilter filters)"

lemma select_value_wf: "select_value v = JStr [] \<or> js_truthy (select_value v)"
  by (simp add: select_value_def js_or_def)

lemma filters_wf_update:
  assumes "filters_wf filters" and "typed_action a"
  shows "filters_wf (filter_panel_update filters a)"
  using assms by (cases a) (simp_all add: filters_wf_def typed_action_def select_value_wf cleared_filters_def)

lemma filters_wf_click:
  "filters_wf filters \<Longrightarrow> filters_wf (filter_panel_update filters (method_checkbox_click filters method))"
  by (auto simp: filters_wf_def method_checkbox_click_def distinct_filter)

lemma filter_reachable_wf: "filter_reachable filters \<Longrightarrow> filters_wf filters"
proof (induction rule: filter_reachable.induct)
  case initial
  then show ?case by (simp add: filters_wf_def no_filters_def)
next
  case (typed filters a)
  from typed.IH typed.hyps(2) show ?case by (rule filters_wf_update)
next
  case (click filters m)
  from click.IH show ?case by (rule filters_wf_click)
qed

lemma filter_options_eq_no_filters:
  "filters = no_filters \<longleftrightarrow>
     searchTerm filters = [] \<and> methodFilter filters = [] \<and> sourceFilter filters = JStr [] \<and>
     destinationFilter filters = JStr [] \<and> callidFilter filters = [] \<and> \<not> showOnlyErrors filters"
  by (cases filters) (auto simp: no_filters_def)

lemmas panel_eval = filter_panel_update.simps method_checkbox_click_def select_value_def typed_action_def
  cleared_filters_def has_active_filters_def

subsection \<open>Properties\<close>

text \<open>
  "Clear All Filters" restores the initial options, after which no filter is
  active and the evaluator returns every message.
\<close>

lemma clear_filters_resets:
  "filter_panel_update filters ClearFilters = no_filters \<and>
   \<not> js_truthy (has_active_filters (filter_panel_update filters ClearFilters)) \<and>
   filter_messages (filter_panel_update filters ClearFilters) items = Inr items"
  by (simp add: cleared_filters_no_filters has_active_filters_iff no_filters_def filter_inactive)

text \<open>
  C30. Invariant of the panel's options under user input: a selected source or
  destination is either the "All" value \<open>''\<close> or truthy, and the method list has no
  duplicates.
\<close>

theorem filter_reachable_invariant:
  assumes "filter_reachable filters"
  shows "(sourceFilter filters = JStr [] \<or> js_truthy (sourceFilter filters)) \<and>
         (destinationFilter filters = JStr [] \<or> js_truthy (destinationFilter filters)) \<and>
         distinct (methodFilter filters)"
  using filter_reachable_wf [OF assms] by (simp add: filters_wf_def)

theorem filter_reachable_invariant_witness:
  "js_truthy (sourceFilter (filter_panel_update (filter_panel_update no_filters (SourceChange (Some (JStr ''A''))))
     (method_checkbox_click (filter_panel_update no_filters (SourceChange (Some (JStr ''A'')))) (JStr ''BYE'')))) \<and>
   distinct (methodFilter (filter_panel_update (filter_panel_update no_filters (SourceChange (Some (JStr ''A''))))
     (method_checkbox_click (filter_panel_update no_filters (SourceChange (Some (JStr ''A'')))) (JStr ''BYE''))))"
proof -
  let ?f1 = "filter_panel_update no_filters (SourceChange (Some (JStr ''A'')))"
  have r1: "filter_reachable ?f1"
    by (rule filter_reachable.typed [OF filter_reachable.initial]) (simp add: typed_action_def)
  have r2: "filter_reachable (filter_panel_update ?f1 (method_checkbox_click ?f1 (JStr ''BYE'')))"
    by (rule filter_reachable.click [OF r1])
  show ?thesis
    using filter_reachable_invariant [OF r2]
    by (simp add: panel_eval no_filters_def)
qed

text \<open>
  C31. The "active" indicator of the spec: on every options state the panel can reach,
  \<open>hasActiveFilters\<close> is truthy exactly when the options differ from the initial ones,
  and when it is falsy the evaluator returns every message.
\<close>

theorem active_indicator:
  assumes "filter_reachable filters"
  shows "(js_truthy (has_active_filters filters) \<longleftrightarrow> filters \<noteq> no_filters) \<and>
         (\<not> js_truthy (has_active_filters filters) \<longrightarrow> filter_messages filters items = Inr items)"
proof -
  have "filters_wf filters" using assms by (rule filter_reachable_wf)
  then have "js_truthy (has_active_filters filters) \<longleftrightarrow> filters \<noteq> no_filters"
    by (auto simp: has_active_filters_iff filter_options_eq_no_filters filters_wf_def)
  moreover have "\<not> js_truthy (has_active_filters filters) \<longrightarrow> filter_messages filters items = Inr items"
    using filter_inactive by blast
  ultimately show ?thesis by blast
qed

theorem active_indicator_witness:
  "js_truthy (has_active_filters (filter_panel_update no_filters (ErrorsOnlyToggle True))) \<and>
   filter_panel_update no_filters (ErrorsOnlyToggle True) \<noteq> no_filters"
proof -
  have r: "filter_reachable (filter_panel_update no_filters (ErrorsOnlyToggle True))"
    by (rule filter_reachable.typed [OF filter_reachable.initial]) (simp add: typed_action_def)
  have "js_truthy (has_active_filters (filter_panel_update no_filters (ErrorsOnlyToggle True)))"
    by (simp add: panel_eval no_filters_def)
  with active_indicator [OF r] show ?thesis by blast
qed

text \<open>
  C32. Clicking a method checkbox twice restores the options; the first click appends
  the method, the second removes it.
\<close>

theorem method_checkbox_round_trip:
  assumes "method \<notin> set (methodFilter filters)"
  shows "filter_panel_update filters (method_checkbox_click filters method) =
           filters\<lparr>methodFilter := methodFilter filters @ [method]\<rparr> \<and>
         filter_panel_update (filter_panel_update filters (method_checkbox_click filters method))
           (method_checkbox_click (filter_panel_update filters (method_checkbox_click filters method)) method) =
         filters"
proof -
  have "filter (\<lambda>m. m \<noteq> method) (methodFilter filters) = methodFilter filters"
    using assms by (auto simp: filter_id_conv)
  with assms show ?thesis by (simp add: method_checkbox_click_def)
qed

theorem method_checkbox_round_trip_witness:
  "filter_panel_update (filter_panel_update no_filters (method_checkbox_click no_filters (JStr ''ACK'')))
     (method_checkbox_click (filter_panel_update no_filters (method_checkbox_click no_filters (JStr ''ACK''))) (JStr ''ACK'')) =
   no_filters"
proof -
  have h: "JStr ''ACK'' \<notin> set (methodFilter no_filters)" by (simp add: no_filters_def)
  show ?thesis using method_checkbox_round_trip [OF h] by blast
qed

end
