(* ===== verification/Row_Normalizer.thy ===== *)
theory Row_Normalizer
  imports JS_Values
begin

text \<open>
  Row Normalizer: the first half of the \<open>processedData\<close> memo of
  \<open>FlowVisualization.tsx\<close> (lines 126--142). The columnar data frame
  \<open>data.series[0]\<close> is turned into a sparse array of row objects: every field
  writes its value at row \<open>i\<close> into object \<open>i\<close>, which is created on first
  write as \<open>{messageID: i}\<close>. Later fields overwrite earlier ones of the same name.
\<close>

subsection \<open>The input: Grafana's data frame\<close>

record field =
  name :: "string option"
  "values" :: "jsval list option"

type_synonym frame = "field list"

record panel_data =
  series :: "frame list option"

subsection \<open>Operations\<close>

definition field_key :: "field \<Rightarrow> nat \<Rightarrow> string" where
  "field_key fld index =
     (case name fld of
        Some n \<Rightarrow> if n \<noteq> [] then n else ''field_'' @ int_to_string (int index)
      | None \<Rightarrow> ''field_'' @ int_to_string (int index))"

definition new_row :: "nat \<Rightarrow> jsobj" where
  "new_row rowIndex = [(''messageID'', JNum (int rowIndex))]"

definition row_or_new :: "jsobj option list \<Rightarrow> nat \<Rightarrow> jsobj" where
  "row_or_new messages rowIndex =
     (case arr_get messages rowIndex of None \<Rightarrow> new_row rowIndex | Some msg \<Rightarrow> msg)"

definition put_cell :: "string \<Rightarrow> jsobj option list \<Rightarrow> nat \<Rightarrow> jsval \<Rightarrow> jsobj option list" where
  "put_cell key messages rowIndex value =
     arr_set messages rowIndex (obj_set key value (row_or_new messages rowIndex))"

fun fill_values :: "string \<Rightarrow> nat \<Rightarrow> jsval list \<Rightarrow> jsobj option list \<Rightarrow> jsobj option list" where
  "fill_values key rowIndex [] messages = messages"
| "fill_values key rowIndex (value # vs) messages =
     fill_values key (Suc rowIndex) vs (put_cell key messages rowIndex value)"

fun fill_fields :: "nat \<Rightarrow> field list \<Rightarrow> jsobj option list \<Rightarrow> jsobj option list" where
  "fill_fields index [] messages = messages"
| "fill_fields index (fld # fs) messages =
     fill_fields (Suc index) fs
       (case values fld of
          Some vs \<Rightarrow> if vs \<noteq> [] then fill_values (field_key fld index) 0 vs messages else messages
        | None \<Rightarrow> messages)"

definition rows_of_frame :: "frame \<Rightarrow> jsobj option list" where
  "rows_of_frame flds = fill_fields 0 flds []"

subsection \<open>Reference description of the rows\<close>

text \<open>
  The number of rows is the longest value array; the value a row object holds under a
  key is the one written by the last field with that key and a value at that row.
\<close>

definition field_length :: "field \<Rightarrow> nat" where
  "field_length fld = (case values fld of None \<Rightarrow> 0 | Some vs \<Rightarrow> length vs)"

definition row_count :: "frame \<Rightarrow> nat" where
  "row_count flds = foldr (\<lambda>fld n. max (field_length fld) n) flds 0"

fun cell_of :: "nat \<Rightarrow> field list \<Rightarrow> string \<Rightarrow> nat \<Rightarrow> jsval option" where
  "cell_of index [] k r = None"
| "cell_of index (fld # fs) k r =
     (case cell_of (Suc index) fs k r of
        Some v \<Rightarrow> Some v
      | None \<Rightarrow>
          (case values fld of
             Some vs \<Rightarrow> if field_key fld index = k \<and> r < length vs then Some (vs ! r) else None
           | None \<Rightarrow> None))"

subsection \<open>Shape: no holes, one row per index\<close>

lemma put_cell_shape:
  "None \<notin> set msgs \<Longrightarrow> i \<le> length msgs \<Longrightarrow>
   None \<notin> set (put_cell k msgs i v) \<and> length (put_cell k msgs i v) = max (length msgs) (Suc i)"
  by (simp add: put_cell_def None_notin_arr_set length_arr_set)

lemma fill_values_shape:
  "None \<notin> set msgs \<Longrightarrow> i \<le> length msgs \<Longrightarrow>
   None \<notin> set (fill_values k i vs msgs) \<and>
   length (fill_values k i vs msgs) = max (length msgs) (i + length vs)"
proof (induction vs arbitrary: i msgs)
  case Nil
  then show ?case by simp
next
  case (Cons v vs)
  let ?m = "put_cell k msgs i v"
  from Cons.prems have m: "None \<notin> set ?m" "length ?m = max (length msgs) (Suc i)"
    using put_cell_shape by blast+
  then have "Suc i \<le> length ?m" by simp
  with m Cons.IH [of ?m "Suc i"] show ?case by auto
qed

lemma fill_fields_shape:
  "None \<notin> set msgs \<Longrightarrow>
   None \<notin> set (fill_fields idx fs msgs) \<and>
   length (fill_fields idx fs msgs) = max (length msgs) (row_count fs)"
proof (induction fs arbitrary: idx msgs)
  case Nil
  then show ?case by (simp add: row_count_def)
next
  case (Cons fld fs)
  let ?m = "case values fld of
              Some vs \<Rightarrow> if vs \<noteq> [] then fill_values (field_key fld idx) 0 vs msgs else msgs
            | None \<Rightarrow> msgs"
  have m: "None \<notin> set ?m \<and> length ?m = max (length msgs) (field_length fld)"
    using Cons.prems fill_values_shape [of msgs 0]
    by (auto simp: field_length_def split: option.splits)
  with Cons.IH [of ?m "Suc idx"] show ?case
    by (auto simp: row_count_def)
qed

subsection \<open>Content: last writer wins\<close>

lemma arr_get_fill_values:
  "arr_get (fill_values k i vs msgs) r =
     (if i \<le> r \<and> r < i + length vs then Some (obj_set k (vs ! (r - i)) (row_or_new msgs r))
      else arr_get msgs r)"
proof (induction vs arbitrary: i msgs)
  case Nil
  then show ?case by auto
next
  case (Cons v vs)
  show ?case
    by (auto simp: Cons.IH put_cell_def arr_get_arr_set row_or_new_def nth_Cons' not_less_eq_eq
        split: option.splits)
qed


lemma row_or_new_fill_values:
  "row_or_new (fill_values k 0 vs msgs) r =
     (if r < length vs then obj_set k (vs ! r) (row_or_new msgs r) else row_or_new msgs r)"
  by (simp add: row_or_new_def [of "fill_values k 0 vs msgs"] arr_get_fill_values)
     (simp add: row_or_new_def)

lemma obj_get_fill_fields:
  "obj_get (row_or_new (fill_fields idx fs msgs) r) k =
     (case cell_of idx fs k r of Some v \<Rightarrow> v | None \<Rightarrow> obj_get (row_or_new msgs r) k)"
proof (induction fs arbitrary: idx msgs)
  case Nil
  then show ?case by simp
next
  case (Cons fld fs)
  show ?case
    by (auto simp: Cons.IH row_or_new_fill_values split: option.splits)
qed

lemma obj_get_new_row:
  "obj_get (new_row r) k = (if k = ''messageID'' then JNum (int r) else JUndefined)"
  by (simp add: new_row_def obj_get_def)

lemma row_or_new_Nil [simp]: "row_or_new [] r = new_row r"
  by (simp add: row_or_new_def arr_get_def)

theorem rows_of_frame_shape:
  "None \<notin> set (rows_of_frame fs) \<and> length (rows_of_frame fs) = row_count fs"
  using fill_fields_shape [of "[]" 0 fs] by (simp add: rows_of_frame_def)

theorem rows_of_frame_cell:
  assumes "r < row_count fs"
  shows "rows_of_frame fs ! r =
    Some (row_or_new (rows_of_frame fs) r) \<and>
    obj_get (row_or_new (rows_of_frame fs) r) k =
      (case cell_of 0 fs k r of
         Some v \<Rightarrow> v
       | None \<Rightarrow> if k = ''messageID'' then JNum (int r) else JUndefined)"
proof -
  have "None \<notin> set (rows_of_frame fs)" "length (rows_of_frame fs) = row_count fs"
    using rows_of_frame_shape by auto
  with assms have "rows_of_frame fs ! r = Some (row_or_new (rows_of_frame fs) r)"
    by (cases "rows_of_frame fs ! r") (metis nth_mem, simp add: row_or_new_def arr_get_def)
  then show ?thesis
    by (simp add: rows_of_frame_def obj_get_fill_fields obj_get_new_row split: option.split)
qed

lemmas frame_eval = rows_of_frame_def field_key_def put_cell_def row_or_new_def new_row_def
  arr_get_def arr_set_def row_count_def field_length_def

subsection \<open>Properties\<close>

text \<open>
  C16. The normalizer yields one row object per index up to the longest value array,
  with no holes; the object of row \<open>r\<close> holds, under every key, the value the last field
  of that name has at \<open>r\<close>, and \<open>messageID = r\<close> unless a field is itself called
  \<open>messageID\<close>.
\<close>

theorem normalizer_rows:
  assumes "r < row_count fs"
  shows "length (rows_of_frame fs) = row_count fs \<and>
    (\<exists>msg. rows_of_frame fs ! r = Some msg \<and>
       (\<forall>k. obj_get msg k =
          (case cell_of 0 fs k r of
             Some v \<Rightarrow> v
           | None \<Rightarrow> if k = ''messageID'' then JNum (int r) else JUndefined)))"
  using rows_of_frame_shape rows_of_frame_cell [OF assms] by blast

theorem normalizer_rows_witness:
  "length (rows_of_frame [\<lparr>name = Some ''source'', values = Some [JStr ''A'', JStr ''B'']\<rparr>,
                          \<lparr>name = None, values = Some [JNum 7]\<rparr>]) = 2 \<and>
   (\<exists>msg. rows_of_frame [\<lparr>name = Some ''source'', values = Some [JStr ''A'', JStr ''B'']\<rparr>,
                          \<lparr>name = None, values = Some [JNum 7]\<rparr>] ! 0 = Some msg \<and>
      obj_get msg ''source'' = JStr ''A'' \<and> obj_get msg ''field_1'' = JNum 7 \<and>
      obj_get msg ''messageID'' = JNum 0)"
proof -
  let ?fs = "[\<lparr>name = Some ''source'', values = Some [JStr ''A'', JStr ''B'']\<rparr>,
              \<lparr>name = None, values = Some [JNum 7]\<rparr>]"
  have r: "0 < row_count ?fs" by (simp add: frame_eval)
  have n: "row_count ?fs = 2" by (simp add: frame_eval)
  from normalizer_rows [OF r] n obtain msg where
    "length (rows_of_frame ?fs) = 2" "rows_of_frame ?fs ! 0 = Some msg"
    "\<forall>k. obj_get msg k = (case cell_of 0 ?fs k 0 of Some v \<Rightarrow> v
                          | None \<Rightarrow> if k = ''messageID'' then JNum (int 0) else JUndefined)"
    by auto
  then show ?thesis by (auto simp: frame_eval js_eval)
qed

end
