(* ===== verification/Host_Positions.thy ===== *)
theory Host_Positions
  imports Row_Normalizer
begin

text \<open>
  Endpoint Position Resolver (\<open>FlowVisualization.tsx\<close>, lines 144--155): every
  truthy \<open>source\<close> and \<open>destination\<close> of the row objects goes into a
  \<open>Set\<close> (insertion order, holes skipped), the set is sorted with the default sort,
  and \<open>hostPositions\<close> maps each endpoint to its index in the sorted list.
\<close>

subsection \<open>Operations\<close>

definition add_if_truthy :: "jsval \<Rightarrow> jsval list \<Rightarrow> jsval list" where
  "add_if_truthy v s = (if js_truthy v then set_add v s else s)"

fun collect_hosts :: "jsval list \<Rightarrow> jsobj list \<Rightarrow> jsval list" where
  "collect_hosts s [] = s"
| "collect_hosts s (msg # ms) =
     collect_hosts (add_if_truthy (obj_get msg ''destination'') (add_if_truthy (obj_get msg ''source'') s)) ms"

definition unique_hosts :: "jsobj option list \<Rightarrow> jsval list" where
  "unique_hosts messages = collect_hosts [] (present messages)"

definition sorted_hosts :: "jsobj option list \<Rightarrow> jsval list" where
  "sorted_hosts messages = js_sort (unique_hosts messages)"

fun assign_positions :: "nat \<Rightarrow> jsval list \<Rightarrow> (jsval \<rightharpoonup> nat) \<Rightarrow> (jsval \<rightharpoonup> nat)" where
  "assign_positions index [] m = m"
| "assign_positions index (host # hs) m = assign_positions (Suc index) hs (m(host \<mapsto> index))"

definition host_positions :: "jsobj option list \<Rightarrow> (jsval \<rightharpoonup> nat)" where
  "host_positions messages = assign_positions 0 (sorted_hosts messages) Map.empty"

subsection \<open>The endpoint set\<close>

definition endpoints :: "jsobj list \<Rightarrow> jsval set" where
  "endpoints ms = {v. \<exists>msg \<in> set ms. (v = obj_get msg ''source'' \<or> v = obj_get msg ''destination'') \<and> js_truthy v}"

lemma set_add_if_truthy [simp]:
  "set (add_if_truthy v s) = (if js_truthy v then insert v (set s) else set s)"
  by (simp add: add_if_truthy_def)

lemma distinct_add_if_truthy [simp]: "distinct s \<Longrightarrow> distinct (add_if_truthy v s)"
  by (simp add: add_if_truthy_def)

lemma collect_hosts_set: "set (collect_hosts s ms) = set s \<union> endpoints ms"
  by (induction s ms rule: collect_hosts.induct) (auto simp: endpoints_def)

lemma collect_hosts_distinct: "distinct s \<Longrightarrow> distinct (collect_hosts s ms)"
  by (induction s ms rule: collect_hosts.induct) auto

lemma set_sorted_hosts: "set (sorted_hosts messages) = endpoints (present messages)"
  by (simp add: sorted_hosts_def unique_hosts_def collect_hosts_set)

lemma distinct_sorted_hosts: "distinct (sorted_hosts messages)"
  by (simp add: sorted_hosts_def unique_hosts_def collect_hosts_distinct)

subsection \<open>Positions\<close>

lemma assign_positions_notin: "h \<notin> set hs \<Longrightarrow> assign_positions i hs m h = m h"
  by (induction i hs m rule: assign_positions.induct) auto

lemma assign_positions_nth:
  "distinct hs \<Longrightarrow> j < length hs \<Longrightarrow> assign_positions i hs m (hs ! j) = Some (i + j)"
proof (induction i hs m arbitrary: j rule: assign_positions.induct)
  case (1 index m)
  then show ?case by simp
next
  case (2 index host hs m)
  show ?case
  proof (cases j)
    case 0
    with "2.prems" show ?thesis by (simp add: assign_positions_notin)
  next
    case (Suc j')
    with "2.prems" "2.IH" [of j'] show ?thesis by (simp add: fun_upd_def)
  qed
qed

lemma assign_positions_iff:
  assumes "distinct hs"
  shows "assign_positions i hs Map.empty h = Some p \<longleftrightarrow> i \<le> p \<and> p < i + length hs \<and> hs ! (p - i) = h"
proof (cases "h \<in> set hs")
  case True
  then obtain j where j: "j < length hs" "hs ! j = h" by (auto simp: in_set_conv_nth)
  with assms have "assign_positions i hs Map.empty h = Some (i + j)"
    using assign_positions_nth by blast
  moreover have "\<And>p. i \<le> p \<Longrightarrow> p < i + length hs \<Longrightarrow> hs ! (p - i) = h \<Longrightarrow> p = i + j"
    using assms j nth_eq_iff_index_eq by fastforce
  ultimately show ?thesis using j by auto
next
  case False
  then show ?thesis by (auto simp: assign_positions_notin)
qed


subsection \<open>Properties of the position map\<close>

lemma host_positions_iff:
  "host_positions messages h = Some p \<longleftrightarrow>
     p < length (sorted_hosts messages) \<and> sorted_hosts messages ! p = h"
  using assign_positions_iff [OF distinct_sorted_hosts, of 0 messages h p]
  by (simp add: host_positions_def)

lemma dom_host_positions: "dom (host_positions messages) = endpoints (present messages)"
  by (auto simp: host_positions_iff in_set_conv_nth set_sorted_hosts [symmetric])

lemma sorted_hosts_canonical:
  assumes "set (present a) = set (present b)" and "inj_on js_to_string (set (unique_hosts a))"
  shows "sorted_hosts a = sorted_hosts b"
proof -
  have sets: "set (sorted_hosts a) = set (sorted_hosts b)"
    using assms(1) by (simp add: set_sorted_hosts endpoints_def)
  have inj: "inj_on js_to_string (set (sorted_hosts a) \<union> set (sorted_hosts b))"
    using assms(2) sets by (simp add: sorted_hosts_def)
  have "map js_to_string (sorted_hosts a) = map js_to_string (sorted_hosts b)"
  proof (rule sorted_distinct_same_set)
    show "sorted (map js_to_string (sorted_hosts a))" "sorted (map js_to_string (sorted_hosts b))"
      by (simp_all add: sorted_hosts_def sorted_js_sort)
    show "distinct (map js_to_string (sorted_hosts a))" "distinct (map js_to_string (sorted_hosts b))"
      using inj distinct_sorted_hosts by (auto simp: distinct_map intro: inj_on_subset)
    show "set (map js_to_string (sorted_hosts a)) = set (map js_to_string (sorted_hosts b))"
      using sets by simp
  qed
  with inj show ?thesis by (simp add: inj_on_map_eq_map)
qed

lemma host_positions_mono:
  assumes "host_positions messages h1 = Some p1" and "host_positions messages h2 = Some p2"
    and "js_to_string h1 < js_to_string h2"
  shows "p1 < p2"
proof (rule ccontr)
  assume "\<not> p1 < p2"
  have "sorted (map js_to_string (sorted_hosts messages))"
    by (simp add: sorted_hosts_def sorted_js_sort)
  moreover from assms(1,2) have "p2 < length (sorted_hosts messages)" "p1 < length (sorted_hosts messages)"
    by (auto simp: host_positions_iff)
  ultimately have "js_to_string (sorted_hosts messages ! p2) \<le> js_to_string (sorted_hosts messages ! p1)"
    using \<open>\<not> p1 < p2\<close> by (auto simp: sorted_iff_nth_mono)
  with assms show False by (auto simp: host_positions_iff)
qed

lemmas positions_eval = host_positions_def sorted_hosts_def unique_hosts_def add_if_truthy_def set_add_def

subsection \<open>Properties\<close>

text \<open>
  C14. The position map is the index map of the sorted, duplicate-free list of all truthy
  endpoints: a bijection from the endpoints seen as source or destination onto
  \<open>0 .. k-1\<close>, ordered by \<open>String(endpoint)\<close>.
\<close>

theorem host_positions_index_map:
  "sorted (map js_to_string (sorted_hosts messages)) \<and> distinct (sorted_hosts messages) \<and>
   set (sorted_hosts messages) = endpoints (present messages) \<and>
   host_positions messages = map_of (zip (sorted_hosts messages) [0..<length (sorted_hosts messages)])"
proof -
  let ?hs = "sorted_hosts messages"
  have "host_positions messages h = map_of (zip ?hs [0..<length ?hs]) h" for h
  proof (cases "h \<in> set ?hs")
    case True
    then obtain j where j: "j < length ?hs" "?hs ! j = h" by (auto simp: in_set_conv_nth)
    then have "host_positions messages h = Some j" by (simp add: host_positions_iff)
    moreover have "map_of (zip ?hs [0..<length ?hs]) h = Some j"
      using j map_of_zip_nth [of ?hs "[0..<length ?hs]" j] distinct_sorted_hosts by simp
    ultimately show ?thesis by simp
  next
    case False
    then have "host_positions messages h = None"
      by (cases "host_positions messages h") (auto simp: host_positions_iff)
    moreover have "map_of (zip ?hs [0..<length ?hs]) h = None"
      using False by simp
    ultimately show ?thesis by (simp only:)
  qed
  moreover have "sorted (map js_to_string ?hs)"
    by (simp add: sorted_hosts_def sorted_js_sort)
  ultimately show ?thesis
    using distinct_sorted_hosts set_sorted_hosts by (simp add: fun_eq_iff)
qed

text \<open>
  Order: of two endpoints with different string forms, the one whose string form is
  smaller gets the smaller position, and only that one; so the arrow of a message points
  from the lower to the higher position exactly as the endpoint names compare.
\<close>

lemma host_positions_order:
  assumes "host_positions messages h1 = Some p1" and "host_positions messages h2 = Some p2"
    and "js_to_string h1 \<noteq> js_to_string h2"
  shows "p1 < p2 \<longleftrightarrow> js_to_string h1 < js_to_string h2"
proof
  assume "js_to_string h1 < js_to_string h2"
  with assms(1,2) show "p1 < p2" by (rule host_positions_mono)
next
  assume "p1 < p2"
  show "js_to_string h1 < js_to_string h2"
  proof (rule ccontr)
    assume "\<not> js_to_string h1 < js_to_string h2"
    with assms(3) have "js_to_string h2 < js_to_string h1" by auto
    with assms(2,1) have "p2 < p1" by (rule host_positions_mono)
    with \<open>p1 < p2\<close> show False by simp
  qed
qed

theorem host_positions_order_witness:
  "host_positions [Some [(''source'', JStr ''B''), (''destination'', JStr ''A'')]] (JStr ''A'') = Some 0 \<and>
   host_positions [Some [(''source'', JStr ''B''), (''destination'', JStr ''A'')]] (JStr ''B'') = Some 1 \<and>
   (0::nat) < 1"
proof -
  have a: "host_positions [Some [(''source'', JStr ''B''), (''destination'', JStr ''A'')]] (JStr ''A'') = Some 0"
   and b: "host_positions [Some [(''source'', JStr ''B''), (''destination'', JStr ''A'')]] (JStr ''B'') = Some 1"
    by (simp_all add: positions_eval js_eval)
  have "js_to_string (JStr ''A'') \<noteq> js_to_string (JStr ''B'')" by simp
  with a b have "(0::nat) < 1 \<longleftrightarrow> js_to_string (JStr ''A'') < js_to_string (JStr ''B'')"
    by (rule host_positions_order)
  with a b show ?thesis by simp
qed

text \<open>
  C15. Determinism: when \<open>String(\<cdot>)\<close> tells the endpoints apart (for instance when
  all are strings), the positions depend only on the set of rows, not on their order.
\<close>

theorem host_positions_row_order_invariant:
  assumes "set (present a) = set (present b)" and "inj_on js_to_string (set (unique_hosts a))"
  shows "host_positions a = host_positions b"
  using sorted_hosts_canonical [OF assms] by (simp add: host_positions_def)

theorem host_positions_row_order_invariant_witness:
  "host_positions [Some [(''source'', JStr ''A''), (''destination'', JStr ''B'')], Some [(''source'', JStr ''C'')]] =
   host_positions [Some [(''source'', JStr ''C'')], Some [(''source'', JStr ''A''), (''destination'', JStr ''B'')]]"
proof (rule host_positions_row_order_invariant)
  show "set (present [Some [(''source'', JStr ''A''), (''destination'', JStr ''B'')], Some [(''source'', JStr ''C'')]]) =
        set (present [Some [(''source'', JStr ''C'')], Some [(''source'', JStr ''A''), (''destination'', JStr ''B'')]])"
    by auto
  show "inj_on js_to_string
          (set (unique_hosts [Some [(''source'', JStr ''A''), (''destination'', JStr ''B'')], Some [(''source'', JStr ''C'')]]))"
    by (simp add: positions_eval js_eval)
qed

text \<open>
  C29. Divergence from the spec's determinism requirement: any two different truthy
  endpoints whose \<open>String()\<close> forms agree (the number \<open>5\<close> and the string
  \<open>"5"\<close>, or \<open>true\<close> and \<open>"true"\<close>) are different \<open>Set\<close> members that sort as
  equal, so the stable sort keeps their insertion order and swapping the two rows that
  name them swaps their positions. The side condition of the row-order theorem is
  therefore needed.
\<close>

theorem host_positions_mixed_types_order_dependent:
  assumes "a \<noteq> b" and "js_truthy a" and "js_truthy b" and "js_to_string a = js_to_string b"
  shows "host_positions [Some [(''source'', a)], Some [(''source'', b)]] a = Some 0 \<and>
         host_positions [Some [(''source'', b)], Some [(''source'', a)]] a = Some 1"
  using assms by (simp add: positions_eval obj_get_def js_sort_def)

theorem host_positions_mixed_types_order_dependent_witness:
  "host_positions [Some [(''source'', JNum 5)], Some [(''source'', JStr ''5'')]] (JNum 5) = Some 0 \<and>
   host_positions [Some [(''source'', JStr ''5'')], Some [(''source'', JNum 5)]] (JNum 5) = Some 1"
  by (rule host_positions_mixed_types_order_dependent) (simp_all add: js_eval)

end
