(* ===== verification/Message_Enricher.thy ===== *)
theory Message_Enricher
  imports Host_Positions
begin

text \<open>
  Message Enricher (\<open>FlowVisualization.tsx\<close>, lines 157--165) and the whole
  \<open>processedData\<close> memo (lines 126--165): each row object gets
  \<open>sourcePosition\<close>, \<open>destinationPosition\<close> (\<open>hostPositions.get(..) || 0\<close>) and,
  unless it already has a truthy \<open>hash\<close>, the hash \<open>msg_<messageID>_<Date.now()>\<close>;
  then rows with at most one property are dropped. \<open>Date.now()\<close> is an explicit
  clock: the reading taken while array index \<open>i\<close> is processed.
\<close>

type_synonym clock = "nat \<Rightarrow> int"

subsection \<open>Operations\<close>

definition position_of :: "(jsval \<rightharpoonup> nat) \<Rightarrow> jsval \<Rightarrow> nat" where
  "position_of positions v = (case positions v of None \<Rightarrow> 0 | Some n \<Rightarrow> n)"

definition synth_hash :: "jsval \<Rightarrow> int \<Rightarrow> string" where
  "synth_hash messageID now = ''msg_'' @ js_to_string messageID @ ''_'' @ int_to_string now"

definition enrich_message :: "(jsval \<rightharpoonup> nat) \<Rightarrow> int \<Rightarrow> jsobj \<Rightarrow> jsobj" where
  "enrich_message positions now msg =
     (let msg1 = obj_set ''sourcePosition''
                   (JNum (int (position_of positions (obj_get msg ''source'')))) msg;
          msg2 = obj_set ''destinationPosition''
                   (JNum (int (position_of positions (obj_get msg1 ''destination'')))) msg1
      in obj_set ''hash''
           (js_or (obj_get msg2 ''hash'') (JStr (synth_hash (obj_get msg2 ''messageID'') now))) msg2)"

fun enrich_all :: "(jsval \<rightharpoonup> nat) \<Rightarrow> clock \<Rightarrow> nat \<Rightarrow> jsobj option list \<Rightarrow> jsobj option list" where
  "enrich_all positions clk i [] = []"
| "enrich_all positions clk i (None # ms) = None # enrich_all positions clk (Suc i) ms"
| "enrich_all positions clk i (Some msg # ms) =
     Some (enrich_message positions (clk i) msg) # enrich_all positions clk (Suc i) ms"

fun keep_rows :: "jsobj option list \<Rightarrow> jsobj list" where
  "keep_rows [] = []"
| "keep_rows (None # ms) = keep_rows ms"
| "keep_rows (Some msg # ms) = (if 1 < length (obj_keys msg) then msg # keep_rows ms else keep_rows ms)"

definition processed_data :: "clock \<Rightarrow> panel_data \<Rightarrow> jsobj list" where
  "processed_data clk data =
     (case series data of
        None \<Rightarrow> []
      | Some [] \<Rightarrow> []
      | Some (frame # _) \<Rightarrow>
          (let messages = rows_of_frame frame;
               positions = host_positions messages
           in keep_rows (enrich_all positions clk 0 messages)))"

subsection \<open>What enrichment writes and keeps\<close>

lemma obj_get_enrich_message:
  "obj_get (enrich_message positions now msg) k =
     (if k = ''hash'' then js_or (obj_get msg ''hash'') (JStr (synth_hash (obj_get msg ''messageID'') now))
      else if k = ''destinationPosition'' then JNum (int (position_of positions (obj_get msg ''destination'')))
      else if k = ''sourcePosition'' then JNum (int (position_of positions (obj_get msg ''source'')))
      else obj_get msg k)"
  by (simp add: enrich_message_def Let_def)

lemma enrich_message_keys: "3 \<le> length (obj_keys (enrich_message positions now msg))"
proof -
  let ?e = "enrich_message positions now msg"
  have "{''sourcePosition'', ''destinationPosition'', ''hash''} \<subseteq> set (obj_keys ?e)"
    by (simp add: enrich_message_def Let_def)
  then have "card {''sourcePosition'', ''destinationPosition'', ''hash''} \<le> card (set (obj_keys ?e))"
    by (rule card_mono [OF finite_set])
  also have "\<dots> \<le> length (obj_keys ?e)" by (rule card_length)
  finally show ?thesis by simp
qed

lemma keep_rows_enrich_all:
  "keep_rows (enrich_all positions clk i ms) = present (enrich_all positions clk i ms)"
proof (induction positions clk i ms rule: enrich_all.induct)
  case (3 positions clk i msg ms)
  have "1 < length (obj_keys (enrich_message positions (clk i) msg))"
    using enrich_message_keys [of positions "clk i" msg] by simp
  with "3.IH" show ?case by simp
qed simp_all

lemma length_enrich_all [simp]: "length (enrich_all positions clk i ms) = length ms"
  by (induction positions clk i ms rule: enrich_all.induct) auto

lemma enrich_all_nth:
  "r < length ms \<Longrightarrow>
   enrich_all positions clk i ms ! r = map_option (enrich_message positions (clk (i + r))) (ms ! r)"
proof (induction positions clk i ms arbitrary: r rule: enrich_all.induct)
  case (2 positions clk i ms)
  then show ?case by (cases r) auto
next
  case (3 positions clk i msg ms)
  then show ?case by (cases r) auto
qed simp

lemma None_notin_enrich_all: "None \<notin> set ms \<Longrightarrow> None \<notin> set (enrich_all positions clk i ms)"
  by (induction positions clk i ms rule: enrich_all.induct) auto

subsection \<open>The processed data\<close>

fun keys_from :: "nat \<Rightarrow> field list \<Rightarrow> string list" where
  "keys_from idx [] = []"
| "keys_from idx (fld # fs) = field_key fld idx # keys_from (Suc idx) fs"

lemma cell_of_notin_keys: "k \<notin> set (keys_from idx fs) \<Longrightarrow> cell_of idx fs k r = None"
  by (induction idx fs rule: keys_from.induct) (auto split: option.splits)

definition frame_rows :: "panel_data \<Rightarrow> nat" where
  "frame_rows data = (case series data of Some (frame # _) \<Rightarrow> row_count frame | _ \<Rightarrow> 0)"

lemma processed_data_frame:
  "series data = Some (frame # frames) \<Longrightarrow>
   processed_data clk data = present (enrich_all (host_positions (rows_of_frame frame)) clk 0 (rows_of_frame frame))"
  by (simp add: processed_data_def keep_rows_enrich_all Let_def)

lemma processed_data_length_frame:
  assumes "series data = Some (frame # frames)"
  shows "length (processed_data clk data) = row_count frame"
proof -
  have "None \<notin> set (enrich_all (host_positions (rows_of_frame frame)) clk 0 (rows_of_frame frame))"
    using rows_of_frame_shape None_notin_enrich_all by blast
  with assms show ?thesis
    by (simp add: processed_data_frame present_no_holes rows_of_frame_shape)
qed

lemma processed_data_nth:
  assumes "series data = Some (frame # frames)" and "r < row_count frame"
  shows "processed_data clk data ! r =
           enrich_message (host_positions (rows_of_frame frame)) (clk r) (row_or_new (rows_of_frame frame) r)"
proof -
  let ?rows = "rows_of_frame frame"
  have shape: "None \<notin> set ?rows" "length ?rows = row_count frame"
    using rows_of_frame_shape by auto
  then have "None \<notin> set (enrich_all (host_positions ?rows) clk 0 ?rows)"
    by (simp add: None_notin_enrich_all)
  then have "processed_data clk data ! r = the (enrich_all (host_positions ?rows) clk 0 ?rows ! r)"
    using assms shape by (simp add: processed_data_frame present_no_holes)
  also have "\<dots> = enrich_message (host_positions ?rows) (clk r) (row_or_new ?rows r)"
    using assms(2) shape rows_of_frame_cell [OF assms(2)] by (simp add: enrich_all_nth)
  finally show ?thesis .
qed

subsection \<open>Identifiers\<close>

lemma synth_hash_inj: "synth_hash (JNum i) t = synth_hash (JNum j) t' \<Longrightarrow> i = j"
proof -
  assume "synth_hash (JNum i) t = synth_hash (JNum j) t'"
  then have "int_to_string i @ CHR ''_'' # int_to_string t = int_to_string j @ CHR ''_'' # int_to_string t'"
    by (simp add: synth_hash_def)
  then have "int_to_string i = int_to_string j"
    by (rule append_separator_eq [OF underscore_notin_int_to_string underscore_notin_int_to_string])
  then show "i = j" by (simp add: int_to_string_inj)
qed

lemma processed_field:
  assumes "series data = Some (frame # frames)" and "r < row_count frame"
    and "k \<notin> set (keys_from 0 frame)"
  shows "obj_get (row_or_new (rows_of_frame frame) r) k = (if k = ''messageID'' then JNum (int r) else JUndefined)"
  using rows_of_frame_cell [OF assms(2), of k] cell_of_notin_keys [OF assms(3)] by simp

lemma processed_hash:
  assumes "series data = Some (frame # frames)" and "r < row_count frame"
    and "''hash'' \<notin> set (keys_from 0 frame)" and "''messageID'' \<notin> set (keys_from 0 frame)"
  shows "obj_get (processed_data clk data ! r) ''hash'' = JStr (synth_hash (JNum (int r)) (clk r))"
  using processed_field [OF assms(1,2,3)] processed_field [OF assms(1,2,4)]
  by (simp add: processed_data_nth [OF assms(1,2)] obj_get_enrich_message)

definition row_value :: "frame \<Rightarrow> nat \<Rightarrow> string \<Rightarrow> jsval" where
  "row_value frame r k =
     (case cell_of 0 frame k r of Some v \<Rightarrow> v | None \<Rightarrow> if k = ''messageID'' then JNum (int r) else JUndefined)"

lemma obj_get_row: "r < row_count frame \<Longrightarrow> obj_get (row_or_new (rows_of_frame frame) r) k = row_value frame r k"
  using rows_of_frame_cell [of r frame k] by (simp add: row_value_def)

lemmas processed_eval = processed_data_def frame_eval positions_eval enrich_message_def position_of_def
  synth_hash_def obj_keys_def

subsection \<open>Properties\<close>

text \<open>
  C17. Divergence from the spec: the closing \<open>filter\<close> counts the keys after
  \<open>sourcePosition\<close>, \<open>destinationPosition\<close> and \<open>hash\<close> were added, so it never
  drops a row: there is one message per row of the longest field, also for a row whose
  only column is an identifier (the spec drops such a record); no series gives none.
\<close>

theorem processed_keeps_every_row: "length (processed_data clk data) = frame_rows data"
proof (cases "series data")
  case (Some frames)
  then show ?thesis
  proof (cases frames)
    case (Cons frame rest)
    with Some show ?thesis by (simp add: frame_rows_def processed_data_length_frame)
  qed (simp add: processed_data_def frame_rows_def)
qed (simp add: processed_data_def frame_rows_def)

text \<open>
  C20. Rendering keys: when no column is named \<open>hash\<close> or \<open>messageID\<close>, the
  synthesized hashes \<open>msg_<row>_<time>\<close> of all messages are pairwise distinct,
  whatever the clock readings.
\<close>

theorem processed_hashes_distinct:
  assumes "series data = Some (frame # frames)"
    and "''hash'' \<notin> set (keys_from 0 frame)" and "''messageID'' \<notin> set (keys_from 0 frame)"
  shows "distinct (map (\<lambda>m. obj_get m ''hash'') (processed_data clk data))"
proof -
  have len: "length (processed_data clk data) = row_count frame"
    using assms(1) by (rule processed_data_length_frame)
  have "obj_get (processed_data clk data ! i) ''hash'' \<noteq> obj_get (processed_data clk data ! j) ''hash''"
    if "i < row_count frame" "j < row_count frame" "i \<noteq> j" for i j
    using that processed_hash [OF assms(1) _ assms(2,3)] synth_hash_inj by fastforce
  with len show ?thesis by (simp add: distinct_conv_nth)
qed

theorem processed_hashes_distinct_witness:
  "distinct (map (\<lambda>m. obj_get m ''hash'')
     (processed_data (\<lambda>_. 1700000000000)
        \<lparr>series = Some [[\<lparr>name = Some ''source'', values = Some [JStr ''A'', JStr ''B'']\<rparr>]]\<rparr>))"
  by (rule processed_hashes_distinct [where frame = "[\<lparr>name = Some ''source'', values = Some [JStr ''A'', JStr ''B'']\<rparr>]"
        and frames = "[]"]) (simp_all add: field_key_def)

text \<open>
  Divergence from the spec's uniqueness requirement: a truthy \<open>hash\<close> column is
  kept as the key, so two rows with the same hash value yield two messages with the same
  rendering key.
\<close>

lemma hash_column_collision:
  "map (\<lambda>m. obj_get m ''hash'')
     (processed_data clk \<lparr>series = Some [[\<lparr>name = Some ''hash'', values = Some [JStr ''x'', JStr ''x'']\<rparr>]]\<rparr>) =
   [JStr ''x'', JStr ''x'']"
  by (simp add: processed_eval js_eval)

text \<open>
  C18. What a processed message holds: row \<open>r\<close>'s values, plus the positions of its
  source and destination in the endpoint map (0 when unmapped) and its hash (the row's
  truthy \<open>hash\<close>, else \<open>msg_<messageID>_<clock>\<close>).
\<close>

theorem processed_message_content:
  assumes "series data = Some (frame # frames)" and "r < row_count frame"
  shows "obj_get (processed_data clk data ! r) k =
    (if k = ''hash''
     then js_or (row_value frame r ''hash'') (JStr (synth_hash (row_value frame r ''messageID'') (clk r)))
     else if k = ''destinationPosition''
     then JNum (int (position_of (host_positions (rows_of_frame frame)) (row_value frame r ''destination'')))
     else if k = ''sourcePosition''
     then JNum (int (position_of (host_positions (rows_of_frame frame)) (row_value frame r ''source'')))
     else row_value frame r k)"
  using assms by (simp add: processed_data_nth obj_get_enrich_message obj_get_row)

theorem processed_message_content_witness:
  "obj_get (processed_data (\<lambda>_. 5)
     \<lparr>series = Some [[\<lparr>name = Some ''source'', values = Some [JStr ''B'']\<rparr>,
                      \<lparr>name = Some ''destination'', values = Some [JStr ''A'']\<rparr>]]\<rparr> ! 0) ''sourcePosition'' = JNum 1"
proof -
  let ?fr = "[\<lparr>name = Some ''source'', values = Some [JStr ''B'']\<rparr>,
              \<lparr>name = Some ''destination'', values = Some [JStr ''A'']\<rparr>]"
  have r: "0 < row_count ?fr" by (simp add: frame_eval)
  show ?thesis
    using processed_message_content [of "\<lparr>series = Some [?fr]\<rparr>" ?fr "[]", OF _ r, of "\<lambda>_. 5" "''sourcePosition''"]
    by (simp add: processed_eval row_value_def js_eval)
qed

end
