(* ===== verification/Facets.thy ===== *)
theory Facets
  imports Message_Enricher
begin

text \<open>
  Facet Extractor: the \<open>extractedHosts\<close>/\<open>availableMethods\<close> memo of
  \<open>FlowVisualization.tsx\<close> (lines 167--182). One pass over the unfiltered
  \<open>processedData\<close> fills a host set (truthy sources, then destinations) and a method
  set; both are sorted with the default sort.
\<close>

subsection \<open>Operations\<close>

fun collect_facets :: "jsval list \<times> jsval list \<Rightarrow> jsobj list \<Rightarrow> jsval list \<times> jsval list" where
  "collect_facets (hostSet, methodSet) [] = (hostSet, methodSet)"
| "collect_facets (hostSet, methodSet) (item # items) =
     collect_facets
       (add_if_truthy (obj_get item ''destination'') (add_if_truthy (obj_get item ''source'') hostSet),
        add_if_truthy (obj_get item ''method'') methodSet) items"

definition extract_facets :: "jsobj list \<Rightarrow> jsval list \<times> jsval list" where
  "extract_facets processed =
     (let (hostSet, methodSet) = collect_facets ([], []) processed in (js_sort hostSet, js_sort methodSet))"

definition extracted_hosts :: "jsobj list \<Rightarrow> jsval list" where
  "extracted_hosts processed = fst (extract_facets processed)"

definition available_methods :: "jsobj list \<Rightarrow> jsval list" where
  "available_methods processed = snd (extract_facets processed)"

subsection \<open>Lemmas\<close>

lemma fst_collect_facets: "fst (collect_facets (hs, ms) items) = collect_hosts hs items"
  by (induction "(hs, ms)" items arbitrary: hs ms rule: collect_facets.induct) auto

definition methods_of :: "jsobj list \<Rightarrow> jsval set" where
  "methods_of items = {v. \<exists>m \<in> set items. v = obj_get m ''method'' \<and> js_truthy v}"

lemma snd_collect_facets: "set (snd (collect_facets (hs, ms) items)) = set ms \<union> methods_of items"
  by (induction "(hs, ms)" items arbitrary: hs ms rule: collect_facets.induct) (auto simp: methods_of_def)

lemma distinct_snd_collect_facets: "distinct ms \<Longrightarrow> distinct (snd (collect_facets (hs, ms) items))"
  by (induction "(hs, ms)" items arbitrary: hs ms rule: collect_facets.induct) auto

lemma extracted_hosts_eq: "extracted_hosts processed = js_sort (collect_hosts [] processed)"
  using fst_collect_facets [of "[]" "[]" processed]
  by (simp add: extracted_hosts_def extract_facets_def case_prod_beta)

lemma available_methods_set: "set (available_methods processed) = methods_of processed"
  using snd_collect_facets [of "[]" "[]" processed]
  by (simp add: available_methods_def extract_facets_def case_prod_beta)

lemma available_methods_sorted:
  "sorted (map js_to_string (available_methods processed)) \<and> distinct (available_methods processed)"
  using distinct_snd_collect_facets [of "[]" "[]" processed]
  by (simp add: available_methods_def extract_facets_def sorted_js_sort case_prod_beta)

text \<open>Enrichment touches neither \<open>source\<close> nor \<open>destination\<close>.\<close>

lemma collect_hosts_enrich_all:
  "collect_hosts s (present (enrich_all positions clk i ms)) = collect_hosts s (present ms)"
proof (induction positions clk i ms arbitrary: s rule: enrich_all.induct)
  case (3 positions clk i msg ms)
  then show ?case by (simp add: obj_get_enrich_message)
qed simp_all

lemma extracted_hosts_processed:
  "series data = Some (frame # frames) \<Longrightarrow>
   extracted_hosts (processed_data clk data) = sorted_hosts (rows_of_frame frame)"
  by (simp add: processed_data_frame extracted_hosts_eq collect_hosts_enrich_all sorted_hosts_def
      unique_hosts_def)

lemma present_enrich_all:
  "m \<in> set (present (enrich_all positions clk i ms)) \<Longrightarrow> \<exists>now msg. m = enrich_message positions now msg"
  by (induction positions clk i ms rule: enrich_all.induct) auto

lemma position_of_bound:
  "position_of (host_positions rows) v = 0 \<or> position_of (host_positions rows) v < length (sorted_hosts rows)"
proof (cases "host_positions rows v")
  case (Some p)
  then have "p < length (sorted_hosts rows)" by (simp add: host_positions_iff)
  with Some show ?thesis by (simp add: position_of_def)
qed (simp add: position_of_def)

lemma enrich_message_hash_truthy: "js_truthy (obj_get (enrich_message positions now msg) ''hash'')"
  by (simp add: obj_get_enrich_message js_or_def synth_hash_def)

subsection \<open>Properties\<close>

text \<open>
  C23. The facets offered to the filter UI are computed from the unfiltered messages:
  the host list is every truthy source or destination and the method list every truthy
  method, each sorted by string form and without duplicates.
\<close>

theorem facets_from_unfiltered:
  "set (extracted_hosts processed) = endpoints processed \<and> distinct (extracted_hosts processed) \<and>
   sorted (map js_to_string (extracted_hosts processed)) \<and>
   set (available_methods processed) = methods_of processed \<and> distinct (available_methods processed) \<and>
   sorted (map js_to_string (available_methods processed))"
  using available_methods_set [of processed] available_methods_sorted [of processed]
  by (simp add: extracted_hosts_eq collect_hosts_set collect_hosts_distinct sorted_js_sort)

text \<open>
  C19. Every processed message has the shape \<open>FlowItem\<close> relies on: numeric
  \<open>sourcePosition\<close> and \<open>destinationPosition\<close> that index the header of endpoints (or
  are the default 0), and a truthy \<open>hash\<close> to key the row with.
\<close>

theorem processed_message_shape:
  assumes "m \<in> set (processed_data clk data)"
  shows "(\<exists>p. obj_get m ''sourcePosition'' = JNum (int p) \<and>
              (p = 0 \<or> p < length (extracted_hosts (processed_data clk data)))) \<and>
         (\<exists>p. obj_get m ''destinationPosition'' = JNum (int p) \<and>
              (p = 0 \<or> p < length (extracted_hosts (processed_data clk data)))) \<and>
         js_truthy (obj_get m ''hash'')"
proof (cases "series data")
  case (Some frames)
  then obtain frame rest where f: "series data = Some (frame # rest)"
    using assms by (cases frames) (auto simp: processed_data_def)
  obtain now msg where m: "m = enrich_message (host_positions (rows_of_frame frame)) now msg"
    using assms present_enrich_all by (fastforce simp: processed_data_frame [OF f])
  show ?thesis
    by (simp add: m obj_get_enrich_message extracted_hosts_processed [OF f] position_of_bound
        enrich_message_hash_truthy [of _ now msg, simplified obj_get_enrich_message, simplified])
qed (use assms in \<open>simp add: processed_data_def\<close>)

theorem processed_message_shape_witness:
  "obj_get (processed_data (\<lambda>_. 0) \<lparr>series = Some [[\<lparr>name = Some ''source'', values = Some [JStr ''A'']\<rparr>]]\<rparr> ! 0)
     ''sourcePosition'' = JNum 0 \<and>
   js_truthy (obj_get (processed_data (\<lambda>_. 0) \<lparr>series = Some [[\<lparr>name = Some ''source'', values = Some [JStr ''A'']\<rparr>]]\<rparr> ! 0)
     ''hash'')"
proof -
  let ?d = "\<lparr>series = Some [[\<lparr>name = Some ''source'', values = Some [JStr ''A'']\<rparr>]]\<rparr>"
  have p: "processed_data (\<lambda>_. 0) ?d =
     [[(''messageID'', JNum 0), (''source'', JStr ''A''), (''sourcePosition'', JNum 0),
       (''destinationPosition'', JNum 0), (''hash'', JStr ''msg_0_0'')]]"
    by (simp add: processed_eval js_eval)
  have "processed_data (\<lambda>_. 0) ?d ! 0 \<in> set (processed_data (\<lambda>_. 0) ?d)" by (simp add: p)
  from processed_message_shape [OF this] p show ?thesis by (simp add: obj_get_def)
qed

end
