(* ===== verification/Flow_Item.thy ===== *)
theory Flow_Item
  imports JS_Values
begin

text \<open>
  Flow Item (\<open>FlowItem.tsx\<close>): the per-message row. \<open>getArrowDirection\<close> (lines
  173--180), \<open>getMethodColor\<close> (lines 137--154) with the theme's colour tokens as a
  datatype and its \<open>TypeError\<close> on a method that is not a string, \<open>handleClick\<close>,
  \<open>formatTimestamp\<close> over the \<open>Date\<close> library of \<open>JS_Values\<close>, and the rendered row
  (lines 198--258), which fails when the colour lookup throws; the props record with
  its defaults and the guard on \<open>onItemClick\<close>. The CSS is not modelled.
\<close>

subsection \<open>Arrow direction\<close>

datatype arrow = ArrowRight | ArrowLeft | ArrowBidirectional

text \<open>
  The positions are compared with JavaScript's \<open><\<close>; both are numbers after
  enrichment. A non-number is converted with \<open>Number(\<cdot>)\<close>; here only \<open>null\<close> (0),
  booleans (0/1) and \<open>undefined\<close> (\<open>NaN\<close>, every comparison false) are converted,
  and strings are treated as \<open>NaN\<close>.
\<close>

fun js_number :: "jsval \<Rightarrow> int option" where
  "js_number (JNum n) = Some n"
| "js_number JNull = Some 0"
| "js_number (JBool b) = Some (if b then 1 else 0)"
| "js_number JUndefined = None"
| "js_number (JStr s) = None"

definition js_less :: "jsval \<Rightarrow> jsval \<Rightarrow> bool" where
  "js_less a b = (case (js_number a, js_number b) of (Some x, Some y) \<Rightarrow> x < y | _ \<Rightarrow> False)"

definition get_arrow_direction :: "jsobj \<Rightarrow> arrow" where
  "get_arrow_direction item =
     (if js_less (obj_get item ''sourcePosition'') (obj_get item ''destinationPosition'') then ArrowRight
      else if js_less (obj_get item ''destinationPosition'') (obj_get item ''sourcePosition'') then ArrowLeft
      else ArrowBidirectional)"

subsection \<open>Method colour\<close>

datatype theme_color =
    SuccessMain | ErrorMain | WarningMain | InfoMain | PrimaryMain | SecondaryMain
  | SuccessBorder | WarningBorder | InfoBorder | PrimaryBorder | SecondaryBorder
  | TextPrimary | TextSecondary

definition upper_char :: "char \<Rightarrow> char" where
  "upper_char c = (if CHR ''a'' \<le> c \<and> c \<le> CHR ''z'' then char_of (of_char c - (32::nat)) else c)"

definition js_upper :: "string \<Rightarrow> string" where
  "js_upper s = map upper_char s"

definition method_colors :: "(string \<times> theme_color) list" where
  "method_colors =
     [(''INVITE'', SuccessMain), (''BYE'', ErrorMain), (''CANCEL'', WarningMain), (''ACK'', InfoMain),
      (''REGISTER'', PrimaryMain), (''OPTIONS'', SecondaryMain), (''PRACK'', SuccessBorder),
      (''UPDATE'', WarningBorder), (''REFER'', InfoBorder), (''SUBSCRIBE'', PrimaryBorder),
      (''NOTIFY'', SecondaryBorder), (''MESSAGE'', TextPrimary)]"

text \<open>
  \<open>methodColors[method?.toUpperCase()] || theme.colors.text.secondary\<close> (line 153): the
  table lookup of the upper-cased name, with the fallback colour. The call
  \<open>toUpperCase\<close> exists on strings only: \<open>undefined\<close> and \<open>null\<close> short-circuit to the
  fallback, a number or a boolean throws.
\<close>

definition color_lookup :: "string \<Rightarrow> theme_color" where
  "color_lookup method = (case map_of method_colors (js_upper method) of Some c \<Rightarrow> c | None \<Rightarrow> TextSecondary)"

fun get_method_color :: "jsval \<Rightarrow> js_error + theme_color" where
  "get_method_color (JStr method) = Inr (color_lookup method)"
| "get_method_color JUndefined = Inr TextSecondary"
| "get_method_color JNull = Inr TextSecondary"
| "get_method_color (JNum n) = Inl TypeError"
| "get_method_color (JBool b) = Inl TypeError"

definition item_method_color :: "jsobj \<Rightarrow> js_error + theme_color" where
  "item_method_color item = get_method_color (js_or (obj_get item ''method'') (JStr []))"

subsection \<open>Click and timestamp\<close>

text \<open>The arguments \<open>handleClick\<close> passes to \<open>onItemClick\<close> (line 169): the item's \<open>hash\<close> and the item itself.\<close>

definition flow_item_click :: "jsobj \<Rightarrow> jsval \<times> jsobj" where
  "flow_item_click item = (obj_get item ''hash'', item)"

text \<open>
  \<open>Date.prototype.toLocaleTimeString\<close> as the library defines it: on an invalid date
  (time value \<open>NaN\<close>, here \<open>None\<close>) it returns \<open>"Invalid Date"\<close> and does not throw
  (ECMA-262, \<open>Date.prototype.toLocaleTimeString\<close> and \<open>ToDateString\<close>). It is total on
  dates; its result type keeps the exception a \<open>catch\<close> would receive.
\<close>

definition to_locale_time_string :: "js_library \<Rightarrow> int option \<Rightarrow> js_error + string" where
  "to_locale_time_string lib d =
     (case d of None \<Rightarrow> Inr ''Invalid Date'' | Some t \<Rightarrow> Inr (locale_time_string lib t))"

text \<open>
  \<open>formatTimestamp\<close> (lines 182--196): an empty timestamp gives \<open>''\<close>; otherwise the
  \<open>try\<close> block builds \<open>new Date(timestamp)\<close> (which does not throw on a bad date) and
  formats it, in both branches of \<open>isAbsolute\<close> with \<open>toLocaleTimeString\<close>; the
  \<open>catch\<close> returns the raw timestamp.
\<close>

definition format_timestamp :: "js_library \<Rightarrow> jsval \<Rightarrow> string" where
  "format_timestamp lib timestamp =
     (if \<not> js_truthy timestamp then []
      else case to_locale_time_string lib (date_time lib timestamp) of
             Inl _ \<Rightarrow> js_to_string timestamp
           | Inr s \<Rightarrow> s)"

text \<open>
  A child \<open>{cond && <div>...</div>}\<close> of a React element: a truthy condition renders
  the element; \<open>false\<close>, \<open>null\<close>, \<open>undefined\<close> and \<open>''\<close> render nothing, but the
  number \<open>0\<close> is rendered as the text \<open>"0"\<close>.
\<close>

datatype 'a react_child = NoChild | TextChild string | ElementChild 'a

definition js_and_child :: "jsval \<Rightarrow> 'a \<Rightarrow> 'a react_child" where
  "js_and_child v e = (if js_truthy v then ElementChild e else if v = JNum 0 then TextChild ''0'' else NoChild)"

subsection \<open>What a row shows\<close>

record flow_row_view =
  test_id :: string
  index_label :: string
  source_label :: jsval
  arrow_class :: arrow
  method_label :: "(jsval \<times> theme_color) react_child"
  timestamp_label :: "string react_child"
  callid_label :: "jsval react_child"
  destination_label :: jsval

definition flow_item_view :: "js_library \<Rightarrow> jsobj \<Rightarrow> nat \<Rightarrow> bool \<Rightarrow> js_error + flow_row_view" where
  "flow_item_view lib item index isSimplify =
     (case item_method_color item of
        Inl e \<Rightarrow> Inl e
      | Inr methodColor \<Rightarrow> Inr
          \<lparr>test_id = ''flow-item-'' @ js_to_string (obj_get item ''hash''),
           index_label = CHR ''#'' # int_to_string (int index + 1),
           source_label = obj_get item ''source'',
           arrow_class = get_arrow_direction item,
           method_label = js_and_child (obj_get item ''method'') (obj_get item ''method'', methodColor),
           timestamp_label = (if isSimplify then NoChild
                              else js_and_child (obj_get item ''timestamp'')
                                     (format_timestamp lib (obj_get item ''timestamp''))),
           callid_label = (if isSimplify then NoChild
                           else js_and_child (obj_get item ''callid'') (obj_get item ''callid'')),
           destination_label = obj_get item ''destination''\<rparr>)"

subsection \<open>Props\<close>

text \<open>
  The props of \<open>FlowItem\<close> (lines 6--25) and their destructuring with defaults
  (lines 156--163): \<open>isSimplify = false\<close>, \<open>isGroupByAlias = false\<close>,
  \<open>isAbsolute = true\<close>. An absent prop is \<open>None\<close>; \<open>onItemClick\<close> records whether a
  handler was passed. \<open>isGroupByAlias\<close> is never read, and both branches of
  \<open>isAbsolute\<close> in \<open>formatTimestamp\<close> format alike, so only \<open>isSimplify\<close> reaches
  the row.
\<close>

record flow_item_props =
  item_prop :: jsobj
  index_prop :: nat
  isSimplify_prop :: "bool option"
  isGroupByAlias_prop :: "bool option"
  isAbsolute_prop :: "bool option"
  onItemClick :: bool

definition flow_item :: "js_library \<Rightarrow> flow_item_props \<Rightarrow> js_error + flow_row_view" where
  "flow_item lib props =
     flow_item_view lib (item_prop props) (index_prop props)
       (case isSimplify_prop props of None \<Rightarrow> False | Some b \<Rightarrow> b)"

text \<open>\<open>handleClick\<close> (lines 167--171) calls the handler only when one was passed.\<close>

definition flow_item_handle_click :: "flow_item_props \<Rightarrow> (jsval \<times> jsobj) option" where
  "flow_item_handle_click props =
     (if onItemClick props then Some (flow_item_click (item_prop props)) else None)"

subsection \<open>Lemmas\<close>

lemma get_arrow_direction_num:
  "obj_get item ''sourcePosition'' = JNum s \<Longrightarrow> obj_get item ''destinationPosition'' = JNum d \<Longrightarrow>
   get_arrow_direction item = (if s < d then ArrowRight else if d < s then ArrowLeft else ArrowBidirectional)"
  by (simp add: get_arrow_direction_def js_less_def)

lemma upper_lower_char: "upper_char (lower_char c) = upper_char c"
  by (auto simp: upper_char_def lower_char_def less_eq_char_def)

lemma js_upper_lower: "js_upper (js_lower s) = js_upper s"
  by (simp add: js_upper_def js_lower_def upper_lower_char)

lemma item_method_color_Inl:
  "js_truthy (obj_get item ''method'') \<Longrightarrow> (\<And>str. obj_get item ''method'' \<noteq> JStr str) \<Longrightarrow>
   item_method_color item = Inl TypeError"
  by (cases "obj_get item ''method''") (auto simp: item_method_color_def js_or_def)

lemma item_method_color_Inr:
  "\<not> js_truthy (obj_get item ''method'') \<or> obj_get item ''method'' = JStr str \<Longrightarrow>
   \<exists>c. item_method_color item = Inr c"
  by (cases "obj_get item ''method''") (auto simp: item_method_color_def js_or_def)

lemma flow_item_view_Inl:
  "item_method_color item = Inl e \<Longrightarrow> flow_item_view lib item index isSimplify = Inl e"
  by (simp add: flow_item_view_def)

lemma flow_item_view_Inr:
  "item_method_color item = Inr c \<Longrightarrow> \<exists>v. flow_item_view lib item index isSimplify = Inr v"
  by (simp add: flow_item_view_def)

subsection \<open>Properties\<close>

text \<open>
  C33. The colour of a method name: it does not depend on letter case
  (\<open>getMethodColor\<close> upper-cases before the lookup), a name outside the twelve SIP
  methods of the table gets the fallback \<open>text.secondary\<close>, and each of the twelve gets
  its own entry of the table, twelve pairwise different theme colour tokens.
\<close>

theorem method_color_table:
  "get_method_color (JStr (js_lower m)) = get_method_color (JStr m) \<and>
   (get_method_color (JStr m) = Inr TextSecondary \<longleftrightarrow> js_upper m \<notin> set (map fst method_colors)) \<and>
   map (\<lambda>(name, c). get_method_color (JStr name)) method_colors = map (\<lambda>(name, c). Inr c) method_colors \<and>
   distinct (map snd method_colors) \<and> length method_colors = 12"
proof -
  have "color_lookup m = TextSecondary \<longleftrightarrow> js_upper m \<notin> set (map fst method_colors)"
  proof (cases "map_of method_colors (js_upper m)")
    case None
    then show ?thesis by (simp add: color_lookup_def map_of_eq_None_iff [symmetric])
  next
    case (Some c)
    then have mem: "(js_upper m, c) \<in> set method_colors" by (rule map_of_SomeD)
    then have "js_upper m \<in> set (map fst method_colors)" by force
    moreover from mem have "c \<noteq> TextSecondary" by (auto simp: method_colors_def)
    ultimately show ?thesis using Some by (simp add: color_lookup_def)
  qed
  moreover have "map (\<lambda>(name, c). get_method_color (JStr name)) method_colors = map (\<lambda>(name, c). Inr c) method_colors"
    by (simp add: method_colors_def color_lookup_def js_upper_def upper_char_def less_eq_char_def)
  moreover have "distinct (map snd method_colors) \<and> length method_colors = 12"
    by (simp add: method_colors_def)
  ultimately show ?thesis by (simp add: color_lookup_def js_upper_lower)
qed

text \<open>
  A method column holding the number 0 does not crash the row (\<open>item.method || ''\<close>
  gives \<open>''\<close> to \<open>getMethodColor\<close>), but \<open>{item.method && ...}\<close> renders a stray
  \<open>"0"\<close> in place of the method label.
\<close>

lemma zero_method_stray_text:
  assumes "obj_get item ''method'' = JNum 0"
  shows "\<exists>v. flow_item_view lib item index isSimplify = Inr v \<and> method_label v = TextChild ''0''"
  using assms by (simp add: flow_item_view_def item_method_color_def js_or_def js_and_child_def color_lookup_def)

text \<open>
  An unparsable timestamp is shown as \<open>"Invalid Date"\<close>: the \<open>catch\<close> branch that
  would return the raw string is never taken.
\<close>

lemma invalid_timestamp_shown:
  assumes "obj_get item ''timestamp'' = JStr ts" and "ts \<noteq> []" and "date_parse lib ts = None"
    and "flow_item_view lib item index False = Inr v"
  shows "timestamp_label v = ElementChild ''Invalid Date''"
  using assms by (auto simp: flow_item_view_def format_timestamp_def to_locale_time_string_def js_and_child_def
      split: sum.splits)

end
