(* ===== verification/Panel.thy ===== *)
theory Panel
  imports Filter_Panel Facets Flow_Item
begin

text \<open>
  The panel component \<open>FlowVisualization\<close> (\<open>FlowVisualization.tsx\<close>, lines
  104--331) with its options type (\<open>types.ts\<close>). Its state is the memoised
  \<open>processedData\<close> (recomputed only when \<open>data\<close> changes, so it is stored) and the
  four \<open>useState\<close> cells; a step is one external event: new data from the host, an input
  in the filter panel, the show/hide toggle, a click on a message, an export button.
  Every step that re-renders runs the render's memos and then the effect of lines
  224--228, which copies \<open>filteredData\<close> and \<open>extractedHosts\<close> into the state; a
  \<open>TypeError\<close> thrown by the filter memo aborts the render (\<open>Inl\<close>). The click and
  export handlers emit window events, modelled as a list of notifications.
\<close>

subsection \<open>Options (\<open>types.ts\<close>)\<close>

datatype option_value = OptString string | OptList "string list"

datatype sort_option = SortNone | SortTimeOld | SortTimeNew

record flow_options =
  title :: option_value
  aboveArrow :: option_value
  belowArrow :: option_value
  details :: option_value
  sourceLabel :: option_value
  destinationLabel :: option_value
  source :: option_value
  destination :: option_value
  sortoption :: sort_option
  colorGenerator :: option_value
  showbody :: bool
  isSimplify :: "bool option"

subsection \<open>State, events, notifications\<close>

record panel_state =
  processedData :: "jsobj list"
  filters :: filter_options
  showFilters :: bool
  flowData :: "jsobj list"
  hosts :: "jsval list"

datatype panel_event =
    DataRefresh panel_data clock
  | FilterInput filter_action
  | ToggleFilters
  | ItemClick nat
  | ExportRequest string

datatype notification =
    FlowItemClickEvent jsval jsobj
  | ExportFlowEvent string "jsobj list"

definition initial_state :: "clock \<Rightarrow> panel_data \<Rightarrow> panel_state" where
  "initial_state clk data =
     \<lparr>processedData = processed_data clk data, filters = no_filters, showFilters = False,
      flowData = [], hosts = []\<rparr>"

definition render_effect :: "panel_state \<Rightarrow> js_error + panel_state" where
  "render_effect s =
     (case filter_messages (filters s) (processedData s) of
        Inl e \<Rightarrow> Inl e
      | Inr filtered \<Rightarrow> Inr (s\<lparr>flowData := filtered, hosts := extracted_hosts (processedData s)\<rparr>))"

definition handle_message_click :: "jsval \<Rightarrow> jsobj \<Rightarrow> notification" where
  "handle_message_click hash item = FlowItemClickEvent hash item"

definition handle_export :: "panel_state \<Rightarrow> string \<Rightarrow> notification" where
  "handle_export s format = ExportFlowEvent (''export-flow-as-'' @ format) (flowData s)"

fun panel_step :: "panel_state \<Rightarrow> panel_event \<Rightarrow> (js_error + panel_state) \<times> notification list" where
  "panel_step s (DataRefresh data clk) = (render_effect (s\<lparr>processedData := processed_data clk data\<rparr>), [])"
| "panel_step s (FilterInput a) = (render_effect (s\<lparr>filters := filter_panel_update (filters s) a\<rparr>), [])"
| "panel_step s ToggleFilters = (Inr (s\<lparr>showFilters := \<not> showFilters s\<rparr>), [])"
| "panel_step s (ItemClick i) =
     (Inr s, if i < length (flowData s)
             then [case_prod handle_message_click (flow_item_click (flowData s ! i))] else [])"
| "panel_step s (ExportRequest format) = (Inr s, [handle_export s format])"

subsection \<open>Events the rendered panel can produce\<close>

text \<open>
  The filter controls exist only while the filter panel is shown; a method checkbox
  reports the negation of its current value; only rendered messages can be clicked;
  the three export buttons request \<open>png\<close>, \<open>txt\<close> and \<open>pcap\<close>.
\<close>

definition ui_event :: "panel_state \<Rightarrow> panel_event \<Rightarrow> bool" where
  "ui_event s e =
     (case e of
        FilterInput a \<Rightarrow> showFilters s \<and> (typed_action a \<or> (\<exists>m. a = method_checkbox_click (filters s) m))
      | ItemClick i \<Rightarrow> i < length (flowData s)
      | ExportRequest format \<Rightarrow> format \<in> {''png'', ''txt'', ''pcap''}
      | _ \<Rightarrow> True)"

inductive panel_reachable :: "panel_state \<Rightarrow> bool" where
  mount: "render_effect (initial_state clk data) = Inr s \<Longrightarrow> panel_reachable s"
| step: "panel_reachable s \<Longrightarrow> ui_event s e \<Longrightarrow> fst (panel_step s e) = Inr s' \<Longrightarrow> panel_reachable s'"

text \<open>One user-visible transition: an event the rendered panel can produce, rendered without error.\<close>

definition panel_trans :: "panel_state \<Rightarrow> panel_state \<Rightarrow> bool" where
  "panel_trans s s' \<longleftrightarrow> (\<exists>e. ui_event s e \<and> fst (panel_step s e) = Inr s')"

subsection \<open>What the panel shows\<close>

datatype flow_content = EmptyState string | FlowRows "flow_row_view list"

record panel_view =
  stats_text :: string
  toggle_label :: string
  filter_section :: filter_panel_view
  host_headers :: "jsval list"
  flow_content :: flow_content

text \<open>
  The \<open>FlowItem\<close> element of each shown message (lines 316--322): the panel passes
  \<open>options.isSimplify\<close> as it is and always a click handler.
\<close>

definition flow_item_element :: "flow_options \<Rightarrow> nat \<Rightarrow> jsobj \<Rightarrow> flow_item_props" where
  "flow_item_element options index item =
     \<lparr>item_prop = item, index_prop = index, isSimplify_prop = isSimplify options,
      isGroupByAlias_prop = None, isAbsolute_prop = None, onItemClick = True\<rparr>"

definition flow_content_view :: "js_library \<Rightarrow> panel_state \<Rightarrow> flow_options \<Rightarrow> js_error + flow_content" where
  "flow_content_view lib s options =
     (if flowData s = []
      then Inr (EmptyState (if processedData s = [] then ''No data received from query''
                            else ''All messages filtered out''))
      else case map_result (\<lambda>(index, item). flow_item lib (flow_item_element options index item))
                  (enumerate 0 (flowData s)) of
             Inl e \<Rightarrow> Inl e
           | Inr rows \<Rightarrow> Inr (FlowRows rows))"

text \<open>
  The \<open>FilterPanel\<close> element of the render (lines 280--288): both Selects are
  offered the same \<open>extractedHosts\<close>, every endpoint seen as a source or as a
  destination.
\<close>

definition filter_panel_props_of :: "panel_state \<Rightarrow> filter_panel_props" where
  "filter_panel_props_of s =
     \<lparr>filters_prop = filters s,
      availableMethods = available_methods (processedData s),
      availableSources = extracted_hosts (processedData s),
      availableDestinations = extracted_hosts (processedData s),
      isVisible = showFilters s\<rparr>"

definition panel_view :: "js_library \<Rightarrow> panel_state \<Rightarrow> flow_options \<Rightarrow> js_error + panel_view" where
  "panel_view lib s options =
     (case filter_messages (filters s) (processedData s) of
        Inl e \<Rightarrow> Inl e
      | Inr filteredData \<Rightarrow>
          (case flow_content_view lib s options of
             Inl e \<Rightarrow> Inl e
           | Inr content \<Rightarrow>
               Inr \<lparr>stats_text = '' ('' @ nat_to_string (length filteredData) @ '' of '' @
                                  nat_to_string (length (processedData s)) @ '' messages)'',
                    toggle_label = (if showFilters s then ''Hide'' else ''Show'') @ '' Filters'',
                    filter_section = filter_panel_view (filter_panel_props_of s),
                    host_headers = hosts s,
                    flow_content = content\<rparr>))"

subsection \<open>The synchronisation invariant\<close>

definition panel_synced :: "panel_state \<Rightarrow> bool" where
  "panel_synced s \<longleftrightarrow>
     filter_messages (filters s) (processedData s) = Inr (flowData s) \<and>
     hosts s = extracted_hosts (processedData s) \<and> filter_reachable (filters s)"

lemma render_effect_Inr:
  "render_effect s = Inr s' \<Longrightarrow>
   \<exists>fl. filter_messages (filters s) (processedData s) = Inr fl \<and>
        s' = s\<lparr>flowData := fl, hosts := extracted_hosts (processedData s)\<rparr>"
  by (auto simp: render_effect_def split: sum.splits)

lemma render_effect_synced:
  "render_effect s = Inr s' \<Longrightarrow> filter_reachable (filters s) \<Longrightarrow> panel_synced s'"
  by (drule render_effect_Inr) (auto simp: panel_synced_def)

lemma ui_filter_reachable:
  "filter_reachable (filters s) \<Longrightarrow> ui_event s (FilterInput a) \<Longrightarrow>
   filter_reachable (filter_panel_update (filters s) a)"
  by (auto simp: ui_event_def intro: filter_reachable.typed filter_reachable.click)

lemma panel_step_synced:
  assumes "panel_synced s" and "ui_event s e" and "fst (panel_step s e) = Inr s'"
  shows "panel_synced s'"
proof (cases e)
  case (DataRefresh data clk)
  with assms have "render_effect (s\<lparr>processedData := processed_data clk data\<rparr>) = Inr s'" by simp
  then show ?thesis
    by (rule render_effect_synced) (use assms(1) in \<open>simp add: panel_synced_def\<close>)
next
  case (FilterInput a)
  with assms have "filter_reachable (filter_panel_update (filters s) a)"
    by (auto simp: panel_synced_def intro: ui_filter_reachable)
  moreover have "render_effect (s\<lparr>filters := filter_panel_update (filters s) a\<rparr>) = Inr s'"
    using FilterInput assms(3) by simp
  ultimately show ?thesis using render_effect_synced by fastforce
qed (use assms in \<open>auto simp: panel_synced_def\<close>)

lemma panel_reachable_synced_aux: "panel_reachable s \<Longrightarrow> panel_synced s"
proof (induction rule: panel_reachable.induct)
  case (mount clk data s)
  then show ?case
    by (rule render_effect_synced) (simp add: initial_state_def filter_reachable.initial)
next
  case (step s e s')
  then show ?case by (blast intro: panel_step_synced)
qed

lemma filter_step_frame:
  "fst (panel_step s (FilterInput a)) = Inr s' \<Longrightarrow>
   processedData s' = processedData s \<and> showFilters s' = showFilters s"
  by (auto simp: render_effect_def split: sum.splits)

definition numeric_callid_data :: panel_data where
  "numeric_callid_data =
     \<lparr>series = Some [[\<lparr>name = Some ''source'', values = Some [JStr ''A'']\<rparr>,
                      \<lparr>name = Some ''callid'', values = Some [JNum 42]\<rparr>]]\<rparr>"

lemma filter_messages_subset:
  "filter_messages fo items = Inr r \<Longrightarrow> set r \<subseteq> set items \<and> length r \<le> length items"
  by (auto dest!: filter_messages_Inr)

lemma reachable_flow_item:
  assumes "panel_reachable s" and "i < length (flowData s)"
  shows "flowData s ! i \<in> set (processedData s) \<and> passes_filters (filters s) (flowData s ! i) = Inr True"
proof -
  have f: "filter_messages (filters s) (processedData s) = Inr (flowData s)"
    using panel_reachable_synced_aux [OF assms(1)] by (simp add: panel_synced_def)
  have "flowData s ! i \<in> set (flowData s)" using assms(2) by simp
  then show ?thesis using filter_messages_subset [OF f] passes_filters_all_true [OF f] by blast
qed

lemmas panel_step_eval = panel_step.simps render_effect_def initial_state_def ui_event_def
  handle_message_click_def flow_item_click_def handle_export_def

lemma flow_item_element_row:
  "flow_item lib (flow_item_element options index item) =
     flow_item_view lib item index (case isSimplify options of None \<Rightarrow> False | Some b \<Rightarrow> b)"
  by (simp add: flow_item_def flow_item_element_def)

lemma flow_item_element_click:
  "flow_item_handle_click (flow_item_element options index item) = Some (flow_item_click item)"
  by (simp add: flow_item_handle_click_def flow_item_element_def)

lemma flow_content_view_Inr:
  assumes "\<forall>item \<in> set (flowData s). \<exists>c. item_method_color item = Inr c"
  shows "\<exists>c. flow_content_view lib s options = Inr c \<and>
             (c = EmptyState ''All messages filtered out'' \<longleftrightarrow> flowData s = [] \<and> processedData s \<noteq> [])"
proof (cases "flowData s = []")
  case False
  have "\<exists>y. (\<lambda>(index, item). flow_item lib (flow_item_element options index item)) p = Inr y"
    if p: "p \<in> set (enumerate 0 (flowData s))" for p
  proof -
    obtain i x where px: "p = (i, x)" by (cases p)
    with p have i: "i < length (flowData s)" "p = (i, flowData s ! i)"
      by (auto simp: in_set_enumerate_eq)
    then obtain c where "item_method_color (flowData s ! i) = Inr c" using assms nth_mem by blast
    with i show ?thesis using flow_item_view_Inr by (auto simp: flow_item_element_row)
  qed
  then obtain rows where "map_result (\<lambda>(index, item). flow_item lib (flow_item_element options index item)) (enumerate 0 (flowData s)) = Inr rows"
    using map_result_Inr by blast
  with False show ?thesis by (simp add: flow_content_view_def)
qed (simp add: flow_content_view_def)

lemma flow_content_view_Inl:
  assumes "item \<in> set (flowData s)" and "item_method_color item = Inl e"
  shows "flow_content_view lib s options = Inl TypeError"
proof -
  obtain i where i: "i < length (flowData s)" "flowData s ! i = item"
    using assms(1) by (auto simp: in_set_conv_nth)
  then have "(i, item) \<in> set (enumerate 0 (flowData s))" by (simp add: in_set_enumerate_eq)
  moreover have "(\<lambda>(index, item). flow_item lib (flow_item_element options index item)) (i, item) = Inl e"
    using assms(2) by (simp add: flow_item_element_row flow_item_view_Inl)
  ultimately obtain e' where "map_result (\<lambda>(index, item). flow_item lib (flow_item_element options index item)) (enumerate 0 (flowData s)) = Inl e'"
    by (blast dest: map_result_Inl)
  then show ?thesis using assms(1) by (cases e') (auto simp: flow_content_view_def)
qed

definition numeric_method_data :: panel_data where
  "numeric_method_data =
     \<lparr>series = Some [[\<lparr>name = Some ''source'', values = Some [JStr ''A'']\<rparr>,
                      \<lparr>name = Some ''method'', values = Some [JNum 200]\<rparr>]]\<rparr>"

definition numeric_method_message :: jsobj where
  "numeric_method_message =
     [(''messageID'', JNum 0), (''source'', JStr ''A''), (''method'', JNum 200),
      (''sourcePosition'', JNum 0), (''destinationPosition'', JNum 0), (''hash'', JStr ''msg_0_0'')]"

lemma numeric_method_reachable:
  "panel_reachable \<lparr>processedData = [numeric_method_message], filters = no_filters, showFilters = False,
                    flowData = [numeric_method_message], hosts = [JStr ''A'']\<rparr>"
proof -
  have p: "processed_data (\<lambda>_. 0) numeric_method_data = [numeric_method_message]"
    by (simp add: numeric_method_data_def numeric_method_message_def processed_eval js_eval)
  show ?thesis
    by (rule panel_reachable.mount [where clk = "\<lambda>_. 0" and data = numeric_method_data])
       (simp add: initial_state_def render_effect_def p filter_eval extracted_hosts_def extract_facets_def
        positions_eval numeric_method_message_def js_eval)
qed

lemma panel_trans_reachable: "panel_trans\<^sup>*\<^sup>* s s' \<Longrightarrow> panel_reachable s \<Longrightarrow> panel_reachable s'"
  by (induction rule: rtranclp_induct) (auto simp: panel_trans_def intro: panel_reachable.step)

lemma clear_filters_step:
  assumes "showFilters s"
  shows "panel_trans s (s\<lparr>filters := no_filters, flowData := processedData s,
                          hosts := extracted_hosts (processedData s)\<rparr>)"
proof -
  have "filter_messages no_filters (processedData s) = Inr (processedData s)"
    by (rule filter_inactive) (simp add: has_active_filters_iff no_filters_def)
  then have "fst (panel_step s (FilterInput ClearFilters)) =
      Inr (s\<lparr>filters := no_filters, flowData := processedData s, hosts := extracted_hosts (processedData s)\<rparr>)"
    by (simp add: render_effect_def cleared_filters_no_filters)
  moreover have "ui_event s (FilterInput ClearFilters)" using assms by (simp add: ui_event_def typed_action_def)
  ultimately show ?thesis unfolding panel_trans_def by blast
qed

text \<open>The render never reads \<open>sortoption\<close>: messages are shown in data order whatever it says.\<close>

lemma panel_view_ignores_sortoption:
  "panel_view lib s (options\<lparr>sortoption := so\<rparr>) = panel_view lib s options"
proof -
  have eq: "flow_content_view lib s (options\<lparr>sortoption := so\<rparr>) = flow_content_view lib s options"
    by (simp add: flow_content_view_def flow_item_element_row)
  show ?thesis unfolding panel_view_def eq by (rule refl)
qed

subsection \<open>Properties\<close>

text \<open>
  C4. The state the panel renders from is always in step with its memos: after every
  reachable event, \<open>flowData\<close> is the filter of the processed messages under the current
  filters, \<open>hosts\<close> is the header computed from all processed messages, and the filters
  are ones the filter panel can produce.
\<close>

theorem panel_reachable_synced:
  assumes "panel_reachable s"
  shows "filter_messages (filters s) (processedData s) = Inr (flowData s) \<and>
         hosts s = extracted_hosts (processedData s) \<and> filter_reachable (filters s)"
  using panel_reachable_synced_aux [OF assms] by (simp add: panel_synced_def)

theorem panel_reachable_synced_witness:
  "filter_messages (filters \<lparr>processedData = [], filters = no_filters, showFilters = False,
                             flowData = [], hosts = []\<rparr>) [] = Inr [] \<and>
   hosts \<lparr>processedData = [], filters = no_filters, showFilters = False, flowData = [], hosts = []\<rparr> =
     extracted_hosts []"
proof -
  have "panel_reachable \<lparr>processedData = [], filters = no_filters, showFilters = False,
                         flowData = [], hosts = []\<rparr>"
    by (rule panel_reachable.mount [where clk = "\<lambda>_. 0" and data = "\<lparr>series = None\<rparr>"])
       (simp add: panel_step_eval processed_data_def extracted_hosts_def extract_facets_def js_sort_def)
  from panel_reachable_synced [OF this] show ?thesis by simp
qed

text \<open>
  C8. The export buttons hand out exactly what is on screen: an export request in a
  reachable state leaves the state unchanged and emits one \<open>export-flow-as-<format>\<close>
  event whose payload is the list the current filters keep, in display order.
\<close>

theorem export_snapshot:
  assumes "panel_reachable s"
  shows "\<exists>shown. filter_messages (filters s) (processedData s) = Inr shown \<and>
           panel_step s (ExportRequest format) =
             (Inr s, [ExportFlowEvent (''export-flow-as-'' @ format) shown])"
  using panel_reachable_synced_aux [OF assms] by (simp add: panel_synced_def handle_export_def)

theorem export_snapshot_witness:
  "panel_step \<lparr>processedData = [], filters = no_filters, showFilters = False, flowData = [], hosts = []\<rparr>
     (ExportRequest ''txt'') =
   (Inr \<lparr>processedData = [], filters = no_filters, showFilters = False, flowData = [], hosts = []\<rparr>,
    [ExportFlowEvent ''export-flow-as-txt'' []])"
proof -
  have r: "panel_reachable \<lparr>processedData = [], filters = no_filters, showFilters = False,
                            flowData = [], hosts = []\<rparr>"
    by (rule panel_reachable.mount [where clk = "\<lambda>_. 0" and data = "\<lparr>series = None\<rparr>"])
       (simp add: panel_step_eval processed_data_def extracted_hosts_def extract_facets_def js_sort_def)
  show ?thesis using export_snapshot [OF r, of "''txt''"] by simp
qed

text \<open>
  C10. Filtering never narrows the facets: an input in the filter panel emits nothing,
  keeps the processed messages, the header and the method list (all computed from the
  unfiltered data), and shows exactly what the new filters keep.
\<close>

theorem filter_input_keeps_facets:
  assumes "panel_reachable s" and "panel_step s (FilterInput a) = (Inr s', ns)"
  shows "ns = [] \<and> processedData s' = processedData s \<and> hosts s' = hosts s \<and>
         available_methods (processedData s') = available_methods (processedData s) \<and>
         filters s' = filter_panel_update (filters s) a \<and>
         filter_messages (filter_panel_update (filters s) a) (processedData s) = Inr (flowData s')"
proof -
  have h: "hosts s = extracted_hosts (processedData s)"
    using panel_reachable_synced_aux [OF assms(1)] by (simp add: panel_synced_def)
  from assms(2) have "render_effect (s\<lparr>filters := filter_panel_update (filters s) a\<rparr>) = Inr s'" and "ns = []"
    by simp_all
  then show ?thesis using h by (auto dest!: render_effect_Inr)
qed

theorem filter_input_keeps_facets_witness:
  "panel_step \<lparr>processedData = [], filters = no_filters, showFilters = True, flowData = [], hosts = []\<rparr>
     (FilterInput (SearchChange ''x'')) =
   (Inr \<lparr>processedData = [], filters = no_filters\<lparr>searchTerm := ''x''\<rparr>, showFilters = True,
         flowData = [], hosts = []\<rparr>, [])"
proof -
  let ?t0 = "\<lparr>processedData = [], filters = no_filters, showFilters = False, flowData = [], hosts = []\<rparr>"
  let ?t1 = "\<lparr>processedData = [], filters = no_filters, showFilters = True, flowData = [], hosts = []\<rparr>"
  have r0: "panel_reachable ?t0"
    by (rule panel_reachable.mount [where clk = "\<lambda>_. 0" and data = "\<lparr>series = None\<rparr>"])
       (simp add: panel_step_eval processed_data_def extracted_hosts_def extract_facets_def js_sort_def)
  have r: "panel_reachable ?t1"
    by (rule panel_reachable.step [OF r0, where e = ToggleFilters]) (simp_all add: panel_step_eval)
  have st: "panel_step ?t1 (FilterInput (SearchChange ''x'')) =
     (Inr (?t1\<lparr>filters := no_filters\<lparr>searchTerm := ''x''\<rparr>\<rparr>), [])"
    by (simp add: panel_step_eval panel_eval extracted_hosts_def extract_facets_def js_sort_def)
  from filter_input_keeps_facets [OF r st] st show ?thesis by simp
qed

text \<open>
  C9. A click on a rendered message reports that message: the
  \<open>flow-item-click\<close> event carries the message's \<open>hash\<close> and the message itself, which
  is a processed message the current filters keep; the state does not change.
\<close>

theorem click_reports_item:
  assumes "panel_reachable s" and "ui_event s (ItemClick i)"
  shows "panel_step s (ItemClick i) =
           (Inr s, [FlowItemClickEvent (obj_get (flowData s ! i) ''hash'') (flowData s ! i)]) \<and>
         flowData s ! i \<in> set (processedData s) \<and> passes_filters (filters s) (flowData s ! i) = Inr True"
proof -
  have i: "i < length (flowData s)" using assms(2) by (simp add: ui_event_def)
  then show ?thesis using reachable_flow_item [OF assms(1) i] by (simp add: handle_message_click_def flow_item_click_def)
qed

theorem click_reports_item_witness:
  "panel_step \<lparr>processedData = [[(''messageID'', JNum 0), (''hash'', JStr ''h''), (''sourcePosition'', JNum 0),
                                 (''destinationPosition'', JNum 0)]],
               filters = no_filters, showFilters = False,
               flowData = [[(''messageID'', JNum 0), (''hash'', JStr ''h''), (''sourcePosition'', JNum 0),
                            (''destinationPosition'', JNum 0)]], hosts = []\<rparr> (ItemClick 0) =
   (Inr \<lparr>processedData = [[(''messageID'', JNum 0), (''hash'', JStr ''h''), (''sourcePosition'', JNum 0),
                           (''destinationPosition'', JNum 0)]],
         filters = no_filters, showFilters = False,
         flowData = [[(''messageID'', JNum 0), (''hash'', JStr ''h''), (''sourcePosition'', JNum 0),
                      (''destinationPosition'', JNum 0)]], hosts = []\<rparr>,
    [FlowItemClickEvent (JStr ''h'') [(''messageID'', JNum 0), (''hash'', JStr ''h''), (''sourcePosition'', JNum 0),
                                       (''destinationPosition'', JNum 0)]])"
proof -
  let ?m = "[(''messageID'', JNum 0), (''hash'', JStr ''h''), (''sourcePosition'', JNum 0),
             (''destinationPosition'', JNum 0)]"
  let ?t1 = "\<lparr>processedData = [?m], filters = no_filters, showFilters = False, flowData = [?m], hosts = []\<rparr>"
  have m: "render_effect (initial_state (\<lambda>_. 0) \<lparr>series = Some [[\<lparr>name = Some ''hash'', values = Some [JStr ''h'']\<rparr>]]\<rparr>) = Inr ?t1"
    by (simp add: panel_step_eval processed_eval filter_eval extracted_hosts_def extract_facets_def js_eval)
  have r: "panel_reachable ?t1" by (rule panel_reachable.mount [OF m])
  have u: "ui_event ?t1 (ItemClick 0)" by (simp add: ui_event_def)
  from click_reports_item [OF r u] show ?thesis by (simp add: obj_get_def)
qed

text \<open>
  C25. A reachable panel always renders, and its counts are honest: the render succeeds,
  the header is the host list of all processed messages, the statistics line reads
  \<open>" (shown of total messages)"\<close> with shown at most total, and the empty-state text
  distinguishes no data from everything filtered out.
\<close>

theorem panel_view_counts:
  assumes "panel_reachable s" and "\<forall>item \<in> set (flowData s). \<exists>c. item_method_color item = Inr c"
  shows "\<exists>v. panel_view lib s options = Inr v \<and>
           stats_text v = '' ('' @ nat_to_string (length (flowData s)) @ '' of '' @
                          nat_to_string (length (processedData s)) @ '' messages)'' \<and>
           length (flowData s) \<le> length (processedData s) \<and>
           host_headers v = extracted_hosts (processedData s) \<and>
           (flow_content v = EmptyState ''All messages filtered out'' \<longleftrightarrow>
              flowData s = [] \<and> processedData s \<noteq> [])"
proof -
  have f: "filter_messages (filters s) (processedData s) = Inr (flowData s)"
    and h: "hosts s = extracted_hosts (processedData s)"
    using panel_reachable_synced_aux [OF assms(1)] by (simp_all add: panel_synced_def)
  obtain c where c: "flow_content_view lib s options = Inr c"
    and e: "c = EmptyState ''All messages filtered out'' \<longleftrightarrow> flowData s = [] \<and> processedData s \<noteq> []"
    using flow_content_view_Inr [OF assms(2)] by blast
  show ?thesis using filter_messages_subset [OF f] c e by (simp add: panel_view_def f h)
qed

text \<open>
  C27. A message whose \<open>method\<close> column holds a number or \<open>true\<close> breaks the whole
  panel: once such a message is on screen, \<open>getMethodColor\<close> throws in its row and
  the render fails.
\<close>

theorem numeric_method_crashes_panel:
  assumes "panel_reachable s" and "item \<in> set (flowData s)"
    and "js_truthy (obj_get item ''method'')" and "\<And>str. obj_get item ''method'' \<noteq> JStr str"
  shows "panel_view lib s options = Inl TypeError"
proof -
  have f: "filter_messages (filters s) (processedData s) = Inr (flowData s)"
    using panel_reachable_synced_aux [OF assms(1)] by (simp add: panel_synced_def)
  have "flow_content_view lib s options = Inl TypeError"
    using flow_content_view_Inl [OF assms(2) item_method_color_Inl [OF assms(3,4)]] .
  then show ?thesis by (simp add: panel_view_def f)
qed

text \<open>
  C26. The Call-ID filter can crash the panel: in any panel state, once a processed
  message whose \<open>callid\<close> is a number or a boolean gets past the search, method,
  source and destination checks, typing anything into the Call-ID box makes the
  render throw a \<open>TypeError\<close> at \<open>item.callid?.includes\<close>, where the spec asks filter
  evaluation to fail open. Such a state is reachable from mount.
\<close>

theorem callid_input_crashes_panel:
  assumes "x \<in> set (processedData s)"
    and "obj_get x ''callid'' = JNum n \<or> obj_get x ''callid'' = JBool b"
    and "passes_filters ((filters s)\<lparr>callidFilter := [], showOnlyErrors := False\<rparr>) x = Inr True"
    and "t \<noteq> []"
  shows "fst (panel_step s (FilterInput (CallidChange t))) = Inl TypeError"
proof -
  have "passes_filters ((filters s)\<lparr>callidFilter := t\<rparr>) x = Inl TypeError"
    using assms(2-4) by (auto simp: passes_filters_def callid_includes_def split: if_splits)
  then obtain e where "filter_messages ((filters s)\<lparr>callidFilter := t\<rparr>) (processedData s) = Inl e"
    using filter_messages_Inl [OF assms(1)] by blast
  then show ?thesis by (cases e) (simp add: render_effect_def)
qed

theorem callid_input_crashes_panel_witness:
  "\<exists>s. panel_reachable s \<and> ui_event s (FilterInput (CallidChange ''4'')) \<and>
       fst (panel_step s (FilterInput (CallidChange ''4''))) = Inl TypeError"
proof -
  let ?m = "[(''messageID'', JNum 0), (''source'', JStr ''A''), (''callid'', JNum 42),
             (''sourcePosition'', JNum 0), (''destinationPosition'', JNum 0), (''hash'', JStr ''msg_0_0'')]"
  let ?t0 = "\<lparr>processedData = [?m], filters = no_filters, showFilters = False, flowData = [?m],
              hosts = [JStr ''A'']\<rparr>"
  have p: "processed_data (\<lambda>_. 0) numeric_callid_data = [?m]"
    by (simp add: numeric_callid_data_def processed_eval js_eval)
  have m: "render_effect (initial_state (\<lambda>_. 0) numeric_callid_data) = Inr ?t0"
    by (simp add: initial_state_def render_effect_def p filter_eval extracted_hosts_def extract_facets_def positions_eval
        js_eval)
  have r0: "panel_reachable ?t0" by (rule panel_reachable.mount [OF m])
  have r: "panel_reachable (?t0\<lparr>showFilters := True\<rparr>)"
    by (rule panel_reachable.step [OF r0, where e = ToggleFilters]) (simp_all add: panel_step_eval)
  have "fst (panel_step (?t0\<lparr>showFilters := True\<rparr>) (FilterInput (CallidChange ''4''))) = Inl TypeError"
    by (rule callid_input_crashes_panel [where x = ?m and n = 42]) (simp_all add: filter_eval no_filters_def obj_get_def)
  moreover have "ui_event (?t0\<lparr>showFilters := True\<rparr>) (FilterInput (CallidChange ''4''))"
    by (simp add: ui_event_def typed_action_def)
  ultimately show ?thesis using r by blast
qed



end
