(* ===== verification/Template_Editor.thy ===== *)
theory Template_Editor
  imports Panel
begin

text \<open>
  The options editor \<open>TemplateEditor\<close> (\<open>TemplateEditor.tsx\<close>): a collapsible section
  whose only state is \<open>isOpen\<close>, holding a preview of the panel rendered from fixed mock
  props: a dataset with no series and options with every text field empty. The preview
  is the panel of \<open>Panel\<close> mounted on that data.
\<close>

record template_editor_state =
  isOpen :: bool

definition template_editor_initial :: template_editor_state where
  "template_editor_initial = \<lparr>isOpen = False\<rparr>"

definition template_toggle :: "template_editor_state \<Rightarrow> template_editor_state" where
  "template_toggle s = s\<lparr>isOpen := \<not> isOpen s\<rparr>"

definition mock_panel_data :: panel_data where
  "mock_panel_data = \<lparr>series = Some []\<rparr>"

definition mock_options :: flow_options where
  "mock_options =
     \<lparr>title = OptString [], aboveArrow = OptString [], belowArrow = OptString [], details = OptString [],
      sourceLabel = OptString [], destinationLabel = OptString [], source = OptString [],
      destination = OptString [], sortoption = SortNone, colorGenerator = OptString [],
      showbody = False, isSimplify = None\<rparr>"

definition template_preview :: "clock \<Rightarrow> js_error + panel_state" where
  "template_preview clk = render_effect (initial_state clk mock_panel_data)"

definition template_editor_view ::
  "js_library \<Rightarrow> template_editor_state \<Rightarrow> clock \<Rightarrow> (js_error + panel_view) option" where
  "template_editor_view lib s clk =
     (if isOpen s
      then Some (case template_preview clk of Inl e \<Rightarrow> Inl e | Inr p \<Rightarrow> panel_view lib p mock_options)
      else None)"

definition empty_panel :: panel_state where
  "empty_panel = \<lparr>processedData = [], filters = no_filters, showFilters = False, flowData = [], hosts = []\<rparr>"

lemma template_preview_state: "template_preview clk = Inr empty_panel"
  by (simp add: template_preview_def render_effect_def initial_state_def mock_panel_data_def
      processed_data_def extracted_hosts_def extract_facets_def js_sort_def empty_panel_def)

lemma template_preview_reachable: "panel_reachable empty_panel"
  using template_preview_state unfolding template_preview_def by (rule panel_reachable.mount)

subsection \<open>Properties\<close>

text \<open>
  The settings preview shows the empty state: the editor starts collapsed and
  renders nothing; once opened, the mocked panel renders without error, with the
  statistics \<open>" (0 of 0 messages)"\<close>, the filters collapsed and inactive, no host, and
  the text "No data received from query"; closing it again hides it.
\<close>

lemma template_preview_empty:
  "template_editor_view lib template_editor_initial clk = None \<and>
   template_editor_view lib (template_toggle template_editor_initial) clk =
     Some (Inr \<lparr>stats_text = '' (0 of 0 messages)'', toggle_label = ''Show Filters'',
                filter_section = Collapsed ''Filters '', host_headers = [],
                flow_content = EmptyState ''No data received from query''\<rparr>) \<and>
   template_editor_view lib (template_toggle (template_toggle template_editor_initial)) clk = None"
  by (simp add: template_editor_view_def template_preview_state template_toggle_def template_editor_initial_def
      panel_view_def flow_content_view_def empty_panel_def filter_panel_view_def filter_panel_props_of_def has_active_filters_def no_filters_def js_or_def
      extracted_hosts_def extract_facets_def js_sort_def available_methods_def nat_to_string.simps digit_char_def)

theorem panel_view_counts_witness:
  "\<exists>v. panel_view no_dates empty_panel mock_options = Inr v \<and> stats_text v = '' (0 of 0 messages)'' \<and>
       host_headers v = []"
  using panel_view_counts [OF template_preview_reachable, of no_dates mock_options]
  by (simp add: empty_panel_def nat_to_string.simps digit_char_def extracted_hosts_def extract_facets_def
      js_sort_def) blast

theorem numeric_method_crashes_panel_witness:
  "panel_view no_dates \<lparr>processedData = [numeric_method_message], filters = no_filters, showFilters = False,
                        flowData = [numeric_method_message], hosts = [JStr ''A'']\<rparr> mock_options = Inl TypeError"
  by (rule numeric_method_crashes_panel [OF numeric_method_reachable, where item = numeric_method_message])
     (simp_all add: numeric_method_message_def obj_get_def)

end
