(* ===== verification/Detail_Item.thy ===== *)
theory Detail_Item
  imports JS_Values
begin

text \<open>
  One row of the message-detail modal, \<open>DetailItem\<close> (\<open>DetailItem.tsx\<close>, lines
  23--82): a key/value pair shown either as a labelled block (JSON viewer or preformatted
  text) or as an inline row with a shortened label. The \<open>Date\<close> and \<open>JSON\<close>
  calls go through the library record \<open>js_library\<close> of \<open>JS_Values\<close>.
\<close>

definition is_timestamp :: "js_library \<Rightarrow> jsval \<Rightarrow> bool" where
  "is_timestamp lib v = (case date_time lib v of None \<Rightarrow> False | Some t \<Rightarrow> 0 < t)"

definition shown_value :: "js_library \<Rightarrow> jsval \<Rightarrow> jsval" where
  "shown_value lib v =
     (case date_time lib v of
        Some t \<Rightarrow> if 0 < t then JStr (iso_string lib t @ '' | '' @ js_to_string v) else v
      | None \<Rightarrow> v)"

text \<open>\<open>!!value?.includes('\n') || value?.length > 50\<close>: a number or boolean has no \<open>includes\<close>.\<close>

fun is_multi_line :: "jsval \<Rightarrow> js_error + bool" where
  "is_multi_line JUndefined = Inr False"
| "is_multi_line JNull = Inr False"
| "is_multi_line (JStr s) = Inr (CHR 0x0A \<in> set s \<or> 50 < length s)"
| "is_multi_line (JNum n) = Inl TypeError"
| "is_multi_line (JBool b) = Inl TypeError"

definition detail_label :: "string \<Rightarrow> string" where
  "detail_label key = (if 15 < length key then take 12 key @ ''...'' else key)"

definition detail_tooltip :: "string \<Rightarrow> jsval \<Rightarrow> jsval" where
  "detail_tooltip key tooltip = (if 15 < length key then JStr (key @ '': '' @ js_to_string tooltip) else tooltip)"

datatype detail_view =
    DetailNothing
  | JsonBlock string jsval jsval
  | PreBlock string jsval jsval
  | InlineRow string jsval jsval

definition detail_item :: "js_library \<Rightarrow> string \<Rightarrow> jsval \<Rightarrow> jsval \<Rightarrow> js_error + detail_view" where
  "detail_item lib key tooltip v =
     (let value = shown_value lib v;
          isJSON = json_object lib (js_to_string value)
      in case is_multi_line value of
           Inl e \<Rightarrow> Inl e
         | Inr isMultiLine \<Rightarrow>
             Inr (if \<not> js_truthy value then DetailNothing
                  else if isJSON then JsonBlock key tooltip value
                  else if isMultiLine then PreBlock key tooltip value
                  else InlineRow (detail_label key) (detail_tooltip key tooltip) value))"

subsection \<open>Lemmas\<close>

lemma length_detail_label: "length (detail_label key) \<le> 15"
  by (simp add: detail_label_def)

lemma detail_item_InlineRow:
  "detail_item lib key tooltip v = Inr (InlineRow l t w) \<Longrightarrow> l = detail_label key \<and> t = detail_tooltip key tooltip"
  by (auto simp: detail_item_def Let_def split: sum.splits if_splits)

subsection \<open>Properties\<close>

text \<open>
  C34. The inline label fits its column: a key of at most 15 characters is shown as it is,
  a longer one as its first 12 characters and an ellipsis (15 characters), with the full
  key moved into the tooltip.
\<close>

theorem inline_label_fits:
  assumes "detail_item lib key tooltip v = Inr (InlineRow l t w)"
  shows "length l \<le> 15 \<and> (length key \<le> 15 \<longrightarrow> l = key \<and> t = tooltip) \<and>
         (15 < length key \<longrightarrow> l = take 12 key @ ''...'' \<and> t = JStr (key @ '': '' @ js_to_string tooltip))"
  using detail_item_InlineRow [OF assms] length_detail_label [of key]
  by (auto simp: detail_label_def detail_tooltip_def)

theorem inline_label_fits_witness:
  "detail_item no_dates ''destinationPosition'' JUndefined (JStr ''B'') =
     Inr (InlineRow ''destinationP...'' (JStr ''destinationPosition: undefined'') (JStr ''B''))"
proof -
  have d: "detail_item no_dates ''destinationPosition'' JUndefined (JStr ''B'') =
             Inr (InlineRow (detail_label ''destinationPosition'')
                    (detail_tooltip ''destinationPosition'' JUndefined) (JStr ''B''))"
    by (simp add: detail_item_def no_dates_def shown_value_def)
  from inline_label_fits [OF d] d show ?thesis by (simp add: detail_label_def detail_tooltip_def)
qed

text \<open>
  C35. Numeric values break the row: a number that is not a positive time (every
  message's \<open>messageID\<close> 0, an endpoint position 0) reaches \<open>value?.includes\<close> and
  throws, and a positive number is taken for a time and shown as a date.
\<close>

theorem numeric_detail_value:
  "(n \<le> 0 \<longrightarrow> detail_item lib key tooltip (JNum n) = Inl TypeError) \<and>
   (0 < n \<and> n \<le> max_time \<longrightarrow>
      shown_value lib (JNum n) = JStr (iso_string lib n @ '' | '' @ int_to_string n))"
  by (auto simp: detail_item_def shown_value_def)

theorem numeric_detail_value_witness:
  "detail_item no_dates ''messageID'' JUndefined (JNum 0) = Inl TypeError \<and>
   shown_value no_dates (JNum 1) = JStr (iso_string no_dates 1 @ '' | '' @ int_to_string 1)"
  using numeric_detail_value [of 0 no_dates "''messageID''" JUndefined]
    numeric_detail_value [of 1 no_dates] by (simp add: max_time_def)

end
