(* ===== verification/Render_Cycle.thy ===== *)
theory Render_Cycle
  imports Panel
begin

text \<open>
  The React hooks of \<open>FlowVisualization\<close> at the level of object identity. \<open>useMemo\<close>
  returns its cached object while every dependency is the same object
  (\<open>Object.is\<close>) and recomputes otherwise; the effect of lines 224--228 runs after a
  commit whose dependencies changed and sets two state cells; a state update to a
  different object schedules another render. Objects are modelled as a reference (a
  number handed out by a counter) with their value; \<open>render_loop\<close> renders, commits and
  renders again while an update was scheduled. It is a \<open>partial_function\<close> in the
  option monad: \<open>None\<close> is a render loop that never settles.
\<close>

type_synonym ref = nat

record render_state =
  data_prop :: "ref \<times> panel_data"
  filters_state :: "ref \<times> filter_options"
  showFilters_state :: bool
  flowData_state :: "ref \<times> jsobj list"
  hosts_state :: "ref \<times> jsval list"
  processed_memo :: "(ref \<times> ref \<times> jsobj list) option"
  facets_memo :: "(ref \<times> ref \<times> (jsval list \<times> jsval list)) option"
  filtered_memo :: "((ref \<times> ref) \<times> ref \<times> jsobj list) option"
  effect_deps :: "(ref \<times> ref) option"
  next_ref :: ref

text \<open>
  \<open>useMemo(compute, deps)\<close>: a hit returns the cached object and does not run
  \<open>compute\<close>; a miss runs it (it may throw) and caches a fresh object.
\<close>

definition use_memo ::
  "'d \<Rightarrow> ('d \<times> ref \<times> 'v) option \<Rightarrow> js_error + 'v \<Rightarrow> ref \<Rightarrow>
   js_error + (ref \<times> 'v) \<times> ('d \<times> ref \<times> 'v) option \<times> ref" where
  "use_memo deps cell compute next =
     (case cell of
        Some (d, r, cached) \<Rightarrow>
          if d = deps then Inr ((r, cached), cell, next)
          else (case compute of Inl e \<Rightarrow> Inl e | Inr v \<Rightarrow> Inr ((next, v), Some (deps, next, v), Suc next))
      | None \<Rightarrow> (case compute of Inl e \<Rightarrow> Inl e | Inr v \<Rightarrow> Inr ((next, v), Some (deps, next, v), Suc next)))"

text \<open>
  One render: the three memos of lines 126--222 with their dependency lists
  \<open>[data]\<close>, \<open>[processedData]\<close> and \<open>[processedData, filters]\<close>. It returns the
  updated hook state with \<open>filteredData\<close> and \<open>extractedHosts\<close>, the effect's
  dependencies.
\<close>

definition render ::
  "clock \<Rightarrow> render_state \<Rightarrow> js_error + render_state \<times> (ref \<times> jsobj list) \<times> (ref \<times> jsval list)" where
  "render clk s =
     (case use_memo (fst (data_prop s)) (processed_memo s) (Inr (processed_data clk (snd (data_prop s))))
             (next_ref s) of
        Inl e \<Rightarrow> Inl e
      | Inr ((pref, processed), pm, n1) \<Rightarrow>
          (case use_memo pref (facets_memo s) (Inr (extract_facets processed)) n1 of
             Inl e \<Rightarrow> Inl e
           | Inr ((fref, facets), fm, n2) \<Rightarrow>
               (case use_memo (pref, fst (filters_state s)) (filtered_memo s)
                       (filter_messages (snd (filters_state s)) processed) n2 of
                  Inl e \<Rightarrow> Inl e
                | Inr (filtered, flm, n3) \<Rightarrow>
                    Inr (s\<lparr>processed_memo := pm, facets_memo := fm, filtered_memo := flm, next_ref := n3\<rparr>,
                         filtered, (fref, fst facets)))))"

text \<open>
  The commit: the effect \<open>setFlowData(filteredData); setHosts(extractedHosts)\<close> runs
  when its dependencies are not the objects of the last run; an update schedules a new
  render unless the new object is the one the cell holds.
\<close>

definition commit_effect ::
  "render_state \<Rightarrow> ref \<times> jsobj list \<Rightarrow> ref \<times> jsval list \<Rightarrow> render_state \<times> bool" where
  "commit_effect s filtered extractedHosts =
     (if effect_deps s = Some (fst filtered, fst extractedHosts) then (s, False)
      else (s\<lparr>effect_deps := Some (fst filtered, fst extractedHosts), flowData_state := filtered,
              hosts_state := extractedHosts\<rparr>,
            fst filtered \<noteq> fst (flowData_state s) \<or> fst extractedHosts \<noteq> fst (hosts_state s)))"

partial_function (option) render_loop :: "clock \<Rightarrow> render_state \<Rightarrow> (js_error + render_state) option" where
  "render_loop clk s =
     (case render clk s of
        Inl e \<Rightarrow> Some (Inl e)
      | Inr (s1, filtered, extractedHosts) \<Rightarrow>
          (case commit_effect s1 filtered extractedHosts of
             (s2, rerender) \<Rightarrow> if rerender then render_loop clk s2 else Some (Inr s2)))"

declare render_loop.simps [code]

subsection \<open>Mount and events\<close>

text \<open>
  Mounting creates the four state cells with their initial objects (lines 113--123)
  and empty caches. An event replaces an object and renders: new data from the host
  is a new \<open>data\<close> prop processed with the event's clock, a filter input is
  \<open>setFilters\<close> of the new options object that \<open>FilterPanel\<close> builds, the toggle is
  \<open>setShowFilters\<close>. A click or an export sets no state, so nothing renders.
\<close>

definition react_mount :: "panel_data \<Rightarrow> render_state" where
  "react_mount data =
     \<lparr>data_prop = (0, data), filters_state = (1, no_filters), showFilters_state = False,
      flowData_state = (2, []), hosts_state = (3, []), processed_memo = None, facets_memo = None,
      filtered_memo = None, effect_deps = None, next_ref = 4\<rparr>"

fun event_clock :: "clock \<Rightarrow> panel_event \<Rightarrow> clock" where
  "event_clock clk (DataRefresh data clk') = clk'"
| "event_clock clk e = clk"

fun react_step :: "clock \<Rightarrow> render_state \<Rightarrow> panel_event \<Rightarrow> (js_error + render_state) option" where
  "react_step clk s (DataRefresh data clk') =
     render_loop clk' (s\<lparr>data_prop := (next_ref s, data), next_ref := Suc (next_ref s)\<rparr>)"
| "react_step clk s (FilterInput a) =
     render_loop clk (s\<lparr>filters_state := (next_ref s, filter_panel_update (snd (filters_state s)) a),
                       next_ref := Suc (next_ref s)\<rparr>)"
| "react_step clk s ToggleFilters = render_loop clk (s\<lparr>showFilters_state := \<not> showFilters_state s\<rparr>)"
| "react_step clk s (ItemClick i) = Some (Inr s)"
| "react_step clk s (ExportRequest format) = Some (Inr s)"

subsection \<open>Relation to the value-level panel\<close>

text \<open>
  The panel state of \<open>Panel\<close> that a hook state stands for: the values of the state
  cells and the processed messages of the current data (\<open>clk\<close> is the clock the data
  was processed with).
\<close>

definition abs_state :: "clock \<Rightarrow> render_state \<Rightarrow> panel_state" where
  "abs_state clk s =
     \<lparr>processedData = processed_data clk (snd (data_prop s)), filters = snd (filters_state s),
      showFilters = showFilters_state s, flowData = snd (flowData_state s), hosts = snd (hosts_state s)\<rparr>"

text \<open>
  The caches are consistent: a cache whose dependencies are the current objects holds
  what its computation gives on them; the last effect run left the state cells holding
  the objects it was run with; every object in the state was allocated before
  \<open>next_ref\<close>, so a fresh object differs from all of them.
\<close>

definition refs_below :: "render_state \<Rightarrow> bool" where
  "refs_below s \<longleftrightarrow>
     fst (data_prop s) < next_ref s \<and> fst (filters_state s) < next_ref s \<and>
     fst (flowData_state s) < next_ref s \<and> fst (hosts_state s) < next_ref s \<and>
     pred_option (\<lambda>(d, r, v). d < next_ref s \<and> r < next_ref s) (processed_memo s) \<and>
     pred_option (\<lambda>(d, r, v). d < next_ref s \<and> r < next_ref s) (facets_memo s) \<and>
     pred_option (\<lambda>((d1, d2), r, v). d1 < next_ref s \<and> d2 < next_ref s \<and> r < next_ref s) (filtered_memo s) \<and>
     pred_option (\<lambda>(a, b). a < next_ref s \<and> b < next_ref s) (effect_deps s)"

definition memo_wf :: "clock \<Rightarrow> render_state \<Rightarrow> bool" where
  "memo_wf clk s \<longleftrightarrow>
     refs_below s \<and>
     pred_option (\<lambda>(d, r, v). d = fst (data_prop s) \<longrightarrow> v = processed_data clk (snd (data_prop s)))
       (processed_memo s) \<and>
     pred_option (\<lambda>(d, r, v). pred_option (\<lambda>(d', pr, pv). pr = d \<longrightarrow> v = extract_facets pv) (processed_memo s))
       (facets_memo s) \<and>
     pred_option (\<lambda>((d1, d2), r, v). d2 = fst (filters_state s) \<longrightarrow>
         pred_option (\<lambda>(d', pr, pv). pr = d1 \<longrightarrow> filter_messages (snd (filters_state s)) pv = Inr v)
           (processed_memo s))
       (filtered_memo s) \<and>
     pred_option (\<lambda>(a, b).
         pred_option (\<lambda>(d, r, v). r = a \<longrightarrow> flowData_state s = (a, v)) (filtered_memo s) \<and>
         pred_option (\<lambda>(d, r, v). r = b \<longrightarrow> hosts_state s = (b, fst v)) (facets_memo s))
       (effect_deps s)"

subsection \<open>The settled state\<close>

text \<open>
  A settled hook state: caches consistent, and the state cells hold what the render
  computes from them (the panel state it stands for is a fixed point of the effect).
\<close>

definition react_synced :: "clock \<Rightarrow> render_state \<Rightarrow> bool" where
  "react_synced clk s \<longleftrightarrow> memo_wf clk s \<and> render_effect (abs_state clk s) = Inr (abs_state clk s)"

subsection \<open>A second render changes nothing\<close>

lemma use_memo_hit:
  "use_memo deps cell compute next = Inr (rv, cell', n) \<Longrightarrow>
   use_memo deps cell' compute' next' = Inr (rv, cell', next')"
  by (auto simp: use_memo_def split: option.splits if_splits sum.splits)

lemma render_again:
  assumes "render clk s = Inr (s1, filtered, extractedHosts)"
    and "data_prop t = data_prop s1" and "filters_state t = filters_state s1"
    and "processed_memo t = processed_memo s1" and "facets_memo t = facets_memo s1"
    and "filtered_memo t = filtered_memo s1"
  shows "render clk t = Inr (t, filtered, extractedHosts)"
proof -
  obtain pref processed pm n1 fref facets fm n2 flm n3 where
    m1: "use_memo (fst (data_prop s)) (processed_memo s) (Inr (processed_data clk (snd (data_prop s))))
           (next_ref s) = Inr ((pref, processed), pm, n1)"
    and m2: "use_memo pref (facets_memo s) (Inr (extract_facets processed)) n1 = Inr ((fref, facets), fm, n2)"
    and m3: "use_memo (pref, fst (filters_state s)) (filtered_memo s)
               (filter_messages (snd (filters_state s)) processed) n2 = Inr (filtered, flm, n3)"
    and s1: "s1 = s\<lparr>processed_memo := pm, facets_memo := fm, filtered_memo := flm, next_ref := n3\<rparr>"
    and h: "extractedHosts = (fref, fst facets)"
    using assms(1) by (auto simp: render_def split: sum.splits prod.splits)
  have "use_memo (fst (data_prop t)) (processed_memo t) (Inr (processed_data clk (snd (data_prop t))))
          (next_ref t) = Inr ((pref, processed), pm, next_ref t)"
    using use_memo_hit [OF m1] assms(2,4) s1 by simp
  moreover have "use_memo pref (facets_memo t) (Inr (extract_facets processed)) (next_ref t) =
                   Inr ((fref, facets), fm, next_ref t)"
    using use_memo_hit [OF m2] assms(5) s1 by simp
  moreover have "use_memo (pref, fst (filters_state t)) (filtered_memo t)
                   (filter_messages (snd (filters_state t)) processed) (next_ref t) = Inr (filtered, flm, next_ref t)"
    using use_memo_hit [OF m3] assms(3,6) s1 by simp
  ultimately show ?thesis using assms(4-6) s1 h by (simp add: render_def)
qed

lemma commit_effect_rerender:
  "commit_effect s filtered extractedHosts = (s', True) \<Longrightarrow>
   s' = s\<lparr>effect_deps := Some (fst filtered, fst extractedHosts), flowData_state := filtered,
           hosts_state := extractedHosts\<rparr>"
  by (auto simp: commit_effect_def split: if_splits)

lemma commit_effect_settled:
  "effect_deps s = Some (fst filtered, fst extractedHosts) \<Longrightarrow> commit_effect s filtered extractedHosts = (s, False)"
  by (simp add: commit_effect_def)

subsection \<open>One render keeps the caches consistent\<close>

lemma use_memo_Inr:
  assumes "use_memo deps cell compute next = Inr (rv, cell', next')"
  shows "cell' = Some (deps, fst rv, snd rv) \<and>
         (cell = cell' \<and> next' = next \<or> compute = Inr (snd rv) \<and> fst rv = next \<and> next' = Suc next)"
  using assms by (auto simp: use_memo_def split: option.splits if_splits sum.splits)

lemma use_memo_Inl: "use_memo deps cell compute next = Inl e \<Longrightarrow> compute = Inl e"
  by (auto simp: use_memo_def split: option.splits if_splits sum.splits)

lemma use_memo_miss:
  "pred_option (\<lambda>(d, r, v). d \<noteq> deps) cell \<Longrightarrow> compute = Inr v \<Longrightarrow>
   use_memo deps cell compute next = Inr ((next, v), Some (deps, next, v), Suc next)"
  by (auto simp: use_memo_def split: option.splits)

lemma memo_wfD:
  assumes "memo_wf clk s"
  shows wf_processed: "\<And>d r v. processed_memo s = Some (d, r, v) \<Longrightarrow> d = fst (data_prop s) \<Longrightarrow>
           v = processed_data clk (snd (data_prop s))"
    and wf_facets: "\<And>d r v d' pv. facets_memo s = Some (d, r, v) \<Longrightarrow> processed_memo s = Some (d', d, pv) \<Longrightarrow>
           v = extract_facets pv"
    and wf_filtered: "\<And>d1 r v d' pv. filtered_memo s = Some ((d1, fst (filters_state s)), r, v) \<Longrightarrow>
           processed_memo s = Some (d', d1, pv) \<Longrightarrow> filter_messages (snd (filters_state s)) pv = Inr v"
    and wf_effect_flow: "\<And>a b d v. effect_deps s = Some (a, b) \<Longrightarrow> filtered_memo s = Some (d, a, v) \<Longrightarrow>
           flowData_state s = (a, v)"
    and wf_effect_hosts: "\<And>a b d v. effect_deps s = Some (a, b) \<Longrightarrow> facets_memo s = Some (d, b, v) \<Longrightarrow>
           hosts_state s = (b, fst v)"
    and wf_refs: "refs_below s"
  using assms by (auto simp: memo_wf_def)

lemma memo_wfI:
  assumes "refs_below s"
    and "\<And>d r v. processed_memo s = Some (d, r, v) \<Longrightarrow> d = fst (data_prop s) \<Longrightarrow>
           v = processed_data clk (snd (data_prop s))"
    and "\<And>d r v d' pv. facets_memo s = Some (d, r, v) \<Longrightarrow> processed_memo s = Some (d', d, pv) \<Longrightarrow>
           v = extract_facets pv"
    and "\<And>d1 r v d' pv. filtered_memo s = Some ((d1, fst (filters_state s)), r, v) \<Longrightarrow>
           processed_memo s = Some (d', d1, pv) \<Longrightarrow> filter_messages (snd (filters_state s)) pv = Inr v"
    and "\<And>a b d v. effect_deps s = Some (a, b) \<Longrightarrow> filtered_memo s = Some (d, a, v) \<Longrightarrow>
           flowData_state s = (a, v)"
    and "\<And>a b d v. effect_deps s = Some (a, b) \<Longrightarrow> facets_memo s = Some (d, b, v) \<Longrightarrow>
           hosts_state s = (b, fst v)"
  shows "memo_wf clk s"
  using assms unfolding memo_wf_def
  by (auto simp: pred_option_def split: option.splits)

lemma refs_belowD:
  assumes "refs_below s"
  shows "processed_memo s = Some pm \<Longrightarrow> fst pm < next_ref s \<and> fst (snd pm) < next_ref s"
    and "facets_memo s = Some fm \<Longrightarrow> fst fm < next_ref s \<and> fst (snd fm) < next_ref s"
    and "filtered_memo s = Some lm \<Longrightarrow> fst (fst lm) < next_ref s \<and> snd (fst lm) < next_ref s \<and> fst (snd lm) < next_ref s"
    and "effect_deps s = Some ed \<Longrightarrow> fst ed < next_ref s \<and> snd ed < next_ref s"
  using assms by (auto simp: refs_below_def pred_option_def split: prod.splits)

lemma render_correct:
  assumes wf: "memo_wf clk s" and r: "render clk s = Inr (s1, filtered, extractedHosts)"
  shows "filter_messages (snd (filters_state s)) (processed_data clk (snd (data_prop s))) = Inr (snd filtered) \<and>
         snd extractedHosts = extracted_hosts (processed_data clk (snd (data_prop s))) \<and>
         memo_wf clk s1 \<and>
         s1 = s\<lparr>processed_memo := processed_memo s1, facets_memo := facets_memo s1,
                filtered_memo := filtered_memo s1, next_ref := next_ref s1\<rparr> \<and>
         (\<exists>d. filtered_memo s1 = Some (d, fst filtered, snd filtered)) \<and>
         (\<exists>d ms. facets_memo s1 = Some (d, fst extractedHosts, (snd extractedHosts, ms)))"
proof -
  let ?P = "processed_data clk (snd (data_prop s))"
  obtain pref pv pm n1 fref fv fm n2 flm n3 where
    m1: "use_memo (fst (data_prop s)) (processed_memo s) (Inr ?P) (next_ref s) = Inr ((pref, pv), pm, n1)"
    and m2: "use_memo pref (facets_memo s) (Inr (extract_facets pv)) n1 = Inr ((fref, fv), fm, n2)"
    and m3: "use_memo (pref, fst (filters_state s)) (filtered_memo s)
               (filter_messages (snd (filters_state s)) pv) n2 = Inr (filtered, flm, n3)"
    and s1: "s1 = s\<lparr>processed_memo := pm, facets_memo := fm, filtered_memo := flm, next_ref := n3\<rparr>"
    and h: "extractedHosts = (fref, fst fv)"
    using r by (auto simp: render_def split: sum.splits prod.splits)
  have rb: "refs_below s" using wf by (rule wf_refs)
  from use_memo_Inr [OF m1] have pm: "pm = Some (fst (data_prop s), pref, pv)"
    and c1: "processed_memo s = pm \<and> n1 = next_ref s \<or> ?P = pv \<and> pref = next_ref s \<and> n1 = Suc (next_ref s)"
    by auto
  have pv: "pv = ?P" using c1 wf_processed [OF wf] pm by auto
  from use_memo_Inr [OF m2] have fm: "fm = Some (pref, fref, fv)"
    and c2: "facets_memo s = fm \<and> n2 = n1 \<or> extract_facets pv = fv \<and> fref = n1 \<and> n2 = Suc n1"
    by auto
  have fv: "fv = extract_facets pv"
    using c2
  proof
    assume hit: "facets_memo s = fm \<and> n2 = n1"
    then have "pref < next_ref s" using refs_belowD(2) [OF rb] fm by fastforce
    then have "processed_memo s = pm" using c1 by auto
    then show ?thesis using wf_facets [OF wf] hit fm pm by auto
  qed auto
  from use_memo_Inr [OF m3] have flm: "flm = Some ((pref, fst (filters_state s)), fst filtered, snd filtered)"
    and c3: "filtered_memo s = flm \<and> n3 = n2 \<or>
             filter_messages (snd (filters_state s)) pv = Inr (snd filtered) \<and> fst filtered = n2 \<and> n3 = Suc n2"
    by auto
  have fl: "filter_messages (snd (filters_state s)) pv = Inr (snd filtered)"
    using c3
  proof
    assume hit: "filtered_memo s = flm \<and> n3 = n2"
    then have "pref < next_ref s" using refs_belowD(3) [OF rb] flm by fastforce
    then have "processed_memo s = pm" using c1 by auto
    then show ?thesis
      using wf_filtered [OF wf, of pref "fst filtered" "snd filtered" "fst (data_prop s)" pv] hit flm pm by auto
  qed auto
  have mono: "next_ref s \<le> n1" "n1 \<le> n2" "n2 \<le> n3" using c1 c2 c3 by auto
  have b1: "pref < n1" using c1 refs_belowD(1) [OF rb] pm by fastforce
  have b2: "fref < n2" using c2 refs_belowD(2) [OF rb] fm mono by fastforce
  have b3: "fst filtered < n3" using c3 refs_belowD(3) [OF rb] flm mono by fastforce
  have wf1: "memo_wf clk s1"
  proof (rule memo_wfI)
    show "refs_below s1"
      using rb mono b1 b2 b3 unfolding s1 refs_below_def pm fm flm
      by (auto simp: pred_option_def split: option.splits)
  next
    fix a b d v
    assume "effect_deps s1 = Some (a, b)" "filtered_memo s1 = Some (d, a, v)"
    then show "flowData_state s1 = (a, v)"
      using c3 mono refs_belowD(4) [OF rb] wf_effect_flow [OF wf] unfolding s1 flm by fastforce
  next
    fix a b d v
    assume "effect_deps s1 = Some (a, b)" "facets_memo s1 = Some (d, b, v)"
    then show "hosts_state s1 = (b, fst v)"
      using c2 mono refs_belowD(4) [OF rb] wf_effect_hosts [OF wf] unfolding s1 fm by fastforce
  qed (use pm pv fm fv flm fl s1 in auto)
  show ?thesis
    using fl pv fv wf1 s1 h flm fm by (auto simp: extracted_hosts_def prod_eq_iff)
qed

lemma render_Inl:
  assumes wf: "memo_wf clk s" and r: "render clk s = Inl e"
  shows "filter_messages (snd (filters_state s)) (processed_data clk (snd (data_prop s))) = Inl e"
proof -
  let ?P = "processed_data clk (snd (data_prop s))"
  obtain pref pv pm n1 where
    m1: "use_memo (fst (data_prop s)) (processed_memo s) (Inr ?P) (next_ref s) = Inr ((pref, pv), pm, n1)"
    using r use_memo_Inl by (fastforce simp: render_def split: sum.splits)
  obtain fref fv fm n2 where
    m2: "use_memo pref (facets_memo s) (Inr (extract_facets pv)) n1 = Inr ((fref, fv), fm, n2)"
    using r m1 use_memo_Inl by (fastforce simp: render_def split: sum.splits)
  have m3: "use_memo (pref, fst (filters_state s)) (filtered_memo s)
              (filter_messages (snd (filters_state s)) pv) n2 = Inl e"
    using r m1 m2 by (auto simp: render_def split: sum.splits)
  from use_memo_Inr [OF m1] have "processed_memo s = Some (fst (data_prop s), pref, pv) \<or> pv = ?P"
    by auto
  then have "pv = ?P" using wf_processed [OF wf] by auto
  with use_memo_Inl [OF m3] show ?thesis by simp
qed

lemma commit_correct:
  assumes wf: "memo_wf clk s"
    and fl: "filtered_memo s = Some (d, fst filtered, snd filtered)"
    and fc: "facets_memo s = Some (d', fst extractedHosts, (snd extractedHosts, ms))"
    and c: "commit_effect s filtered extractedHosts = (s2, rerender)"
  shows "memo_wf clk s2 \<and>
         s2 = s\<lparr>effect_deps := effect_deps s2, flowData_state := filtered, hosts_state := extractedHosts\<rparr>"
proof (cases "effect_deps s = Some (fst filtered, fst extractedHosts)")
  case True
  then have "flowData_state s = filtered" "hosts_state s = extractedHosts"
    using wf_effect_flow [OF wf True fl] wf_effect_hosts [OF wf True fc] by simp_all
  with True c wf show ?thesis by (simp add: commit_effect_def)
next
  case False
  with c have s2: "s2 = s\<lparr>effect_deps := Some (fst filtered, fst extractedHosts), flowData_state := filtered,
                            hosts_state := extractedHosts\<rparr>"
    by (simp add: commit_effect_def)
  have rb: "refs_below s" using wf by (rule wf_refs)
  have "fst filtered < next_ref s" "fst extractedHosts < next_ref s"
    using refs_belowD(3) [OF rb fl] refs_belowD(2) [OF rb fc] by simp_all
  then have "memo_wf clk s2"
    using wf fl fc unfolding s2 memo_wf_def refs_below_def by (auto simp: prod_eq_iff)
  with s2 show ?thesis by simp
qed

lemma render_effect_cong:
  "processedData p = processedData q \<Longrightarrow> filters p = filters q \<Longrightarrow> showFilters p = showFilters q \<Longrightarrow>
   render_effect p = render_effect q"
  by (cases p, cases q) (simp add: render_effect_def split: sum.split)

lemma render_round:
  assumes wf: "memo_wf clk s" and r: "render clk s = Inr (s1, filtered, extractedHosts)"
    and c: "commit_effect s1 filtered extractedHosts = (s2, rerender)"
  shows "memo_wf clk s2 \<and> render_effect (abs_state clk s) = Inr (abs_state clk s2) \<and>
         render_effect (abs_state clk s2) = render_effect (abs_state clk s)"
proof -
  note rc = render_correct [OF wf r]
  obtain d d' ms where fl: "filtered_memo s1 = Some (d, fst filtered, snd filtered)"
    and fc: "facets_memo s1 = Some (d', fst extractedHosts, (snd extractedHosts, ms))"
    using rc by blast
  have s1: "s1 = s\<lparr>processed_memo := processed_memo s1, facets_memo := facets_memo s1,
                   filtered_memo := filtered_memo s1, next_ref := next_ref s1\<rparr>"
    using rc by blast
  have cc: "memo_wf clk s2 \<and>
       s2 = s1\<lparr>effect_deps := effect_deps s2, flowData_state := filtered, hosts_state := extractedHosts\<rparr>"
    using commit_correct [OF _ fl fc c] rc by blast
  then have e2: "s2 = s1\<lparr>effect_deps := effect_deps s2, flowData_state := filtered, hosts_state := extractedHosts\<rparr>"
    by blast
  have f1: "data_prop s1 = data_prop s" "filters_state s1 = filters_state s" "showFilters_state s1 = showFilters_state s"
    using arg_cong [OF s1, of data_prop] arg_cong [OF s1, of filters_state] arg_cong [OF s1, of showFilters_state]
    by simp_all
  have f2: "data_prop s2 = data_prop s1" "filters_state s2 = filters_state s1"
    "showFilters_state s2 = showFilters_state s1" "flowData_state s2 = filtered" "hosts_state s2 = extractedHosts"
    using arg_cong [OF e2, of data_prop] arg_cong [OF e2, of filters_state] arg_cong [OF e2, of showFilters_state]
      arg_cong [OF e2, of flowData_state] arg_cong [OF e2, of hosts_state]
    by simp_all
  have abs2: "abs_state clk s2 = (abs_state clk s)\<lparr>flowData := snd filtered, hosts := snd extractedHosts\<rparr>"
    using f1 f2 by (simp add: abs_state_def)
  have "render_effect (abs_state clk s) =
          Inr ((abs_state clk s)\<lparr>flowData := snd filtered, hosts := snd extractedHosts\<rparr>)"
    using rc by (simp add: render_effect_def abs_state_def)
  then have "render_effect (abs_state clk s) = Inr (abs_state clk s2)" by (simp only: abs2)
  moreover have "render_effect (abs_state clk s2) = render_effect (abs_state clk s)"
    by (rule render_effect_cong) (simp_all add: abs2)
  ultimately show ?thesis using cc by simp
qed

lemma render_loop_refines:
  assumes wf: "memo_wf clk s" and ret: "render_loop clk s = Some r"
  shows "map_sum id (abs_state clk) r = render_effect (abs_state clk s) \<and>
         (\<forall>s'. r = Inr s' \<longrightarrow> memo_wf clk s')"
proof -
  have "memo_wf clk s \<longrightarrow> map_sum id (abs_state clk) r = render_effect (abs_state clk s) \<and>
          (\<forall>s'. r = Inr s' \<longrightarrow> memo_wf clk s')"
  proof (rule render_loop.raw_induct [where P = "\<lambda>clk s r. memo_wf clk s \<longrightarrow>
            map_sum id (abs_state clk) r = render_effect (abs_state clk s) \<and> (\<forall>s'. r = Inr s' \<longrightarrow> memo_wf clk s')",
          OF _ ret])
    fix f clk s r
    assume IH: "\<And>clk s r. f clk s = Some r \<Longrightarrow> memo_wf clk s \<longrightarrow>
                  map_sum id (abs_state clk) r = render_effect (abs_state clk s) \<and> (\<forall>s'. r = Inr s' \<longrightarrow> memo_wf clk s')"
      and eq: "(case render clk s of
                  Inl e \<Rightarrow> Some (Inl e)
                | Inr (s1, filtered, extractedHosts) \<Rightarrow>
                    (case commit_effect s1 filtered extractedHosts of
                       (s2, rerender) \<Rightarrow> if rerender then f clk s2 else Some (Inr s2))) = Some r"
    show "memo_wf clk s \<longrightarrow> map_sum id (abs_state clk) r = render_effect (abs_state clk s) \<and>
            (\<forall>s'. r = Inr s' \<longrightarrow> memo_wf clk s')"
    proof
      assume wf: "memo_wf clk s"
      show "map_sum id (abs_state clk) r = render_effect (abs_state clk s) \<and> (\<forall>s'. r = Inr s' \<longrightarrow> memo_wf clk s')"
      proof (cases "render clk s")
        case (Inl e)
        with eq have "r = Inl e" by simp
        with render_Inl [OF wf Inl] show ?thesis by (simp add: render_effect_def abs_state_def)
      next
        case (Inr res)
        obtain s1 filtered extractedHosts where res: "res = (s1, filtered, extractedHosts)" by (cases res)
        obtain s2 rerender where c: "commit_effect s1 filtered extractedHosts = (s2, rerender)" by fastforce
        note round = render_round [OF wf Inr [unfolded res] c]
        show ?thesis
        proof (cases rerender)
          case True
          with eq Inr res c have "f clk s2 = Some r" by simp
          with IH round show ?thesis by simp
        next
          case False
          with eq Inr res c have "r = Inr s2" by simp
          with round show ?thesis by simp
        qed
      qed
    qed
  qed
  with wf show ?thesis by blast
qed

lemma render_effect_idem: "render_effect p = Inr q \<Longrightarrow> render_effect q = Inr q"
  by (cases p) (auto simp: render_effect_def split: sum.splits)

lemma render_effect_toggle:
  "render_effect p = Inr p \<Longrightarrow> render_effect (p\<lparr>showFilters := b\<rparr>) = Inr (p\<lparr>showFilters := b\<rparr>)"
  by (cases p) (auto simp: render_effect_def split: sum.splits)

lemma react_mount_wf: "memo_wf clk (react_mount data)"
  by (simp add: memo_wf_def refs_below_def react_mount_def)

lemma new_data_wf:
  "memo_wf clk s \<Longrightarrow> memo_wf clk' (s\<lparr>data_prop := (next_ref s, data), next_ref := Suc (next_ref s)\<rparr>)"
  unfolding memo_wf_def refs_below_def
  by (auto simp: pred_option_def split: option.splits)

lemma new_filters_wf:
  "memo_wf clk s \<Longrightarrow> memo_wf clk (s\<lparr>filters_state := (next_ref s, fo), next_ref := Suc (next_ref s)\<rparr>)"
  unfolding memo_wf_def refs_below_def
  by (auto simp: pred_option_def split: option.splits)

lemma toggle_wf: "memo_wf clk s \<Longrightarrow> memo_wf clk (s\<lparr>showFilters_state := b\<rparr>)"
  unfolding memo_wf_def refs_below_def by simp

lemma loop_synced:
  assumes "memo_wf clk s" and "render_loop clk s = Some r"
  shows "map_sum id (abs_state clk) r = render_effect (abs_state clk s) \<and>
         (\<forall>s'. r = Inr s' \<longrightarrow> react_synced clk s')"
  using render_loop_refines [OF assms] render_effect_idem by (auto simp: react_synced_def)

subsection \<open>Properties\<close>

text \<open>
  C6. The render loop of the panel always settles, after at most two renders: the
  render after the effect finds every memo's dependencies unchanged, gets the same
  objects back, skips the effect and schedules nothing. So the loop's result is that of
  one render followed by one commit.
\<close>

theorem render_loop_settles:
  "render_loop clk s =
     (case render clk s of
        Inl e \<Rightarrow> Some (Inl e)
      | Inr (s1, filtered, extractedHosts) \<Rightarrow> Some (Inr (fst (commit_effect s1 filtered extractedHosts))))"
proof (cases "render clk s")
  case (Inr r)
  obtain s1 filtered extractedHosts where r: "r = (s1, filtered, extractedHosts)" by (cases r)
  obtain s2 rerender where c: "commit_effect s1 filtered extractedHosts = (s2, rerender)" by fastforce
  show ?thesis
  proof (cases rerender)
    case True
    with c have s2: "s2 = s1\<lparr>effect_deps := Some (fst filtered, fst extractedHosts), flowData_state := filtered,
                               hosts_state := extractedHosts\<rparr>"
      by (simp add: commit_effect_rerender)
    have "render clk s2 = Inr (s2, filtered, extractedHosts)"
      by (rule render_again [OF Inr [unfolded r]]) (simp_all add: s2)
    moreover have "commit_effect s2 filtered extractedHosts = (s2, False)"
      by (rule commit_effect_settled) (simp add: s2)
    ultimately have "render_loop clk s2 = Some (Inr s2)" by (simp add: render_loop.simps)
    with Inr r c True show ?thesis by (simp add: render_loop.simps)
  next
    case False
    with Inr r c show ?thesis by (simp add: render_loop.simps)
  qed
qed (simp add: render_loop.simps)

text \<open>
  C5. The React component implements the panel model: from a settled hook state, every
  event (new data, filter input, toggle, click, export) followed by the render loop
  ends in the state, or the error, that the value-level step \<open>panel_step\<close> of
  \<open>Panel\<close> gives, and again in a settled state. So the identity-based memos and the
  effect compute exactly what the panel model says.
\<close>

theorem react_step_refines:
  assumes syn: "react_synced clk s" and ret: "react_step clk s e = Some r"
  shows "map_sum id (abs_state (event_clock clk e)) r = fst (panel_step (abs_state clk s) e) \<and>
         (\<forall>s'. r = Inr s' \<longrightarrow> react_synced (event_clock clk e) s')"
proof -
  have wf: "memo_wf clk s" and fxp: "render_effect (abs_state clk s) = Inr (abs_state clk s)"
    using syn by (simp_all add: react_synced_def)
  show ?thesis
  proof (cases e)
    case (DataRefresh data clk')
    let ?s = "s\<lparr>data_prop := (next_ref s, data), next_ref := Suc (next_ref s)\<rparr>"
    have "abs_state clk' ?s = (abs_state clk s)\<lparr>processedData := processed_data clk' data\<rparr>"
      by (simp add: abs_state_def)
    with loop_synced [OF new_data_wf [OF wf] ret [unfolded DataRefresh react_step.simps]] DataRefresh
    show ?thesis by simp
  next
    case (FilterInput a)
    let ?s = "s\<lparr>filters_state := (next_ref s, filter_panel_update (snd (filters_state s)) a),
                next_ref := Suc (next_ref s)\<rparr>"
    have "abs_state clk ?s = (abs_state clk s)\<lparr>filters := filter_panel_update (filters (abs_state clk s)) a\<rparr>"
      by (simp add: abs_state_def)
    with loop_synced [OF new_filters_wf [OF wf] ret [unfolded FilterInput react_step.simps]] FilterInput
    show ?thesis by simp
  next
    case ToggleFilters
    let ?s = "s\<lparr>showFilters_state := \<not> showFilters_state s\<rparr>"
    have a: "abs_state clk ?s = (abs_state clk s)\<lparr>showFilters := \<not> showFilters (abs_state clk s)\<rparr>"
      by (simp add: abs_state_def)
    have "render_effect (abs_state clk ?s) = Inr (abs_state clk ?s)"
      unfolding a by (rule render_effect_toggle [OF fxp])
    with a loop_synced [OF toggle_wf [OF wf] ret [unfolded ToggleFilters react_step.simps]] ToggleFilters
    show ?thesis by simp
  qed (use ret syn in auto)
qed

theorem react_step_refines_witness:
  "map_sum id (abs_state (\<lambda>_. 0))
     (Inr ((react_mount \<lparr>series = None\<rparr>)\<lparr>showFilters_state := True, flowData_state := (6, []),
        hosts_state := (5, []), processed_memo := Some (0, 4, []), facets_memo := Some (4, 5, ([], [])),
        filtered_memo := Some ((4, 1), 6, []), effect_deps := Some (6, 5), next_ref := 7\<rparr>)) =
   fst (panel_step (abs_state (\<lambda>_. 0)
     ((react_mount \<lparr>series = None\<rparr>)\<lparr>flowData_state := (6, []), hosts_state := (5, []),
        processed_memo := Some (0, 4, []), facets_memo := Some (4, 5, ([], [])),
        filtered_memo := Some ((4, 1), 6, []), effect_deps := Some (6, 5), next_ref := 7\<rparr>)) ToggleFilters)"
proof -
  let ?t = "(react_mount \<lparr>series = None\<rparr>)\<lparr>flowData_state := (6, []), hosts_state := (5, []),
        processed_memo := Some (0, 4, []), facets_memo := Some (4, 5, ([], [])),
        filtered_memo := Some ((4, 1), 6, []), effect_deps := Some (6, 5), next_ref := 7\<rparr>"
  have syn: "react_synced (\<lambda>_. 0) ?t"
    by (simp add: react_synced_def memo_wf_def refs_below_def react_mount_def abs_state_def render_effect_def
        processed_data_def extracted_hosts_def extract_facets_def js_sort_def)
  have st: "react_step (\<lambda>_. 0) ?t ToggleFilters = Some (Inr (?t\<lparr>showFilters_state := True\<rparr>))"
    by (simp add: render_loop.simps render_def use_memo_def commit_effect_def react_mount_def)
  from react_step_refines [OF syn st] show ?thesis by (simp add: abs_state_def react_mount_def)
qed

end
