(* ===== verification/Facet_Selection.thy ===== *)
theory Facet_Selection
  imports Template_Editor
begin

text \<open>
  How the Facet Extractor, the Filter Panel and the Filter Evaluator work together in
  \<open>FlowVisualization\<close>. The facets of the unfiltered messages are the options of the
  filter controls (lines 280--288 pass \<open>availableMethods\<close> and \<open>extractedHosts\<close> to
  \<open>FilterPanel\<close>); choosing one sends an action through \<open>onFiltersChange\<close>, and the
  effect refilters the messages. The theorems follow one choice from the rendered
  control to the new list on screen.
\<close>

text \<open>
  A panel state with one message from \<open>A\<close> to \<open>B\<close>, the filters shown and none set:
  \<open>B\<close> is an endpoint only as a destination.
\<close>

definition invite_message :: jsobj where
  "invite_message = [(''source'', JStr ''A''), (''destination'', JStr ''B''), (''method'', JStr ''INVITE''),
                     (''hash'', JStr ''h'')]"

definition invite_panel :: panel_state where
  "invite_panel = \<lparr>processedData = [invite_message], filters = no_filters, showFilters = True,
                    flowData = [invite_message], hosts = [JStr ''A'', JStr ''B'']\<rparr>"

subsection \<open>Lemmas\<close>

lemma panel_view_filter_section:
  "panel_view lib s options = Inr v \<Longrightarrow> filter_section v = filter_panel_view (filter_panel_props_of s)"
  by (auto simp: panel_view_def split: sum.splits)

lemma expanded_panel_offers:
  assumes "filter_panel_view (filter_panel_props_of s) = Expanded ev"
  shows "source_options ev = select_options ''All sources'' (extracted_hosts (processedData s))"
    and "destination_options ev = select_options ''All destinations'' (extracted_hosts (processedData s))"
    and "method_checkboxes ev = map (\<lambda>m. (m, m \<in> set (methodFilter (filters s)))) (available_methods (processedData s))"
  using assms by (auto simp: filter_panel_view_def filter_panel_props_of_def Let_def split: if_splits)

lemma set_extracted_hosts: "set (extracted_hosts ms) = endpoints ms"
  by (simp add: extracted_hosts_eq collect_hosts_set)

lemma select_option_value:
  "(label, value) \<in> set (select_options all_label available) \<Longrightarrow> value = JStr [] \<or> value \<in> set available"
  by (auto simp: select_options_def)

lemma select_value_offered:
  "value = JStr [] \<or> js_truthy value \<Longrightarrow> select_value (Some value) = value"
  by (auto simp: select_value_def js_or_def)

lemma filter_messages_pred:
  "(\<And>x. passes_filters f x = Inr (P x)) \<Longrightarrow> filter_messages f ms = Inr (filter P ms)"
  by (induction ms) simp_all

lemma passes_method_only:
  "passes_filters (no_filters\<lparr>methodFilter := [m]\<rparr>) x = Inr (obj_get x ''method'' = m)"
  by (simp add: passes_filters_def no_filters_def passes_error_filter_def)

lemma passes_source_only:
  "passes_filters (no_filters\<lparr>sourceFilter := v\<rparr>) x = Inr (\<not> js_truthy v \<or> obj_get x ''source'' = v)"
  by (simp add: passes_filters_def no_filters_def passes_error_filter_def)

lemma filter_input_step:
  "filter_messages (filter_panel_update (filters s) a) (processedData s) = Inr fl \<Longrightarrow>
   panel_step s (FilterInput a) =
     (Inr (s\<lparr>filters := filter_panel_update (filters s) a, flowData := fl,
             hosts := extracted_hosts (processedData s)\<rparr>), [])"
  by (simp add: render_effect_def)

lemma panel_view_exists:
  assumes "filter_messages (filters s) (processedData s) = Inr fl"
    and "\<forall>item \<in> set (flowData s). \<exists>c. item_method_color item = Inr c"
  shows "\<exists>v. panel_view lib s options = Inr v \<and> filter_section v = filter_panel_view (filter_panel_props_of s) \<and>
             (flow_content v = EmptyState ''All messages filtered out'' \<longleftrightarrow> flowData s = [] \<and> processedData s \<noteq> [])"
  using flow_content_view_Inr [OF assms(2), of lib options] assms(1) by (auto simp: panel_view_def)

lemma invite_panel_view:
  "\<exists>v. panel_view lib invite_panel options = Inr v \<and> filter_section v = filter_panel_view (filter_panel_props_of invite_panel)"
proof -
  have "filter_messages (filters invite_panel) (processedData invite_panel) = Inr [invite_message]"
    by (simp add: invite_panel_def passes_no_filters)
  then show ?thesis using panel_view_exists [where lib = lib and options = options]
    by (fastforce simp: invite_panel_def invite_message_def item_method_color_def obj_get_def js_or_def)
qed

lemma invite_panel_expanded:
  "filter_panel_view (filter_panel_props_of invite_panel) =
     Expanded \<lparr>search_value = [], source_options = select_options ''All sources'' [JStr ''A'', JStr ''B''],
       destination_options = select_options ''All destinations'' [JStr ''A'', JStr ''B''], callid_value = [],
       method_checkboxes = [(JStr ''INVITE'', False)], errors_checked = False, clear_disabled = True,
       status_text = ''No Filters Applied''\<rparr>"
  by (simp add: filter_panel_view_def filter_panel_props_of_def invite_panel_def invite_message_def
      has_active_filters_def no_filters_def js_or_def extracted_hosts_def available_methods_def
      extract_facets_def obj_get_def add_if_truthy_def set_add_def js_sort_def)

subsection \<open>Properties\<close>

text \<open>
  C11. Every method checkbox the expanded filter panel offers selects something:
  on a panel with no filter set, the checkbox is unchecked, and clicking it keeps
  exactly the messages with that method, which is never none of them.
\<close>

theorem method_checkbox_selects:
  assumes view: "panel_view lib s options = Inr v"
    and expanded: "filter_section v = Expanded ev"
    and offered: "(m, checked) \<in> set (method_checkboxes ev)"
    and clear: "filters s = no_filters"
  shows "\<not> checked \<and>
         (\<exists>s'. panel_step s (FilterInput (method_checkbox_click (filters s) m)) = (Inr s', []) \<and>
               flowData s' = filter (\<lambda>x. obj_get x ''method'' = m) (processedData s) \<and>
               flowData s' \<noteq> [])"
proof -
  have ev: "filter_panel_view (filter_panel_props_of s) = Expanded ev"
    using view expanded by (simp add: panel_view_filter_section)
  have m: "m \<in> methods_of (processedData s)" and nc: "\<not> checked"
    using offered clear by (auto simp: expanded_panel_offers(3) [OF ev] available_methods_set no_filters_def)
  have fl: "filter_messages (filter_panel_update (filters s) (method_checkbox_click (filters s) m)) (processedData s) =
            Inr (filter (\<lambda>x. obj_get x ''method'' = m) (processedData s))"
  proof -
    have "filter_panel_update no_filters (method_checkbox_click no_filters m) = no_filters\<lparr>methodFilter := [m]\<rparr>"
      by (simp add: method_checkbox_click_def no_filters_def)
    then show ?thesis unfolding clear by (simp add: filter_messages_pred passes_method_only)
  qed
  have "filter (\<lambda>x. obj_get x ''method'' = m) (processedData s) \<noteq> []"
    using m by (auto simp: methods_of_def filter_empty_conv)
  with nc show ?thesis using filter_input_step [OF fl] by simp
qed

theorem method_checkbox_selects_witness:
  "\<exists>v ev s'. panel_view no_dates invite_panel mock_options = Inr v \<and> filter_section v = Expanded ev \<and>
      (JStr ''INVITE'', False) \<in> set (method_checkboxes ev) \<and>
      panel_step invite_panel (FilterInput (method_checkbox_click no_filters (JStr ''INVITE''))) = (Inr s', []) \<and>
      flowData s' = [invite_message]"
proof -
  obtain v where v: "panel_view no_dates invite_panel mock_options = Inr v"
    and sec: "filter_section v = filter_panel_view (filter_panel_props_of invite_panel)"
    using invite_panel_view by blast
  let ?ev = "\<lparr>search_value = [], source_options = select_options ''All sources'' [JStr ''A'', JStr ''B''],
       destination_options = select_options ''All destinations'' [JStr ''A'', JStr ''B''], callid_value = [],
       method_checkboxes = [(JStr ''INVITE'', False)], errors_checked = False, clear_disabled = True,
       status_text = ''No Filters Applied''\<rparr>"
  have ex: "filter_section v = Expanded ?ev" using sec invite_panel_expanded by simp
  have clear: "filters invite_panel = no_filters" by (simp add: invite_panel_def)
  show ?thesis
    using method_checkbox_selects [OF v ex _ clear, of "JStr ''INVITE''" False] v ex
    by (auto simp: invite_panel_def invite_message_def obj_get_def)
qed

text \<open>
  C12. Every option of the source Select selects what it names: on a panel with no
  filter set, choosing "All sources" keeps every message and choosing an endpoint
  keeps exactly the messages sent from it; the step never throws and the host
  header is unchanged.
\<close>

theorem source_option_selects:
  assumes view: "panel_view lib s options = Inr v"
    and expanded: "filter_section v = Expanded ev"
    and offered: "(label, value) \<in> set (source_options ev)"
    and clear: "filters s = no_filters"
  shows "\<exists>s'. panel_step s (FilterInput (SourceChange (Some value))) = (Inr s', []) \<and>
              flowData s' = (if value = JStr [] then processedData s
                             else filter (\<lambda>x. obj_get x ''source'' = value) (processedData s)) \<and>
              hosts s' = extracted_hosts (processedData s)"
proof -
  have ev: "filter_panel_view (filter_panel_props_of s) = Expanded ev"
    using view expanded by (simp add: panel_view_filter_section)
  have wf: "value = JStr [] \<or> js_truthy value"
    using select_option_value [OF offered [unfolded expanded_panel_offers(1) [OF ev]]]
    by (auto simp: set_extracted_hosts endpoints_def)
  let ?P = "\<lambda>x. \<not> js_truthy value \<or> obj_get x ''source'' = value"
  have fl: "filter_messages (filter_panel_update (filters s) (SourceChange (Some value))) (processedData s) =
            Inr (filter ?P (processedData s))"
    unfolding clear filter_panel_update.simps select_value_offered [OF wf]
    by (rule filter_messages_pred) (rule passes_source_only)
  have "filter ?P (processedData s) = (if value = JStr [] then processedData s
                                        else filter (\<lambda>x. obj_get x ''source'' = value) (processedData s))"
    using wf by auto
  then show ?thesis using filter_input_step [OF fl] by simp
qed

theorem source_option_selects_witness:
  "\<exists>v ev s'. panel_view no_dates invite_panel mock_options = Inr v \<and> filter_section v = Expanded ev \<and>
      (JStr ''A'', JStr ''A'') \<in> set (source_options ev) \<and>
      panel_step invite_panel (FilterInput (SourceChange (Some (JStr ''A'')))) = (Inr s', []) \<and>
      flowData s' = [invite_message]"
proof -
  obtain v where v: "panel_view no_dates invite_panel mock_options = Inr v"
    and sec: "filter_section v = filter_panel_view (filter_panel_props_of invite_panel)"
    using invite_panel_view by blast
  obtain ev where ex: "filter_section v = Expanded ev"
    and so: "source_options ev = select_options ''All sources'' [JStr ''A'', JStr ''B'']"
    using sec invite_panel_expanded by simp
  have offered: "(JStr ''A'', JStr ''A'') \<in> set (source_options ev)" by (simp add: so select_options_def)
  have clear: "filters invite_panel = no_filters" by (simp add: invite_panel_def)
  show ?thesis
    using source_option_selects [OF v ex offered clear] v ex offered
    by (auto simp: invite_panel_def invite_message_def obj_get_def)
qed

text \<open>
  C13. The source Select also offers the endpoints that only ever receive messages:
  \<open>availableSources\<close> is \<open>extractedHosts\<close>, the union of sources and destinations.
  Choosing such an endpoint on a panel with no filter set empties the list, and the
  panel then shows "All messages filtered out" although it has messages.
\<close>

theorem destination_only_source_option:
  assumes view: "panel_view lib s options = Inr v"
    and expanded: "filter_section v = Expanded ev"
    and clear: "filters s = no_filters"
    and dest: "x \<in> set (processedData s)" "obj_get x ''destination'' = h" "js_truthy h"
    and never_source: "\<forall>y \<in> set (processedData s). obj_get y ''source'' \<noteq> h"
  shows "(h, h) \<in> set (source_options ev) \<and>
         (\<exists>s' v'. panel_step s (FilterInput (SourceChange (Some h))) = (Inr s', []) \<and> flowData s' = [] \<and>
                 panel_view lib s' options = Inr v' \<and>
                 flow_content v' = EmptyState ''All messages filtered out'')"
proof -
  have ev: "filter_panel_view (filter_panel_props_of s) = Expanded ev"
    using view expanded by (simp add: panel_view_filter_section)
  have offered: "(h, h) \<in> set (source_options ev)"
    using dest by (auto simp: expanded_panel_offers(1) [OF ev] select_options_def set_extracted_hosts endpoints_def)
  let ?f = "no_filters\<lparr>sourceFilter := h\<rparr>"
  have fl: "filter_messages ?f (processedData s) = Inr []"
    using filter_messages_pred [of ?f "\<lambda>x. \<not> js_truthy h \<or> obj_get x ''source'' = h", OF passes_source_only]
      never_source dest(3) by (simp add: filter_empty_conv)
  then have step: "panel_step s (FilterInput (SourceChange (Some h))) =
      (Inr (s\<lparr>filters := ?f, flowData := [], hosts := extracted_hosts (processedData s)\<rparr>), [])"
    using filter_input_step [of s "SourceChange (Some h)"] select_value_offered [of h] dest(3) clear by simp
  obtain v' where "panel_view lib (s\<lparr>filters := ?f, flowData := [], hosts := extracted_hosts (processedData s)\<rparr>) options = Inr v'"
    and "flow_content v' = EmptyState ''All messages filtered out''"
    using panel_view_exists [of "s\<lparr>filters := ?f, flowData := [], hosts := extracted_hosts (processedData s)\<rparr>" "[]" lib options]
      fl dest(1) by auto
  with offered step show ?thesis by auto
qed

theorem destination_only_source_option_witness:
  "\<exists>v ev s' v'. panel_view no_dates invite_panel mock_options = Inr v \<and> filter_section v = Expanded ev \<and>
      (JStr ''B'', JStr ''B'') \<in> set (source_options ev) \<and>
      panel_step invite_panel (FilterInput (SourceChange (Some (JStr ''B'')))) = (Inr s', []) \<and>
      flowData s' = [] \<and> panel_view no_dates s' mock_options = Inr v' \<and>
      flow_content v' = EmptyState ''All messages filtered out''"
proof -
  obtain v where v: "panel_view no_dates invite_panel mock_options = Inr v"
    and sec: "filter_section v = filter_panel_view (filter_panel_props_of invite_panel)"
    using invite_panel_view by blast
  obtain ev where ex: "filter_section v = Expanded ev" using sec invite_panel_expanded by simp
  have clear: "filters invite_panel = no_filters" by (simp add: invite_panel_def)
  have x: "invite_message \<in> set (processedData invite_panel)" by (simp add: invite_panel_def)
  have d: "obj_get invite_message ''destination'' = JStr ''B''" "js_truthy (JStr ''B'')"
    by (simp_all add: invite_message_def obj_get_def)
  have ns: "\<forall>y \<in> set (processedData invite_panel). obj_get y ''source'' \<noteq> JStr ''B''"
    by (simp add: invite_panel_def invite_message_def obj_get_def)
  show ?thesis using destination_only_source_option [OF v ex clear x d ns] v ex by blast
qed

end
