(* ===== verification/Spec2Isabelle.thy ===== *)
theory Spec2Isabelle
  imports Template_Editor Detail_Item Render_Cycle Facet_Selection
begin

text \<open>
  Verification development of grafana-flow, a Grafana panel plugin that draws SIP
  message flows as a sequence diagram. The program is a handful of React components
  under \<open>src/src\<close>; the panel \<open>FlowVisualization\<close> reshapes the query result into flow
  messages (memo \<open>processedData\<close>), extracts the endpoints and methods
  (\<open>extractedHosts\<close>, \<open>availableMethods\<close>), filters the messages with the options of its
  \<open>FilterPanel\<close> (\<open>filteredData\<close>), copies the result into its state in an effect and
  renders one \<open>FlowItem\<close> per message; clicks and exports leave as window events. The
  settings editor \<open>TemplateEditor\<close> previews the panel on mock props, and
  \<open>DetailItem\<close> renders one field of a message in the detail modal.

  \<^bold>\<open>JavaScript values.\<close> \<open>Prelude\<close> holds the shared list facts and the JavaScript
  containers (sparse arrays as \<open>'a option list\<close>, insertion-ordered sets). \<open>JS_Values\<close>
  models the values the untyped message records hold (\<open>jsval\<close>: undefined, null,
  boolean, integer number, string), truthiness, \<open>||\<close>, \<open>String()\<close> with a decimal
  printer, \<open>parseInt(_, 10)\<close> (\<open>None\<close> for NaN), ASCII \<open>toLowerCase\<close>,
  \<open>includes\<close>, objects as property lists in insertion order, the default
  \<open>Array.prototype.sort\<close> (stable, by \<open>String()\<close>) and the \<open>TypeError\<close> of a call on the
  wrong kind of value.

  \<^bold>\<open>The pipeline\<close> (\<open>FlowVisualization.tsx\<close> lines 125--222), one theory per stage:
  \<^item> \<open>Row_Normalizer\<close>: \<open>rows_of_frame\<close> writes \<open>series[0].fields\<close> row by row into a
    sparse array (lines 129--142); its lemmas give the shape and every cell.
  \<^item> \<open>Host_Positions\<close>: \<open>host_positions\<close> is \<open>hostPositions\<close> (lines 144--155); the
    lemmas show it is an index map onto the sorted distinct endpoints, monotone in the
    string order, and independent of row order exactly when \<open>String()\<close> separates the
    endpoints.
  \<^item> \<open>Message_Enricher\<close>: \<open>processed_data\<close> is the whole memo (lines 125--165) with
    \<open>Date.now()\<close> as an explicit clock (the value read while enriching row \<open>i\<close>),
    so every claim about hashes holds for every clock.
  \<^item> \<open>Facets\<close>: \<open>extract_facets\<close> is the second memo (lines 167--182).
  \<^item> \<open>Flow_Filter\<close>: \<open>filter_messages\<close> is \<open>filteredData\<close> (lines 184--222) with the
    \<open>TypeError\<close> of \<open>callid?.includes\<close> as \<open>Inl\<close>; \<open>spec_included\<close> is the spec's
    filter, and the refinement lemma relates the two.

  \<^bold>\<open>The components.\<close> \<open>Filter_Panel\<close> models \<open>FilterPanel.tsx\<close>: every handler as an
  update of the options (\<open>filter_panel_update\<close>), the reachable options
  (\<open>filter_reachable\<close>, by rule induction), \<open>hasActiveFilters\<close> and the rendered
  panel, a function of the record \<open>filter_panel_props\<close> of its props. \<open>Flow_Item\<close> models the row component \<open>FlowItem\<close>: \<open>getArrowDirection\<close>,
  \<open>getMethodColor\<close> (which throws on a method that is not a string), \<open>handleClick\<close>,
  \<open>formatTimestamp\<close> with its \<open>try\<close>/\<open>catch\<close>, and the rendered row, which fails when its
  colour lookup throws and whose \<open>cond && <div/>\<close> children are React children
  (\<open>react_child\<close>: a falsy number 0 is rendered as the text "0");
  \<open>flow_item\<close> applies the defaults of its props record \<open>flow_item_props\<close>.
  \<open>Panel\<close> models the component \<open>FlowVisualization\<close> as a state machine: the
  record \<open>panel_state\<close> holds the memoised \<open>processedData\<close> and the four \<open>useState\<close>
  cells; \<open>panel_step\<close> handles one event (new data, filter input, toggle, click,
  export) and returns the new state, or the render's \<open>TypeError\<close>, with the emitted
  notifications; \<open>panel_reachable\<close> is the closure from mount under the events the
  rendered controls can produce, and \<open>panel_trans\<close> one such event; \<open>panel_view\<close>
  is the render, in which a throwing row aborts the whole render (\<open>map_result\<close>) and
  \<open>filter_panel_props_of\<close> and \<open>flow_item_element\<close> are the \<open>FilterPanel\<close> and
  \<open>FlowItem\<close> elements it renders. \<open>Template_Editor\<close>
  mounts the panel on the mock props, and \<open>Detail_Item\<close> models a detail row.
  \<open>Render_Cycle\<close> models the same component one level lower, with object identities:
  \<open>render_state\<close> holds every hook cell as a reference paired with its value, the
  three \<open>useMemo\<close> caches with their dependency references and the dependencies of
  the last effect run; \<open>render\<close> is one render (the three \<open>use_memo\<close> calls with
  the dependency arrays of \<open>FlowVisualization.tsx\<close> lines 126-222),
  \<open>commit_effect\<close> the \<open>useEffect\<close> of lines 224-228 with React's \<open>Object.is\<close>
  bail-out of the setters, \<open>render_loop\<close> the render/commit cycle as a
  \<open>partial_function (option)\<close> (\<open>None\<close> is a render loop that never settles), and
  \<open>react_step\<close> an event handled by that loop. \<open>abs_state\<close> forgets the
  references and maps a hook state to a \<open>panel_state\<close>. \<open>Facet_Selection\<close>
  composes the facet extractor, the filter panel and the filter: from an option the
  rendered panel offers, through the action it sends, to the list on screen. The
  host-dependent library calls (\<open>Date.parse\<close>, \<open>toISOString\<close>,
  \<open>toLocaleTimeString\<close>, \<open>JSON.parse\<close>) are the fields of the record \<open>js_library\<close>,
  a parameter of every definition that uses them, so each theorem holds for every time
  zone, locale and date grammar.

  \<^bold>\<open>What is proved.\<close> The filter refines the spec's filter on well-typed messages,
  is the identity on empty options, and filtering
  the list on screen after the search term grows equals filtering everything; the position map
  is a bijection ordered by the names; processing keeps every row and enriches it as
  written, with numeric positions and a truthy hash; the header and the arrows agree;
  every reachable panel state is in step with its memos (rule induction over
  \<open>panel_reachable\<close>), exports the list on screen, reports the clicked message, never
  narrows the facets and renders honest counts, and from every reachable state the
  unfiltered view can be reached again (a liveness property over \<open>panel_trans\<close>); the filter panel's options stay well formed and its indicator is
  exact. The render loop always settles after one render and one commit, because the
  memos return the objects the effect has just stored (\<open>render_loop_settles\<close>), and on
  a settled hook state every event handled by the render loop refines
  \<open>panel_step\<close> and leaves a settled state again (\<open>react_step_refines\<close>, with
  the cache invariant \<open>memo_wf\<close>). On a panel with no filter set, every method
  checkbox offered is unchecked and selects a non-empty list, and every option of the
  source Select keeps exactly the messages it names. The spec's five scenarios are evaluated. The findings are proved as well, each for every input it concerns: the
  \<open>TypeError\<close> of a numeric or boolean Call-ID in any panel state (and reachable from
  mount), the error filter keeping exactly the codes that are at least 400 or do not
  parse, position order depending on row order for any two endpoints \<open>String()\<close>
  does not tell apart, hash collisions from a hash column, a source Select offering endpoints that never send (choosing one empties the
  list), a numeric method crashing the panel render, "Invalid Date" shown for an
  unparsable timestamp (the \<open>catch\<close> of \<open>formatTimestamp\<close> is modelled and never
  taken), and the detail row throwing on numbers.

  \<^bold>\<open>Approximations and what is not modelled.\<close> Numbers are integers (the data the
  pipeline compares are names, codes and positions); string order and case mapping
  are on characters as Isabelle orders them, which agrees with UTF-16 code units for
  ASCII text. No loop needs fuel: every loop of the code runs over a finite list, and
  the one unbounded loop, React's re-rendering, is a \<open>partial_function\<close> whose
  termination is a theorem.
  Not modelled: the CSS of the \<open>getStyles\<close> blocks and the style attributes (colours
  with an alpha suffix, arrow classes beyond their direction), the JSON viewer and copy
  button, React's scheduling beyond "the effect runs after each render, and a setter
  given a new object renders again" (in particular
  the first render before the effect, which shows the empty state for one frame), and
  the unused \<open>timeRange\<close>, \<open>isGroupByAlias\<close> and \<open>sortoption\<close>, which no code reads.
\<close>

section \<open>The spec's example data\<close>

definition two_endpoint_frame :: frame where
  "two_endpoint_frame =
     [\<lparr>name = Some ''source'', values = Some [JStr ''A'', JStr ''B'']\<rparr>,
      \<lparr>name = Some ''destination'', values = Some [JStr ''B'', JStr ''A'']\<rparr>,
      \<lparr>name = Some ''method'', values = Some [JStr ''INVITE'', JStr ''200'']\<rparr>]"

definition two_endpoint_data :: panel_data where
  "two_endpoint_data = \<lparr>series = Some [two_endpoint_frame]\<rparr>"

definition response_code_data :: panel_data where
  "response_code_data =
     \<lparr>series = Some [[\<lparr>name = Some ''source'', values = Some [JStr ''A'', JStr ''B'']\<rparr>,
                      \<lparr>name = Some ''response_code'', values = Some [JStr ''200'', JStr ''404'']\<rparr>]]\<rparr>"

lemmas scenario_eval = two_endpoint_frame_def two_endpoint_data_def response_code_data_def
  processed_eval filter_eval

section \<open>Properties across components\<close>

subsection \<open>Endpoint positions of a processed message\<close>

lemma processed_position:
  assumes "series data = Some (frame # frames)" and "r < row_count frame"
    and "(k, kp) \<in> {(''source'', ''sourcePosition''), (''destination'', ''destinationPosition'')}"
    and "js_truthy (row_value frame r k)"
  shows "\<exists>p. host_positions (rows_of_frame frame) (row_value frame r k) = Some p \<and>
             p < length (sorted_hosts (rows_of_frame frame)) \<and>
             sorted_hosts (rows_of_frame frame) ! p = row_value frame r k \<and>
             obj_get (processed_data clk data ! r) kp = JNum (int p)"
proof -
  let ?rows = "rows_of_frame frame"
  let ?v = "row_value frame r k"
  have "rows_of_frame frame ! r = Some (row_or_new ?rows r)" and "r < length ?rows"
    using rows_of_frame_cell [OF assms(2)] rows_of_frame_shape [of frame] assms(2) by auto
  then have "row_or_new ?rows r \<in> set (present ?rows)"
    by (auto simp: set_present dest: nth_mem)
  moreover have "obj_get (row_or_new ?rows r) k = ?v"
    using assms(2) by (rule obj_get_row)
  ultimately have "?v \<in> endpoints (present ?rows)"
    using assms(3,4) unfolding endpoints_def by force
  then obtain p where p: "p < length (sorted_hosts ?rows)" "sorted_hosts ?rows ! p = ?v"
    by (auto simp: set_sorted_hosts [symmetric] in_set_conv_nth)
  then have pos: "host_positions ?rows ?v = Some p" by (simp add: host_positions_iff)
  have "obj_get (processed_data clk data ! r) kp = JNum (int (position_of (host_positions ?rows) ?v))"
    using assms(3) by (auto simp: processed_data_nth [OF assms(1,2)] obj_get_enrich_message obj_get_row [OF assms(2)])
  with p pos show ?thesis by (simp add: position_of_def)
qed

text \<open>
  C21. The host header row and the arrows agree: the source of every processed message
  is shown in the header (\<open>extractedHosts\<close>, from the unfiltered data) at exactly the
  index the message's \<open>sourcePosition\<close> names.
\<close>

theorem header_position_agreement:
  assumes "series data = Some (frame # frames)" and "r < row_count frame"
    and "js_truthy (row_value frame r ''source'')"
  shows "\<exists>p < length (extracted_hosts (processed_data clk data)).
           extracted_hosts (processed_data clk data) ! p = row_value frame r ''source'' \<and>
           obj_get (processed_data clk data ! r) ''sourcePosition'' = JNum (int p)"
  using processed_position [OF assms(1,2) _ assms(3), of "''sourcePosition''" clk]
    extracted_hosts_processed [OF assms(1), of clk]
  by auto

theorem header_position_agreement_witness:
  "\<exists>p < length (extracted_hosts (processed_data (\<lambda>_. 0) two_endpoint_data)).
     extracted_hosts (processed_data (\<lambda>_. 0) two_endpoint_data) ! p = JStr ''B'' \<and>
     obj_get (processed_data (\<lambda>_. 0) two_endpoint_data ! 1) ''sourcePosition'' = JNum (int p)"
proof -
  have d: "series two_endpoint_data = Some (two_endpoint_frame # [])" by (simp add: two_endpoint_data_def)
  have r: "1 < row_count two_endpoint_frame" by (simp add: scenario_eval)
  have v: "row_value two_endpoint_frame 1 ''source'' = JStr ''B''" by (simp add: scenario_eval row_value_def)
  show ?thesis using header_position_agreement [OF d r, of "\<lambda>_. 0"] v by simp
qed

text \<open>
  C22. Arrow direction follows the endpoint names: for a message whose source and
  destination are both set, the drawn arrow points right exactly when the source's
  string form sorts before the destination's, left in the opposite case, and is a dot
  for a message to itself.
\<close>

theorem arrow_follows_endpoint_names:
  assumes "series data = Some (frame # frames)" and "r < row_count frame"
    and "js_truthy (row_value frame r ''source'')" and "js_truthy (row_value frame r ''destination'')"
    and "js_to_string (row_value frame r ''source'') = js_to_string (row_value frame r ''destination'') \<longrightarrow>
         row_value frame r ''source'' = row_value frame r ''destination''"
  shows "get_arrow_direction (processed_data clk data ! r) =
    (if js_to_string (row_value frame r ''source'') < js_to_string (row_value frame r ''destination'')
     then ArrowRight
     else if js_to_string (row_value frame r ''destination'') < js_to_string (row_value frame r ''source'')
     then ArrowLeft
     else ArrowBidirectional)"
proof -
  let ?s = "row_value frame r ''source''" and ?d = "row_value frame r ''destination''"
  let ?pos = "host_positions (rows_of_frame frame)"
  obtain ps where ps: "?pos ?s = Some ps" "obj_get (processed_data clk data ! r) ''sourcePosition'' = JNum (int ps)"
    using processed_position [OF assms(1,2) _ assms(3), of "''sourcePosition''" clk] by auto
  obtain pd where pd: "?pos ?d = Some pd" "obj_get (processed_data clk data ! r) ''destinationPosition'' = JNum (int pd)"
    using processed_position [OF assms(1,2) _ assms(4), of "''destinationPosition''" clk] by auto
  have "ps < pd \<longleftrightarrow> js_to_string ?s < js_to_string ?d"
    using host_positions_mono [OF ps(1) pd(1)] host_positions_mono [OF pd(1) ps(1)] assms(5) ps(1) pd(1)
    by (cases "js_to_string ?s = js_to_string ?d") (auto simp: linorder_neq_iff)
  moreover have "pd < ps \<longleftrightarrow> js_to_string ?d < js_to_string ?s"
    using host_positions_mono [OF ps(1) pd(1)] host_positions_mono [OF pd(1) ps(1)] assms(5) ps(1) pd(1)
    by (cases "js_to_string ?s = js_to_string ?d") (auto simp: linorder_neq_iff)
  ultimately show ?thesis
    using get_arrow_direction_num [OF ps(2) pd(2)] by simp
qed

theorem arrow_follows_endpoint_names_witness:
  "map get_arrow_direction (processed_data (\<lambda>_. 0) two_endpoint_data) = [ArrowRight, ArrowLeft]"
proof -
  have d: "series two_endpoint_data = Some (two_endpoint_frame # [])" by (simp add: two_endpoint_data_def)
  have n: "row_count two_endpoint_frame = 2" by (simp add: two_endpoint_frame_def frame_eval)
  have len: "length (processed_data (\<lambda>_. 0) two_endpoint_data) = 2"
    using processed_data_length_frame [OF d] n by simp
  have v: "row_value two_endpoint_frame 0 ''source'' = JStr ''A''" "row_value two_endpoint_frame 0 ''destination'' = JStr ''B''"
    "row_value two_endpoint_frame 1 ''source'' = JStr ''B''" "row_value two_endpoint_frame 1 ''destination'' = JStr ''A''"
    by (simp_all add: two_endpoint_frame_def frame_eval row_value_def)
  have a0: "get_arrow_direction (processed_data (\<lambda>_. 0) two_endpoint_data ! 0) = ArrowRight"
    using arrow_follows_endpoint_names [OF d, of 0] n v by simp
  have a1: "get_arrow_direction (processed_data (\<lambda>_. 0) two_endpoint_data ! 1) = ArrowLeft"
    using arrow_follows_endpoint_names [OF d, of 1] n v by simp
  show ?thesis using len a0 a1 by (intro nth_equalityI) (auto simp: less_2_cases_iff)
qed

section \<open>The spec's scenarios\<close>

text \<open>
  C24. The five concrete scenarios of the spec. (1) Sources \<open>[A, B]\<close>, destinations
  \<open>[B, A]\<close>, methods \<open>[INVITE, 200]\<close> give two messages, positions \<open>A = 0, B = 1\<close>,
  message 0 from 0 to 1 (arrow right), message 1 from 1 to 0 (arrow left), and the
  header \<open>[A, B]\<close>. (2) The method filter \<open>[INVITE]\<close> keeps only message 0. (3) "Show only
  errors" over response codes \<open>"200"\<close> and \<open>"404"\<close> keeps only the \<open>"404"\<close> message.
  (4) The Call-ID filter \<open>"xyz"\<close> excludes messages that have no \<open>callid\<close>. (5) An empty
  dataset (no series, or \<open>series: []\<close>) gives no message, no endpoint, no method and no
  error, whatever the filters.
\<close>

theorem spec_scenarios:
  "length (processed_data clk two_endpoint_data) = 2 \<and>
   host_positions (rows_of_frame two_endpoint_frame) (JStr ''A'') = Some 0 \<and>
   host_positions (rows_of_frame two_endpoint_frame) (JStr ''B'') = Some 1 \<and>
   map (\<lambda>m. (obj_get m ''sourcePosition'', obj_get m ''destinationPosition''))
     (processed_data clk two_endpoint_data) = [(JNum 0, JNum 1), (JNum 1, JNum 0)] \<and>
   map get_arrow_direction (processed_data clk two_endpoint_data) = [ArrowRight, ArrowLeft] \<and>
   extracted_hosts (processed_data clk two_endpoint_data) = [JStr ''A'', JStr ''B''] \<and>
   filter_messages (no_filters\<lparr>methodFilter := [JStr ''INVITE'']\<rparr>) (processed_data clk two_endpoint_data) =
     Inr [processed_data clk two_endpoint_data ! 0] \<and>
   filter_messages (no_filters\<lparr>showOnlyErrors := True\<rparr>) (processed_data clk response_code_data) =
     Inr [processed_data clk response_code_data ! 1] \<and>
   filter_messages (no_filters\<lparr>callidFilter := ''xyz''\<rparr>) (processed_data clk two_endpoint_data) = Inr [] \<and>
   processed_data clk \<lparr>series = Some []\<rparr> = [] \<and> processed_data clk \<lparr>series = None\<rparr> = [] \<and>
   extracted_hosts [] = [] \<and> available_methods [] = [] \<and> filter_messages fo [] = Inr []"
proof -
  have s1: "length (processed_data clk two_endpoint_data) = 2 \<and>
   host_positions (rows_of_frame two_endpoint_frame) (JStr ''A'') = Some 0 \<and>
   host_positions (rows_of_frame two_endpoint_frame) (JStr ''B'') = Some 1 \<and>
   map (\<lambda>m. (obj_get m ''sourcePosition'', obj_get m ''destinationPosition''))
     (processed_data clk two_endpoint_data) = [(JNum 0, JNum 1), (JNum 1, JNum 0)] \<and>
   map get_arrow_direction (processed_data clk two_endpoint_data) = [ArrowRight, ArrowLeft] \<and>
   extracted_hosts (processed_data clk two_endpoint_data) = [JStr ''A'', JStr ''B'']"
    by (simp add: scenario_eval js_eval get_arrow_direction_def js_less_def extracted_hosts_def
        extract_facets_def)
  have s2: "filter_messages (no_filters\<lparr>methodFilter := [JStr ''INVITE'']\<rparr>) (processed_data clk two_endpoint_data) =
     Inr [processed_data clk two_endpoint_data ! 0]"
    by (simp add: scenario_eval js_eval)
  have s3: "filter_messages (no_filters\<lparr>showOnlyErrors := True\<rparr>) (processed_data clk response_code_data) =
     Inr [processed_data clk response_code_data ! 1]"
    by (simp add: scenario_eval js_eval)
  have s4: "filter_messages (no_filters\<lparr>callidFilter := ''xyz''\<rparr>) (processed_data clk two_endpoint_data) = Inr []"
    by (simp add: scenario_eval js_eval)
  have s5: "processed_data clk \<lparr>series = Some []\<rparr> = [] \<and> processed_data clk \<lparr>series = None\<rparr> = [] \<and>
     extracted_hosts [] = [] \<and> available_methods [] = [] \<and> filter_messages fo [] = Inr []"
    by (simp add: processed_data_def extracted_hosts_def available_methods_def extract_facets_def js_sort_def)
  from s1 s2 s3 s4 s5 show ?thesis by blast
qed

end
